(* ===== verification/BB_Prelude.thy ===== *)
theory BB_Prelude
  imports Main "HOL-Library.Sublist"
begin

text \<open>
  Prelude of the BreakerBox development: the fragments of Go and of its standard library
  that several components use (64-bit integers, \<^verbatim>\<open>strings\<close>, slices as bounded buffers), with
  the lemmas and the collections that the component theories share.

  Go strings are byte strings; a HOL \<open>string\<close> is a list of \<open>char\<close>, that is of bytes.
\<close>

named_theorems bb_defs \<open>definitions of small operations that proofs unfold\<close>
named_theorems str_simps \<open>facts on the string functions\<close>
named_theorems frame_simps \<open>which fields an operation leaves alone\<close>

type_synonym 'a go_result = "string + 'a"

subsection \<open>64-bit integers and durations\<close>

text \<open>
  \<^verbatim>\<open>int64\<close>, \<^verbatim>\<open>int\<close> (64 bits on every platform the agent is built for) and
  \<^verbatim>\<open>time.Duration\<close> are two's complement; \<open>wrap64\<close> reduces a mathematical result to the
  value the machine holds.
\<close>

definition wrap64 :: "int \<Rightarrow> int" where
  "wrap64 i = (i + 2 ^ 63) mod 2 ^ 64 - 2 ^ 63"

definition in64 :: "int \<Rightarrow> bool" where
  "in64 i \<longleftrightarrow> - (2 ^ 63) \<le> i \<and> i < 2 ^ 63"

lemma wrap64_in64 [simp]: "in64 (wrap64 i)"
proof -
  have "0 \<le> (i + 2 ^ 63) mod 2 ^ 64" "(i + 2 ^ 63) mod 2 ^ 64 < (2 ^ 64 :: int)" by simp_all
  then show ?thesis by (simp add: in64_def wrap64_def)
qed

lemma wrap64_id: "in64 i \<Longrightarrow> wrap64 i = i"
  by (simp add: in64_def wrap64_def)

text \<open>\<^verbatim>\<open>d << n\<close> on a signed 64-bit value, and one second in nanoseconds.\<close>

definition shl64 :: "int \<Rightarrow> nat \<Rightarrow> int" where
  "shl64 d n = wrap64 (d * 2 ^ n)"

definition second :: int where
  "second = 1000000000"

lemma second_pos [simp]: "0 < second"
  by (simp add: second_def)

lemma shl64_second: "n \<le> 30 \<Longrightarrow> shl64 second n = second * 2 ^ n"
proof -
  assume "n \<le> 30"
  then have "(2::int) ^ n \<le> 2 ^ 30" by (intro power_increasing) auto
  then have "second * 2 ^ n \<le> second * 2 ^ 30" by (intro mult_left_mono) (simp_all add: second_def)
  moreover have "0 \<le> second * 2 ^ n" by (simp add: second_def)
  moreover have "second * 2 ^ 30 < (2 ^ 63 :: int)" by (simp add: second_def)
  moreover have "- (2 ^ 63) \<le> (0 :: int)" by simp
  ultimately have "in64 (second * 2 ^ n)" unfolding in64_def by linarith
  then show ?thesis by (simp add: shl64_def wrap64_id)
qed

subsection \<open>Slices used as bounded buffers\<close>

text \<open>\<^verbatim>\<open>if over := len(s) - n; over > 0 { s = s[over:] }\<close>: keep the newest \<open>n\<close>.\<close>

definition last_n :: "nat \<Rightarrow> 'a list \<Rightarrow> 'a list" where
  "last_n n xs = drop (length xs - n) xs"

lemma length_last_n [simp]: "length (last_n n xs) = min n (length xs)"
  by (simp add: last_n_def)

lemma last_n_short [simp]: "length xs \<le> n \<Longrightarrow> last_n n xs = xs"
  by (simp add: last_n_def)

lemma last_n_append_last_n: "last_n n (last_n n xs @ ys) = last_n n (xs @ ys)"
proof -
  have "drop (length xs - n) xs @ ys = drop (length xs - n) (xs @ ys)" by simp
  then show ?thesis
    by (cases "length xs \<le> n") (auto simp: last_n_def add.commute simp del: drop_append)
qed

lemma set_last_n: "set (last_n n xs) \<subseteq> set xs"
  by (simp add: last_n_def set_drop_subset)

lemma last_n_suffix: "suffix (last_n n xs) xs"
  by (simp add: last_n_def suffix_drop)

lemma last_n_append_ge: "n \<le> length ys \<Longrightarrow> last_n n (xs @ ys) = last_n n ys"
  by (simp add: last_n_def)

text \<open>
  A buffer that keeps the newest \<open>cap\<close> items: the contract the offline buffers of the
  daemon and the send queue of the transport share. The provider promises what one push
  leaves in the buffer; the client lemmas speak of any number of pushes.
\<close>

locale bounded_buffer =
  fixes push :: "'b \<Rightarrow> 'a list \<Rightarrow> 'b"
    and items :: "'b \<Rightarrow> 'a list"
    and cap :: nat
  assumes items_push: "items (push b xs) = last_n cap (items b @ xs)"
begin

lemma push_bound: "length (items (push b xs)) \<le> cap"
  by (simp add: items_push)

lemma push_keeps_newest: "length xs \<le> cap \<Longrightarrow> suffix xs (items (push b xs))"
proof -
  assume "length xs \<le> cap"
  then have "last_n cap (items b @ xs) = drop (length (items b) + length xs - cap) (items b) @ xs"
    by (simp add: last_n_def)
  then show ?thesis by (simp add: items_push suffix_def)
qed

lemma push_nothing_lost:
  "length (items b) + length xs \<le> cap \<Longrightarrow> items (push b xs) = items b @ xs"
  by (simp add: items_push)

lemma pushes_items:
  "length (items b) \<le> cap \<Longrightarrow> items (fold (\<lambda>xs b. push b xs) xss b) = last_n cap (items b @ concat xss)"
proof (induction xss arbitrary: b)
  case Nil
  then show ?case by simp
next
  case (Cons xs xss)
  have "length (items (push b xs)) \<le> cap" by (rule push_bound)
  from Cons.IH [OF this] show ?case
    by (simp add: items_push last_n_append_last_n)
qed

end

subsection \<open>Strings\<close>

definition hasPrefix :: "string \<Rightarrow> string \<Rightarrow> bool" where
  "hasPrefix s p \<longleftrightarrow> take (length p) s = p"

definition hasSuffix :: "string \<Rightarrow> string \<Rightarrow> bool" where
  "hasSuffix s p \<longleftrightarrow> length p \<le> length s \<and> drop (length s - length p) s = p"

definition trimPrefix :: "string \<Rightarrow> string \<Rightarrow> string" where
  "trimPrefix s p = (if hasPrefix s p then drop (length p) s else s)"

definition trimSuffix :: "string \<Rightarrow> string \<Rightarrow> string" where
  "trimSuffix s p = (if hasSuffix s p then take (length s - length p) s else s)"

lemma hasPrefix_iff [str_simps]: "hasPrefix s p \<longleftrightarrow> (\<exists>r. s = p @ r)"
  unfolding hasPrefix_def by (metis append_eq_conv_conj append_take_drop_id)

lemma hasSuffix_iff [str_simps]: "hasSuffix s p \<longleftrightarrow> (\<exists>r. s = r @ p)"
proof
  assume "hasSuffix s p"
  then show "\<exists>r. s = r @ p"
    unfolding hasSuffix_def by (metis append_take_drop_id)
qed (auto simp: hasSuffix_def)

lemma trimPrefix_append [simp]: "trimPrefix (p @ s) p = s"
  by (simp add: trimPrefix_def hasPrefix_def)

lemma trimSuffix_append [simp]: "trimSuffix (s @ p) p = s"
  by (simp add: trimSuffix_def hasSuffix_def)

text \<open>\<^verbatim>\<open>strings.Split(s, sep)\<close> for a one-byte separator, and \<^verbatim>\<open>strings.Join\<close>.\<close>

fun splitOn :: "char \<Rightarrow> string \<Rightarrow> string list" where
  "splitOn c [] = [[]]"
| "splitOn c (x # xs) =
     (if x = c then [] # splitOn c xs
      else (case splitOn c xs of [] \<Rightarrow> [[x]] | l # ls \<Rightarrow> (x # l) # ls))"

fun joinWith :: "string \<Rightarrow> string list \<Rightarrow> string" where
  "joinWith sep [] = []"
| "joinWith sep [s] = s"
| "joinWith sep (s # t # ss) = s @ sep @ joinWith sep (t # ss)"

lemma splitOn_not_Nil [simp]: "splitOn c s \<noteq> []"
  by (cases s) (auto split: list.splits)

lemma splitOn_free: "c \<notin> set s \<Longrightarrow> splitOn c s = [s]"
  by (induction s) auto

lemma splitOn_pieces_free: "l \<in> set (splitOn c s) \<Longrightarrow> c \<notin> set l"
  by (induction s arbitrary: l) (auto split: list.splits if_splits)

lemma joinWith_Cons: "ss \<noteq> [] \<Longrightarrow> joinWith sep (s # ss) = s @ sep @ joinWith sep ss"
  by (cases ss) auto

lemma joinWith_head: "joinWith sep ((x # l) # ls) = x # joinWith sep (l # ls)"
  by (cases ls) auto

lemma joinWith_splitOn: "joinWith [c] (splitOn c s) = s"
proof (induction s)
  case (Cons x xs)
  then show ?case
    by (cases "splitOn c xs") (auto simp: joinWith_Cons joinWith_head)
qed simp

lemma splitOn_Cons_eq:
  "splitOn c (x # xs) = (if x = c then [] # splitOn c xs
     else (x # hd (splitOn c xs)) # tl (splitOn c xs))"
  by (cases "splitOn c xs") auto

lemma splitOn_sep: "splitOn c (a @ c # b) = splitOn c a @ splitOn c b"
proof (induction a)
  case (Cons x a)
  then show ?case by (cases "splitOn c a") (simp_all add: splitOn_Cons_eq)
qed simp

text \<open>
  Splitting a concatenation: the last, incomplete piece of the first part is continued by
  the second. This is what every incremental line reader of the program relies on.
\<close>

lemma splitOn_append:
  "splitOn c (a @ b) = butlast (splitOn c a) @ splitOn c (last (splitOn c a) @ b)"
proof (induction a)
  case (Cons x xs)
  show ?case
  proof (cases "x = c")
    case True
    with Cons show ?thesis by simp
  next
    case False
    obtain l ls where l: "splitOn c xs = l # ls" by (cases "splitOn c xs") auto
    show ?thesis
    proof (cases ls)
      case Nil
      with l False Cons show ?thesis by (simp add: splitOn_Cons_eq)
    next
      case (Cons m ms)
      with l False Cons.IH show ?thesis by (simp add: splitOn_Cons_eq)
    qed
  qed
qed simp

text \<open>
  \<^verbatim>\<open>strings.TrimSpace\<close> removes Unicode white space: the UTF-8 encodings of the code points
  with the White_Space property. The encodings are self-synchronising, so cutting matching
  byte sequences off either end is what the library does rune by rune.
\<close>

definition spaceSeqs :: "string list" where
  "spaceSeqs =
     [[CHR 0x09], [CHR 0x0A], [CHR 0x0B], [CHR 0x0C], [CHR 0x0D], [CHR 0x20],
      [CHR 0xC2, CHR 0x85], [CHR 0xC2, CHR 0xA0], [CHR 0xE1, CHR 0x9A, CHR 0x80],
      [CHR 0xE2, CHR 0x80, CHR 0x80], [CHR 0xE2, CHR 0x80, CHR 0x81], [CHR 0xE2, CHR 0x80, CHR 0x82],
      [CHR 0xE2, CHR 0x80, CHR 0x83], [CHR 0xE2, CHR 0x80, CHR 0x84], [CHR 0xE2, CHR 0x80, CHR 0x85],
      [CHR 0xE2, CHR 0x80, CHR 0x86], [CHR 0xE2, CHR 0x80, CHR 0x87], [CHR 0xE2, CHR 0x80, CHR 0x88],
      [CHR 0xE2, CHR 0x80, CHR 0x89], [CHR 0xE2, CHR 0x80, CHR 0x8A], [CHR 0xE2, CHR 0x80, CHR 0xA8],
      [CHR 0xE2, CHR 0x80, CHR 0xA9], [CHR 0xE2, CHR 0x80, CHR 0xAF], [CHR 0xE2, CHR 0x81, CHR 0x9F],
      [CHR 0xE3, CHR 0x80, CHR 0x80]]"

definition dropSpaceLeft :: "string \<Rightarrow> string option" where
  "dropSpaceLeft s = map_option (\<lambda>q. drop (length q) s) (find (hasPrefix s) spaceSeqs)"

definition dropSpaceRight :: "string \<Rightarrow> string option" where
  "dropSpaceRight s = map_option (\<lambda>q. take (length s - length q) s) (find (hasSuffix s) spaceSeqs)"

lemma find_SomeD: "find P xs = Some x \<Longrightarrow> x \<in> set xs \<and> P x"
  by (induction xs) (auto split: if_splits)

lemma spaceSeqs_nonempty [simp]: "[] \<notin> set spaceSeqs"
  by (simp add: spaceSeqs_def)

lemma dropSpaceLeft_shorter: "dropSpaceLeft s = Some t \<Longrightarrow> length t < length s"
  unfolding dropSpaceLeft_def
  by (auto dest!: find_SomeD simp: str_simps)

lemma dropSpaceRight_shorter: "dropSpaceRight s = Some t \<Longrightarrow> length t < length s"
  unfolding dropSpaceRight_def
  by (auto dest!: find_SomeD simp: str_simps)

function trimLeft :: "string \<Rightarrow> string" where
  "trimLeft s = (case dropSpaceLeft s of None \<Rightarrow> s | Some t \<Rightarrow> trimLeft t)"
  by pat_completeness auto
termination by (relation "measure length") (auto dest: dropSpaceLeft_shorter)

function trimRight :: "string \<Rightarrow> string" where
  "trimRight s = (case dropSpaceRight s of None \<Rightarrow> s | Some t \<Rightarrow> trimRight t)"
  by pat_completeness auto
termination by (relation "measure length") (auto dest: dropSpaceRight_shorter)

declare trimLeft.simps [simp del] trimRight.simps [simp del]

definition trimSpace :: "string \<Rightarrow> string" where
  "trimSpace s = trimRight (trimLeft s)"

text \<open>\<^verbatim>\<open>strconv.Itoa\<close> and the \<^verbatim>\<open>%d\<close> verb.\<close>

fun showNat :: "nat \<Rightarrow> string" where
  "showNat n = (if n < 10 then [char_of (48 + n)] else showNat (n div 10) @ [char_of (48 + n mod 10)])"

declare showNat.simps [simp del]

definition showInt :: "int \<Rightarrow> string" where
  "showInt i = (if i < 0 then CHR ''-'' # showNat (nat (- i)) else showNat (nat i))"

subsection \<open>Decoding numbers and base64\<close>

text \<open>\<^verbatim>\<open>strconv.Atoi\<close>: an optional sign and at least one decimal digit, within 64 bits.\<close>

definition digitVal :: "char \<Rightarrow> int option" where
  "digitVal c = (let n = of_char c :: nat in if 48 \<le> n \<and> n \<le> 57 then Some (int (n - 48)) else None)"

fun digitsVal :: "int \<Rightarrow> string \<Rightarrow> int option" where
  "digitsVal acc [] = Some acc"
| "digitsVal acc (c # cs) =
     (case digitVal c of None \<Rightarrow> None | Some v \<Rightarrow> digitsVal (10 * acc + v) cs)"

definition atoi :: "string \<Rightarrow> int option" where
  "atoi s =
     (let neg = hasPrefix s ''-''; body = (if neg \<or> hasPrefix s ''+'' then tl s else s)
      in if body = [] then None
         else case digitsVal 0 body of None \<Rightarrow> None
              | Some v \<Rightarrow> let r = (if neg then - v else v) in if in64 r then Some r else None)"

text \<open>
  \<^verbatim>\<open>base64.StdEncoding.DecodeString\<close>: line breaks are skipped, the padding is required and may only
  end the text; the unused bits of the last digit are not checked.
\<close>

definition b64val :: "char \<Rightarrow> nat option" where
  "b64val c =
     (let n = of_char c :: nat in
      if 65 \<le> n \<and> n \<le> 90 then Some (n - 65)
      else if 97 \<le> n \<and> n \<le> 122 then Some (n - 71)
      else if 48 \<le> n \<and> n \<le> 57 then Some (n + 4)
      else if c = CHR ''+'' then Some 62 else if c = CHR ''/'' then Some 63 else None)"

fun b64groups :: "string \<Rightarrow> string option" where
  "b64groups [] = Some []"
| "b64groups (a # b # c # d # rest) =
     (case (b64val a, b64val b) of
        (Some x, Some y) \<Rightarrow>
          (let b0 = char_of (4 * x + y div 16) in
           if c = CHR ''='' then (if d = CHR ''='' \<and> rest = [] then Some [b0] else None)
           else case b64val c of
             None \<Rightarrow> None
           | Some z \<Rightarrow>
               (let b1 = char_of (16 * (y mod 16) + z div 4) in
                if d = CHR ''='' then (if rest = [] then Some [b0, b1] else None)
                else case b64val d of
                  None \<Rightarrow> None
                | Some w \<Rightarrow>
                    map_option (\<lambda>bs. b0 # b1 # char_of (64 * (z mod 4) + w) # bs) (b64groups rest)))
      | _ \<Rightarrow> None)"
| "b64groups _ = None"

definition b64decode :: "string \<Rightarrow> string option" where
  "b64decode s = b64groups (filter (\<lambda>c. c \<noteq> CHR 0x0A \<and> c \<noteq> CHR 0x0D) s)"

lemma b64decode_sample: "b64decode ''aGk='' = Some ''hi''" "b64decode ''aGk'' = None"
  "b64decode ''Zm9vYmE='' = Some ''fooba''"
  by code_simp+

subsection \<open>Lines\<close>

text \<open>The complete lines of a piece of input after a carried partial line, and the new partial line.\<close>

definition lineFeed :: "string \<Rightarrow> string \<Rightarrow> string \<times> string list" where
  "lineFeed partial b =
     (let parts = splitOn CHR 0x0A (partial @ b) in (last parts, butlast parts))"

subsection \<open>Incremental readers\<close>

text \<open>
  A reader that takes its input in pieces of any size and yields a list of items. The laws
  say that cutting the input differently changes neither the items nor the final state; the
  SSE usage parser, the log tailer and the Docker stream reader are such readers.
\<close>

locale incremental_reader =
  fixes feed :: "'s \<Rightarrow> 'i list \<Rightarrow> 's \<times> 'o list"
  assumes feed_append: "feed s (a @ b) =
      (fst (feed (fst (feed s a)) b), snd (feed s a) @ snd (feed (fst (feed s a)) b))"
begin

lemma feed_chunks:
  "chunks \<noteq> [] \<Longrightarrow>
   fold (\<lambda>c (s, out). (fst (feed s c), out @ snd (feed s c))) chunks (s, out)
     = (fst (feed s (concat chunks)), out @ snd (feed s (concat chunks)))"
proof (induction chunks arbitrary: s out)
  case (Cons c cs)
  show ?case
  proof (cases "cs = []")
    case False
    with Cons.IH show ?thesis by (simp add: feed_append)
  qed simp
qed simp

lemma chunking_irrelevant:
  assumes "cs \<noteq> []" "ds \<noteq> []" "concat cs = concat ds"
  shows "fold (\<lambda>c (s, out). (fst (feed s c), out @ snd (feed s c))) cs (s, [])
       = fold (\<lambda>c (s, out). (fst (feed s c), out @ snd (feed s c))) ds (s, [])"
  using assms by (simp add: feed_chunks)

end

lemma lineFeed_append:
  "lineFeed s (a @ b) =
     (fst (lineFeed (fst (lineFeed s a)) b), snd (lineFeed s a) @ snd (lineFeed (fst (lineFeed s a)) b))"
  using splitOn_append [of "CHR 0x0A" "s @ a" b]
  by (simp add: lineFeed_def Let_def last_append butlast_append)

lemma lineFeed_joins: "joinWith [CHR 0x0A] (snd (lineFeed s b) @ [fst (lineFeed s b)]) = s @ b"
  by (simp add: lineFeed_def Let_def append_butlast_last_id joinWith_splitOn)

lemma lineFeed_Nil: "CHR 0x0A \<notin> set s \<Longrightarrow> lineFeed s [] = (s, [])"
  by (simp add: lineFeed_def splitOn_free)

lemma lineFeed_partial_free: "CHR 0x0A \<notin> set (fst (lineFeed s b))"
  using splitOn_pieces_free [of _ "CHR 0x0A" "s @ b"] by (simp add: lineFeed_def Let_def)

interpretation line_reader: incremental_reader lineFeed
  by unfold_locales (rule lineFeed_append)

end
