(* ===== verification/Protocol.thy ===== *)
theory Protocol
  imports BB_Prelude
begin

text \<open>
  The wire contract (\<^verbatim>\<open>pkg/protocol\<close>): control verbs, application states, the application
  definition with its validation, and the payloads the hub and the agent exchange. Go's
  string-typed enumerations admit any string, so each datatype has a constructor for the
  strings outside the declared constants. Maps of definitions (\<^verbatim>\<open>Env\<close>) are their entries in
  iteration order, with distinct keys.
\<close>

subsection \<open>Enumerations\<close>

datatype Verb = VerbStart | VerbStop | VerbRestart | OtherVerb string

fun verbStr :: "Verb \<Rightarrow> string" where
  "verbStr VerbStart = ''start''"
| "verbStr VerbStop = ''stop''"
| "verbStr VerbRestart = ''restart''"
| "verbStr (OtherVerb s) = s"

definition verbOf :: "string \<Rightarrow> Verb" where
  "verbOf s = (if s = ''start'' then VerbStart else if s = ''stop'' then VerbStop
     else if s = ''restart'' then VerbRestart else OtherVerb s)"

fun ValidVerb :: "Verb \<Rightarrow> bool" where
  "ValidVerb VerbStart = True"
| "ValidVerb VerbStop = True"
| "ValidVerb VerbRestart = True"
| "ValidVerb (OtherVerb _) = False"

datatype AppStatus =
  StatusRunning | StatusStopped | StatusStarting | StatusBackoff | StatusErrored
  | StatusUnknown | OtherStatus string

datatype DesiredState = DesiredRunning | DesiredStopped | OtherDesired string

datatype Approval = ApprovalPending | ApprovalApproved | ApprovalRejected | OtherApproval string

datatype AppKind = KindProcess | KindDocker | KindCompose | OtherKind string

lemma verbStr_verbOf [simp]: "verbStr (verbOf s) = s"
  by (simp add: verbOf_def)

lemma verbOf_verbStr: "ValidVerb v \<Longrightarrow> verbOf (verbStr v) = v"
  by (cases v) (simp_all add: verbOf_def)

lemma ValidVerb_verbOf: "ValidVerb (verbOf s) \<longleftrightarrow> s \<in> {''start'', ''stop'', ''restart''}"
  by (simp add: verbOf_def)

subsection \<open>Application definitions\<close>

definition AppDefSchemaVersion :: int where
  "AppDefSchemaVersion = 1"

record HealthCheck =
  hcURL :: string
  hcTimeoutS :: int

record StopSpec =
  ssCommand :: string
  ssSignal :: string
  ssTimeoutS :: int

record RestartPolicy =
  rpMaxRestarts :: int
  rpMinUptimeS :: int
  rpBackoffMaxS :: int

record AppDefinition =
  defSchemaVersion :: int
  defName :: string
  defKind :: AppKind
  defCmd :: string
  defArgs :: "string list"
  defCwd :: string
  defEnv :: "(string \<times> string) list"
  defPorts :: "int list"
  defHealthCheck :: "HealthCheck option"
  defStop :: "StopSpec option"
  defRestartPolicy :: "RestartPolicy option"
  defContainerID :: string
  defComposeProject :: string
  defComposeFile :: string

text \<open>
  \<^verbatim>\<open>Validate\<close> collects every problem before it reports; the problems are values here and
  \<^verbatim>\<open>nil\<close> is the empty list.
\<close>

datatype defProblem =
  BadSchemaVersion int | NameRequired | CmdRequired | ContainerIDRequired
  | ComposeProjectRequired | UnknownKind string | PortOutOfRange int | HealthURLNotHTTP

definition effectiveKind :: "AppDefinition \<Rightarrow> AppKind" where
  "effectiveKind d = (if defKind d = OtherKind '''' then KindProcess else defKind d)"

fun kindProblems :: "AppKind \<Rightarrow> AppDefinition \<Rightarrow> defProblem list" where
  "kindProblems KindProcess d = (if trimSpace (defCmd d) = [] then [CmdRequired] else [])"
| "kindProblems KindDocker d = (if defContainerID d = [] then [ContainerIDRequired] else [])"
| "kindProblems KindCompose d = (if defComposeProject d = [] then [ComposeProjectRequired] else [])"
| "kindProblems (OtherKind k) d = [UnknownKind k]"

definition Validate :: "AppDefinition \<Rightarrow> defProblem list" where
  "Validate d =
     (if defSchemaVersion d < 1 \<or> defSchemaVersion d > AppDefSchemaVersion
      then [BadSchemaVersion (defSchemaVersion d)] else [])
     @ (if trimSpace (defName d) = [] then [NameRequired] else [])
     @ kindProblems (effectiveKind d) d
     @ map PortOutOfRange (filter (\<lambda>p. p < 1 \<or> p > 65535) (defPorts d))
     @ (case defHealthCheck d of None \<Rightarrow> []
        | Some hc \<Rightarrow> if \<not> hasPrefix (hcURL hc) ''http'' then [HealthURLNotHTTP] else [])"

fun kindReady :: "AppKind \<Rightarrow> AppDefinition \<Rightarrow> bool" where
  "kindReady KindProcess d \<longleftrightarrow> trimSpace (defCmd d) \<noteq> []"
| "kindReady KindDocker d \<longleftrightarrow> defContainerID d \<noteq> []"
| "kindReady KindCompose d \<longleftrightarrow> defComposeProject d \<noteq> []"
| "kindReady (OtherKind k) d \<longleftrightarrow> k = '''' \<and> trimSpace (defCmd d) \<noteq> []"

lemma kindProblems_effective: "kindProblems (effectiveKind d) d = [] \<longleftrightarrow> kindReady (defKind d) d"
  by (cases "defKind d") (auto simp: effectiveKind_def)

text \<open>Validation accepts a definition exactly when its schema version is the current one, its
  name is not blank, the field its kind needs is there (a missing kind counts as process), every
  port is between 1 and 65535 and a health check has an http address.\<close>

theorem Validate_accepts:
  "Validate d = [] \<longleftrightarrow>
     defSchemaVersion d = 1 \<and> trimSpace (defName d) \<noteq> [] \<and> kindReady (defKind d) d
     \<and> list_all (\<lambda>p. 1 \<le> p \<and> p \<le> 65535) (defPorts d)
     \<and> pred_option (\<lambda>hc. hasPrefix (hcURL hc) ''http'') (defHealthCheck d)"
  unfolding Validate_def AppDefSchemaVersion_def
  by (auto simp: kindProblems_effective[symmetric] filter_empty_conv not_less list_all_iff
      split: option.splits)

subsection \<open>Payloads\<close>

record AppSpec =
  spID :: string
  spDefinition :: AppDefinition
  spDefinitionHash :: string
  spDesiredState :: DesiredState
  spTokenTracking :: string

record Cmd =
  cmdID :: string
  cmdAppID :: string
  cmdVerb :: Verb
  cmdDefinitionHash :: string

record CmdResult =
  crCmdID :: string
  crOK :: bool
  crError :: string

record Port =
  poProto :: string
  poPort :: int

record AppEvent =
  aeAppID :: string
  aeStatus :: AppStatus
  aePID :: int
  aeExitCode :: "int option"
  aeRestartCount :: int
  aePorts :: "Port list"

record ApprovalEvent =
  apAppID :: string
  apApproval :: Approval
  apDefinitionHash :: string

record AppDigest =
  adStatus :: AppStatus
  adDefinitionHash :: string
  adApproval :: Approval
  adPID :: int

record LogChunk =
  lcStreamID :: string
  lcLines :: "string list"
  lcEOF :: bool

record TokenUsageRow =
  turDedupKey :: string
  turAppID :: string
  turSource :: string
  turModel :: string
  turInputTokens :: int
  turOutputTokens :: int
  turCacheCreationTokens :: int
  turCacheReadTokens :: int
  turSessionID :: string
  turOccurredAtMS :: int

text \<open>The frames an agent hands to its connection, one constructor per message type.\<close>

datatype AgentFrame =
    FHello "(string \<times> AppDigest) list" "string list"
  | FAppEvent AppEvent
  | FCmdAck string
  | FCmdResult CmdResult
  | FLogChunk LogChunk
  | FTokenUsageBatch "TokenUsageRow list"
  | FApprovalEvent ApprovalEvent
  | FAppRegister AppDefinition

text \<open>The frames the hub sends. A payload that does not unmarshal is \<open>None\<close>.\<close>

datatype HubFrame =
    HHelloAck
  | HAppSync "AppSpec list option"
  | HCmd "Cmd option"
  | HLogFollow "(string \<times> string \<times> int) option"
  | HLogCancel "string option"
  | HPing
  | HUnknown string

text \<open>Metrics: floating point samples are values of a type \<open>'f\<close>.\<close>

record 'f HostSample =
  hsTS :: int
  hsCPUPct :: 'f
  hsMemPct :: 'f
  hsMemUsed :: int
  hsDiskPct :: 'f
  hsNetSent :: int
  hsNetRecv :: int

record 'f AppSample =
  smTS :: int
  smAppID :: string
  smCPUPct :: 'f
  smMemRSS :: int
  smPorts :: "Port list"

record 'f MetricsBatch =
  mbHost :: "'f HostSample list"
  mbApps :: "'f AppSample list"

end
