(* ===== verification/Notify.thy ===== *)
theory Notify
  imports Protocol
begin

text \<open>
  The hub's alerts (\<^verbatim>\<open>hub/internal/notify/notify.go\<close>): the debounced application alerts, the grace
  timer of the offline alert and the delivery to the configured ntfy endpoint. The answer of the
  HTTP request is a parameter; the body of a message, a formatted sentence, is not modelled.
\<close>

subsection \<open>Settings and delivery\<close>

record 'f Settings =
  seEndpoint :: string
  seAppErrors :: bool
  seSystemOffline :: bool
  seSpend :: bool
  seThreshold :: 'f

datatype alert = CrashLooping string | AppFailed string | BackOnline string | WentOffline string
  | SpendCrossed | TestAlert

fun alertTitle :: "alert \<Rightarrow> string" where
  "alertTitle (CrashLooping name) = name @ '' is crash-looping''"
| "alertTitle (AppFailed name) = name @ '' failed''"
| "alertTitle (BackOnline name) = name @ '' is back online''"
| "alertTitle (WentOffline name) = name @ '' went offline''"
| "alertTitle SpendCrossed = ''Token spend threshold crossed''"
| "alertTitle TestAlert = ''BreakerBox test''"

fun alertPriority :: "alert \<Rightarrow> string" where
  "alertPriority (BackOnline _) = ''default''"
| "alertPriority TestAlert = ''default''"
| "alertPriority _ = ''high''"

fun alertTags :: "alert \<Rightarrow> string" where
  "alertTags (CrashLooping _) = ''warning''"
| "alertTags (AppFailed _) = ''rotating_light''"
| "alertTags (BackOnline _) = ''green_circle''"
| "alertTags (WentOffline _) = ''red_circle''"
| "alertTags SpendCrossed = ''moneybag''"
| "alertTags TestAlert = ''white_check_mark''"

text \<open>
  The state of the notifier. A timer made by \<^verbatim>\<open>time.AfterFunc\<close> is a handle: \<open>noPending\<close> are the timers
  that have not expired, \<open>noDue\<close> those whose callback has been started but has not yet got the
  lock; \<^verbatim>\<open>Stop\<close> only affects the former. \<open>noSent\<close> are the requests made, with time and
  subject, \<open>noClock\<close> is the last time seen.
\<close>

record notifier =
  noLastSent :: "string \<rightharpoonup> int"
  noOfflineAt :: "string \<rightharpoonup> nat"
  noNotified :: "string list"
  noPending :: "(nat \<times> string \<times> string) list"
  noDue :: "(nat \<times> string \<times> string) list"
  noNext :: nat
  noSent :: "(int \<times> string \<times> alert) list"

definition emptyNotifier :: notifier where
  "emptyNotifier = \<lparr>noLastSent = Map.empty, noOfflineAt = Map.empty, noNotified = [], noPending = [],
     noDue = [], noNext = 0, noSent = []\<rparr>"

definition enabled :: "('f Settings \<Rightarrow> bool) \<Rightarrow> 'f Settings option \<Rightarrow> bool" where
  "enabled field s = (case s of None \<Rightarrow> False | Some s \<Rightarrow> seEndpoint s \<noteq> [] \<and> field s)"

text \<open>\<open>post\<close> is the outcome of the request: it could not be made, or the status code of the answer.\<close>

definition ntfySend :: "'f Settings option \<Rightarrow> (string + int) \<Rightarrow> int \<Rightarrow> string \<Rightarrow> alert \<Rightarrow> notifier
    \<Rightarrow> string option \<times> notifier" where
  "ntfySend s post now subject a n =
     (case s of
        None \<Rightarrow> (Some ''settings record missing'', n)
      | Some s \<Rightarrow>
          if trimSpace (seEndpoint s) = [] then (Some ''no ntfy endpoint configured'', n)
          else (case post of
              Inl e \<Rightarrow> (Some e, n)
            | Inr code \<Rightarrow>
                ((if code \<ge> 300 then Some ''ntfy returned '' else None),
                 n\<lparr>noSent := noSent n @ [(now, subject, a)]\<rparr>)))"

subsection \<open>Application alerts\<close>

definition appAlertDebounce :: int where
  "appAlertDebounce = 5 * 60 * second"

definition offlineGrace :: int where
  "offlineGrace = 2 * 60 * second"

definition onAppUpdate :: "'f Settings option \<Rightarrow> (string + int) \<Rightarrow> int \<Rightarrow> string \<Rightarrow> string \<Rightarrow> AppStatus
    \<Rightarrow> notifier \<Rightarrow> notifier" where
  "onAppUpdate s post now appID name status n =
     (if status \<noteq> StatusErrored \<and> status \<noteq> StatusBackoff then
        (if status = StatusRunning then n\<lparr>noLastSent := (noLastSent n)(appID := None)\<rparr> else n)
      else if \<not> enabled seAppErrors s then n
      else if (case noLastSent n appID of Some prev \<Rightarrow> now - prev < appAlertDebounce | None \<Rightarrow> False) then n
      else snd (ntfySend s post now appID
             (if status = StatusBackoff then CrashLooping name else AppFailed name)
             (n\<lparr>noLastSent := (noLastSent n)(appID \<mapsto> now)\<rparr>)))"

subsection \<open>System alerts\<close>

definition stopTimer :: "nat \<Rightarrow> notifier \<Rightarrow> notifier" where
  "stopTimer h n = n\<lparr>noPending := filter (\<lambda>(k, _). k \<noteq> h) (noPending n)\<rparr>"

definition onSystemUpdate :: "'f Settings option \<Rightarrow> (string + int) \<Rightarrow> int \<Rightarrow> string \<Rightarrow> string \<Rightarrow> string
    \<Rightarrow> notifier \<Rightarrow> notifier" where
  "onSystemUpdate s post now sysID name status n =
     (if status = ''online'' then
        (let n1 = (case noOfflineAt n sysID of
                     Some h \<Rightarrow> (stopTimer h n)\<lparr>noOfflineAt := (noOfflineAt n)(sysID := None)\<rparr>
                   | None \<Rightarrow> n)
         in if sysID \<in> set (noNotified n1)
            then snd (ntfySend s post now sysID (BackOnline name)
                   (n1\<lparr>noNotified := removeAll sysID (noNotified n1)\<rparr>))
            else n1)
      else if status = ''offline'' then
        (if noOfflineAt n sysID \<noteq> None \<or> \<not> enabled seSystemOffline s then n
         else n\<lparr>noOfflineAt := (noOfflineAt n)(sysID \<mapsto> noNext n), noNext := Suc (noNext n),
                noPending := (noNext n, sysID, name) # noPending n\<rparr>)
      else n)"

text \<open>A timer expires after the grace period: its callback is started.\<close>

definition timerExpires :: "nat \<Rightarrow> notifier \<Rightarrow> notifier" where
  "timerExpires h n =
     (case map_of (noPending n) h of
        None \<Rightarrow> n
      | Some x \<Rightarrow> (stopTimer h n)\<lparr>noDue := (h, x) # noDue n\<rparr>)"

text \<open>The callback; \<open>cur\<close> is the status of the record it finds, if any.\<close>

definition graceCallback :: "'f Settings option \<Rightarrow> (string + int) \<Rightarrow> int \<Rightarrow> nat \<Rightarrow> string option
    \<Rightarrow> notifier \<Rightarrow> notifier" where
  "graceCallback s post now h cur n =
     (case map_of (noDue n) h of
        None \<Rightarrow> n
      | Some (sysID, name) \<Rightarrow>
          (let n1 = n\<lparr>noDue := filter (\<lambda>(k, _). k \<noteq> h) (noDue n),
                     noOfflineAt := (noOfflineAt n)(sysID := None)\<rparr>
           in if cur \<noteq> Some ''offline'' then n1
              else snd (ntfySend s post now sysID (WentOffline name)
                     (n1\<lparr>noNotified := List.insert sysID (noNotified n1)\<rparr>))))"

subsection \<open>Debouncing\<close>

lemma ntfySend_frame [simp]:
  "noLastSent (snd (ntfySend s post now subject a n)) = noLastSent n"
  "noOfflineAt (snd (ntfySend s post now subject a n)) = noOfflineAt n"
  "noPending (snd (ntfySend s post now subject a n)) = noPending n"
  "noDue (snd (ntfySend s post now subject a n)) = noDue n"
  "noNext (snd (ntfySend s post now subject a n)) = noNext n"
  "noNotified (snd (ntfySend s post now subject a n)) = noNotified n"
  by (simp_all add: ntfySend_def split: option.split sum.split)

lemma ntfySend_sent:
  "noSent (snd (ntfySend s post now subject a n)) = noSent n
   \<or> noSent (snd (ntfySend s post now subject a n)) = noSent n @ [(now, subject, a)]"
  by (simp add: ntfySend_def split: option.split sum.split)

definition appUpdates :: "'f Settings option \<Rightarrow> (string + int) \<Rightarrow> string \<Rightarrow> string
    \<Rightarrow> (int \<times> AppStatus) list \<Rightarrow> notifier \<Rightarrow> notifier" where
  "appUpdates s post appID name ups n =
     fold (\<lambda>(now, status) n. onAppUpdate s post now appID name status n) ups n"

definition spaced :: "(int \<times> string \<times> alert) list \<Rightarrow> bool" where
  "spaced xs \<longleftrightarrow> sorted_wrt (\<lambda>a b. fst a + appAlertDebounce \<le> fst b) xs"

text \<open>The alerts so far are spaced and none is younger than the debounce entry.\<close>

definition debounced :: "string \<Rightarrow> notifier \<Rightarrow> bool" where
  "debounced appID n \<longleftrightarrow> spaced (noSent n) \<and>
     (case noLastSent n appID of None \<Rightarrow> noSent n = [] | Some t \<Rightarrow> \<forall>x \<in> set (noSent n). fst x \<le> t)"

lemma onAppUpdate_debounced:
  assumes "debounced appID n" "status \<noteq> StatusRunning"
  shows "debounced appID (onAppUpdate s post now appID name status n)"
proof -
  let ?n = "n\<lparr>noLastSent := (noLastSent n)(appID \<mapsto> now)\<rparr>"
  have sent: "debounced appID (snd (ntfySend s post now appID a ?n))"
    if "\<not> (case noLastSent n appID of Some prev \<Rightarrow> now - prev < appAlertDebounce | None \<Rightarrow> False)"
    for a
  proof -
    have old: "\<forall>x \<in> set (noSent n). fst x + appAlertDebounce \<le> now"
      using assms(1) that by (fastforce simp: debounced_def split: option.splits)
    moreover have "0 \<le> appAlertDebounce" by (simp add: appAlertDebounce_def second_def)
    ultimately have "\<forall>x \<in> set (noSent n). fst x \<le> now" by fastforce
    with old assms(1) show ?thesis
      using ntfySend_sent [of s post now appID a ?n]
      by (auto simp: debounced_def spaced_def sorted_wrt_append)
  qed
  with assms show ?thesis by (simp add: onAppUpdate_def)
qed

lemma appUpdates_debounced:
  "debounced appID n \<Longrightarrow> StatusRunning \<notin> snd ` set ups \<Longrightarrow>
     debounced appID (appUpdates s post appID name ups n)"
proof (induction ups arbitrary: n)
  case Nil
  then show ?case by (simp add: appUpdates_def)
next
  case (Cons u ups)
  obtain t st where u: "u = (t, st)" by force
  with Cons.prems have "debounced appID (onAppUpdate s post t appID name st n)"
    by (intro onAppUpdate_debounced) auto
  with Cons u show ?case by (simp add: appUpdates_def)
qed

text \<open>Alerts for an application are debounced: as long as it does not report running in
  between, any two alerts about it are at least five minutes apart, however often its status
  flips between backoff, errored and the rest.\<close>

theorem app_alerts_debounced:
  assumes "StatusRunning \<notin> snd ` set ups"
  shows "sorted_wrt (\<lambda>a b. fst a + appAlertDebounce \<le> fst b)
           (noSent (appUpdates s post appID name ups emptyNotifier))"
proof -
  have "debounced appID emptyNotifier"
    by (simp add: debounced_def spaced_def emptyNotifier_def)
  from appUpdates_debounced [OF this assms, of s post name] show ?thesis
    unfolding debounced_def spaced_def by (rule conjunct1)
qed

definition sampleSettings :: "int Settings" where
  "sampleSettings = \<lparr>seEndpoint = ''https://ntfy.sh/x'', seAppErrors = True, seSystemOffline = True,
     seSpend = True, seThreshold = 10\<rparr>"

theorem app_alerts_debounced_witness:
  "let ups = [(0, StatusBackoff), (100 * second, StatusErrored), (301 * second, StatusBackoff)];
       n = appUpdates (Some sampleSettings) (Inr 200) ''a1'' ''web'' ups emptyNotifier
   in noSent n = [(0, ''a1'', CrashLooping ''web''), (301 * second, ''a1'', CrashLooping ''web'')]
      \<and> sorted_wrt (\<lambda>a b. fst a + appAlertDebounce \<le> fst b) (noSent n)"
proof -
  let ?ups = "[(0, StatusBackoff), (100 * second, StatusErrored), (301 * second, StatusBackoff)]"
  have "noSent (appUpdates (Some sampleSettings) (Inr 200) ''a1'' ''web'' ?ups emptyNotifier)
      = [(0, ''a1'', CrashLooping ''web''), (301 * second, ''a1'', CrashLooping ''web'')]"
    by code_simp
  moreover have "StatusRunning \<notin> snd ` set ?ups" by simp
  ultimately show ?thesis
    using app_alerts_debounced [of ?ups "Some sampleSettings" "Inr 200" "''a1''" "''web''"]
    by (simp only: Let_def simp_thms)
qed

subsection \<open>The offline grace period\<close>

datatype notifyEvent =
    NApp int string string AppStatus
  | NSystem int string string string
  | NExpire nat
  | NCallback int nat "string option"

fun notifyStep :: "'f Settings option \<Rightarrow> (string + int) \<Rightarrow> notifyEvent \<Rightarrow> notifier \<Rightarrow> notifier" where
  "notifyStep s post (NApp now appID name status) n = onAppUpdate s post now appID name status n"
| "notifyStep s post (NSystem now sysID name status) n = onSystemUpdate s post now sysID name status n"
| "notifyStep s post (NExpire h) n = timerExpires h n"
| "notifyStep s post (NCallback now h cur) n = graceCallback s post now h cur n"

definition timersFor :: "string \<Rightarrow> notifier \<Rightarrow> (nat \<times> string \<times> string) list" where
  "timersFor sysID n = filter (\<lambda>(_, i, _). i = sysID) (noPending n)"

definition dueFor :: "string \<Rightarrow> notifier \<Rightarrow> (nat \<times> string \<times> string) list" where
  "dueFor sysID n = filter (\<lambda>(_, i, _). i = sysID) (noDue n)"

fun isWentOffline :: "alert \<Rightarrow> bool" where
  "isWentOffline (WentOffline _) = True"
| "isWentOffline _ = False"

definition offlineAlerts :: "string \<Rightarrow> notifier \<Rightarrow> (int \<times> string \<times> alert) list" where
  "offlineAlerts sysID n = filter (\<lambda>(_, i, a). i = sysID \<and> isWentOffline a) (noSent n)"

text \<open>
  The callbacks of expired timers get the lock before the next change of a system: a history in
  which no system changes its state while a callback waits.
\<close>

fun prompt :: "'f Settings option \<Rightarrow> (string + int) \<Rightarrow> notifyEvent list \<Rightarrow> notifier \<Rightarrow> bool" where
  "prompt s post [] n \<longleftrightarrow> noDue n = []"
| "prompt s post (e # es) n \<longleftrightarrow>
     (case e of NSystem _ _ _ _ \<Rightarrow> noDue n = [] | _ \<Rightarrow> True) \<and> prompt s post es (notifyStep s post e n)"

lemma onAppUpdate_frame [simp]:
  "noPending (onAppUpdate s post now i name st n) = noPending n"
  "noDue (onAppUpdate s post now i name st n) = noDue n"
  "noOfflineAt (onAppUpdate s post now i name st n) = noOfflineAt n"
  "noNext (onAppUpdate s post now i name st n) = noNext n"
  by (simp_all add: onAppUpdate_def)

text \<open>
  The invariant of prompt histories: a timer, pending or due, is the one the table names, so
  stopping it by the table stops it.
\<close>

definition timersOK :: "notifier \<Rightarrow> bool" where
  "timersOK n \<longleftrightarrow>
     (\<forall>h i a. (h, i, a) \<in> set (noPending n) \<longrightarrow> noOfflineAt n i = Some h \<and> h < noNext n)
     \<and> (\<forall>h i a. (h, i, a) \<in> set (noDue n) \<longrightarrow> noOfflineAt n i = Some h \<and> h < noNext n)
     \<and> (\<forall>h x y. (h, x) \<in> set (noPending n) \<longrightarrow> (h, y) \<notin> set (noDue n))"

lemma timersOK_named:
  "timersOK n \<Longrightarrow> (h, i, a) \<in> set (noPending n) \<Longrightarrow> noOfflineAt n i = Some h \<and> h < noNext n"
  "timersOK n \<Longrightarrow> (h, i, a) \<in> set (noDue n) \<Longrightarrow> noOfflineAt n i = Some h \<and> h < noNext n"
  unfolding timersOK_def by blast+

lemma timersOK_disjoint:
  "timersOK n \<Longrightarrow> (h, x) \<in> set (noPending n) \<Longrightarrow> (h, y) \<in> set (noDue n) \<Longrightarrow> False"
  unfolding timersOK_def by blast

lemma timersOK_I:
  assumes "\<And>h i a. (h, i, a) \<in> set (noPending n) \<Longrightarrow> noOfflineAt n i = Some h \<and> h < noNext n"
    and "\<And>h i a. (h, i, a) \<in> set (noDue n) \<Longrightarrow> noOfflineAt n i = Some h \<and> h < noNext n"
    and "\<And>h x y. (h, x) \<in> set (noPending n) \<Longrightarrow> (h, y) \<in> set (noDue n) \<Longrightarrow> False"
  shows "timersOK n"
  using assms unfolding timersOK_def by blast

lemma timersOK_online:
  assumes "timersOK n" "noDue n = []"
  shows "timersOK (onSystemUpdate s post now i name ''online'' n)"
    and "timersFor i (onSystemUpdate s post now i name ''online'' n) = []"
proof -
  let ?n = "onSystemUpdate s post now i name ''online'' n"
  have d: "noDue ?n = []" and nx: "noNext ?n = noNext n"
    using assms(2) by (simp_all add: onSystemUpdate_def stopTimer_def Let_def split: option.split)
  have off: "noOfflineAt ?n = (noOfflineAt n)(i := None)"
    by (auto simp: onSystemUpdate_def stopTimer_def Let_def split: option.split)
  have p: "set (noPending ?n) = {(h, j, a). (h, j, a) \<in> set (noPending n) \<and> noOfflineAt n i \<noteq> Some h}"
    by (auto simp: onSystemUpdate_def stopTimer_def Let_def split: option.split)
  have no_i: "j \<noteq> i" if "(h, j, a) \<in> set (noPending ?n)" for h j a
    using that timersOK_named(1) [OF assms(1), of h j a] by (auto simp: p)
  then show "timersFor i ?n = []" by (fastforce simp: timersFor_def filter_empty_conv)
  show "timersOK ?n"
  proof (rule timersOK_I)
    fix h j a assume m: "(h, j, a) \<in> set (noPending ?n)"
    with no_i timersOK_named(1) [OF assms(1), of h j a]
    show "noOfflineAt ?n j = Some h \<and> h < noNext ?n" by (auto simp: p off nx)
  qed (simp_all add: d)
qed

lemma timersOK_offline:
  assumes "timersOK n" "status \<noteq> ''online''"
  shows "timersOK (onSystemUpdate s post now i name status n)"
proof (cases "status = ''offline'' \<and> noOfflineAt n i = None \<and> enabled seSystemOffline s")
  case False
  with assms show ?thesis by (auto simp: onSystemUpdate_def)
next
  case True
  let ?n = "n\<lparr>noOfflineAt := (noOfflineAt n)(i \<mapsto> noNext n), noNext := Suc (noNext n),
              noPending := (noNext n, i, name) # noPending n\<rparr>"
  have "timersOK ?n"
  proof (rule timersOK_I)
    fix h j a assume "(h, j, a) \<in> set (noPending ?n)"
    with timersOK_named(1) [OF assms(1), of h j a] True
    show "noOfflineAt ?n j = Some h \<and> h < noNext ?n" by auto
  next
    fix h j a assume "(h, j, a) \<in> set (noDue ?n)"
    with timersOK_named(2) [OF assms(1), of h j a] True
    show "noOfflineAt ?n j = Some h \<and> h < noNext ?n" by auto
  next
    fix h x y assume "(h, x) \<in> set (noPending ?n)" "(h, y) \<in> set (noDue ?n)"
    then show False
      using timersOK_disjoint [OF assms(1), of h x y] timersOK_named(2) [OF assms(1), of h "fst y" "snd y"]
      by auto
  qed
  with True show ?thesis by (simp add: onSystemUpdate_def)
qed

lemma timersOK_expires:
  assumes "timersOK n"
  shows "timersOK (timerExpires h n)"
proof (cases "map_of (noPending n) h")
  case None
  with assms show ?thesis by (simp add: timerExpires_def)
next
  case (Some x)
  obtain i a where x: "x = (i, a)" by force
  with Some have m: "(h, i, a) \<in> set (noPending n)" by (simp add: map_of_SomeD)
  show ?thesis
  proof (rule timersOK_I)
    fix k j b assume "(k, j, b) \<in> set (noPending (timerExpires h n))"
    with timersOK_named(1) [OF assms, of k j b] Some
    show "noOfflineAt (timerExpires h n) j = Some k \<and> k < noNext (timerExpires h n)"
      by (simp add: timerExpires_def stopTimer_def)
  next
    fix k j b assume "(k, j, b) \<in> set (noDue (timerExpires h n))"
    with timersOK_named(2) [OF assms, of k j b] timersOK_named(1) [OF assms m] Some x
    show "noOfflineAt (timerExpires h n) j = Some k \<and> k < noNext (timerExpires h n)"
      by (auto simp: timerExpires_def stopTimer_def)
  next
    fix k y z assume "(k, y) \<in> set (noPending (timerExpires h n))" "(k, z) \<in> set (noDue (timerExpires h n))"
    with timersOK_disjoint [OF assms, of k y z] Some x show False
      by (auto simp: timerExpires_def stopTimer_def)
  qed
qed

lemma timersOK_callback:
  assumes "timersOK n"
  shows "timersOK (graceCallback s post now h cur n)"
proof (cases "map_of (noDue n) h")
  case None
  with assms show ?thesis by (simp add: graceCallback_def)
next
  case (Some x)
  obtain i a where x: "x = (i, a)" by force
  with Some have m: "(h, i, a) \<in> set (noDue n)" by (simp add: map_of_SomeD)
  let ?n = "graceCallback s post now h cur n"
  have st: "noPending ?n = noPending n" "noDue ?n = filter (\<lambda>(k, _). k \<noteq> h) (noDue n)"
    "noOfflineAt ?n = (noOfflineAt n)(i := None)" "noNext ?n = noNext n"
    using Some x by (simp_all add: graceCallback_def Let_def)
  have other: "j \<noteq> i" if "(k, j, b) \<in> set (noPending n) \<union> set (noDue n)" "k \<noteq> h" for k j b
    using that timersOK_named [OF assms, of k j b] timersOK_named(2) [OF assms m] by auto
  show ?thesis
  proof (rule timersOK_I)
    fix k j b assume p: "(k, j, b) \<in> set (noPending ?n)"
    then have "k \<noteq> h" using timersOK_disjoint [OF assms, of k "(j, b)" "(i, a)"] m st by auto
    with p other [of k j b] timersOK_named(1) [OF assms, of k j b]
    show "noOfflineAt ?n j = Some k \<and> k < noNext ?n" by (simp add: st)
  next
    fix k j b assume "(k, j, b) \<in> set (noDue ?n)"
    with other [of k j b] timersOK_named(2) [OF assms, of k j b]
    show "noOfflineAt ?n j = Some k \<and> k < noNext ?n" by (simp add: st)
  next
    fix k y z assume "(k, y) \<in> set (noPending ?n)" "(k, z) \<in> set (noDue ?n)"
    with timersOK_disjoint [OF assms, of k y z] show False by (simp add: st)
  qed
qed

lemma timersOK_steps:
  "timersOK n \<Longrightarrow> prompt s post es n \<Longrightarrow> timersOK (fold (notifyStep s post) es n) \<and> noDue (fold (notifyStep s post) es n) = []"
proof (induction es arbitrary: n)
  case (Cons e es)
  have "timersOK (notifyStep s post e n)"
  proof (cases e)
    case (NApp now i name st)
    with Cons.prems(1) show ?thesis by (simp add: timersOK_def)
  next
    case (NSystem now i name st)
    with Cons.prems show ?thesis
      by (cases "st = ''online''") (auto intro: timersOK_online timersOK_offline)
  qed (use Cons.prems(1) in \<open>auto intro: timersOK_expires timersOK_callback\<close>)
  with Cons show ?case by simp
qed simp

text \<open>Once no timer of a system is left, only a new offline report can arm one.\<close>

definition silentFor :: "string \<Rightarrow> notifyEvent \<Rightarrow> bool" where
  "silentFor i e = (case e of NSystem _ j _ st \<Rightarrow> j \<noteq> i \<or> st \<noteq> ''offline'' | _ \<Rightarrow> True)"

lemma offlineAlerts_other:
  "\<not> isWentOffline a \<or> j \<noteq> i \<Longrightarrow>
     offlineAlerts i (snd (ntfySend s post now j a n)) = offlineAlerts i n"
  using ntfySend_sent [of s post now j a n] by (auto simp: offlineAlerts_def)

lemma offlineAlerts_frame [simp]:
  "offlineAlerts i (n\<lparr>noLastSent := a\<rparr>) = offlineAlerts i n"
  "offlineAlerts i (n\<lparr>noOfflineAt := b\<rparr>) = offlineAlerts i n"
  "offlineAlerts i (n\<lparr>noNotified := c\<rparr>) = offlineAlerts i n"
  "offlineAlerts i (n\<lparr>noPending := p\<rparr>) = offlineAlerts i n"
  "offlineAlerts i (n\<lparr>noDue := p\<rparr>) = offlineAlerts i n"
  by (simp_all add: offlineAlerts_def)

lemma onSystemUpdate_no_offline_alert:
  "offlineAlerts i (onSystemUpdate s post now j name st n) = offlineAlerts i n"
proof -
  let ?n1 = "case noOfflineAt n j of
      Some h \<Rightarrow> (stopTimer h n)\<lparr>noOfflineAt := (noOfflineAt n)(j := None)\<rparr> | None \<Rightarrow> n"
  have n1: "noSent ?n1 = noSent n" by (simp add: stopTimer_def split: option.split)
  have "offlineAlerts i (snd (ntfySend s post now j (BackOnline name) m)) = offlineAlerts i m" for m
    by (rule offlineAlerts_other) simp
  then show ?thesis
    using n1 by (simp add: onSystemUpdate_def Let_def offlineAlerts_def)
qed

lemma notifyStep_silent:
  assumes "timersFor i n = []" "dueFor i n = []" "silentFor i e"
  shows "timersFor i (notifyStep s post e n) = [] \<and> dueFor i (notifyStep s post e n) = []
    \<and> offlineAlerts i (notifyStep s post e n) = offlineAlerts i n"
proof (cases e)
  case (NApp now j name st)
  with assms show ?thesis
    by (auto simp: timersFor_def dueFor_def onAppUpdate_def offlineAlerts_other)
next
  case (NSystem now j name st)
  have "timersFor i (notifyStep s post e n) = []"
  proof (cases "st = ''online''")
    case True
    have "set (noPending (notifyStep s post e n)) \<subseteq> set (noPending n)"
      unfolding NSystem True
      by (auto simp: onSystemUpdate_def Let_def stopTimer_def split: option.split)
    with assms(1) show ?thesis by (auto simp: timersFor_def filter_empty_conv)
  next
    case False
    with NSystem assms show ?thesis by (auto simp: timersFor_def onSystemUpdate_def silentFor_def)
  qed
  moreover have "noDue (notifyStep s post e n) = noDue n"
    unfolding NSystem by (simp add: onSystemUpdate_def Let_def stopTimer_def split: option.split)
  moreover have "offlineAlerts i (notifyStep s post e n) = offlineAlerts i n"
    unfolding NSystem notifyStep.simps by (rule onSystemUpdate_no_offline_alert)
  ultimately show ?thesis using assms(2) by (simp add: dueFor_def)
next
  case (NExpire h)
  show ?thesis
  proof (cases "map_of (noPending n) h")
    case None
    with assms NExpire show ?thesis by (simp add: timerExpires_def)
  next
    case (Some x)
    then have "(h, x) \<in> set (noPending n)" by (rule map_of_SomeD)
    with assms(1) have "fst x \<noteq> i" by (auto simp: timersFor_def filter_empty_conv)
    with assms NExpire Some show ?thesis
      by (cases x) (auto simp: timersFor_def dueFor_def timerExpires_def stopTimer_def filter_empty_conv)
  qed
next
  case (NCallback now h cur)
  show ?thesis
  proof (cases "map_of (noDue n) h")
    case None
    with assms NCallback show ?thesis by (simp add: graceCallback_def)
  next
    case (Some x)
    then have "(h, x) \<in> set (noDue n)" by (rule map_of_SomeD)
    with assms(2) have "fst x \<noteq> i" by (auto simp: dueFor_def filter_empty_conv)
    with assms NCallback Some show ?thesis
      by (cases x) (auto simp: timersFor_def dueFor_def graceCallback_def Let_def filter_empty_conv
          offlineAlerts_other)
  qed
qed

lemma notifySteps_silent:
  "timersFor i n = [] \<Longrightarrow> dueFor i n = [] \<Longrightarrow> list_all (silentFor i) es \<Longrightarrow>
     offlineAlerts i (fold (notifyStep s post) es n) = offlineAlerts i n"
proof (induction es arbitrary: n)
  case (Cons e es)
  then have "silentFor i e" "list_all (silentFor i) es" by simp_all
  with notifyStep_silent [OF Cons.prems(1,2), of e s post] Cons.IH [of "notifyStep s post e n"]
  show ?case by simp
qed simp

text \<open>C30: A blip does not page. In a history in which the callbacks of expired grace timers run
  before the next change of a system, once a system reports online no offline alert is sent for
  it, whatever timers expire and callbacks run, until it goes offline again.\<close>

theorem blip_is_silent:
  assumes "prompt s post es emptyNotifier" "n = fold (notifyStep s post) es emptyNotifier"
    and "list_all (silentFor i) fs"
  shows "offlineAlerts i (fold (notifyStep s post) fs (onSystemUpdate s post now i name ''online'' n))
    = offlineAlerts i n"
proof -
  have "timersOK emptyNotifier" by (simp add: timersOK_def emptyNotifier_def)
  from timersOK_steps [OF this assms(1)] assms(2) have n: "timersOK n" "noDue n = []" by simp_all
  let ?n = "onSystemUpdate s post now i name ''online'' n"
  have "noDue ?n = []"
    using n(2) by (simp add: onSystemUpdate_def stopTimer_def Let_def split: option.split)
  then have "dueFor i ?n = []" by (simp add: dueFor_def)
  moreover have "offlineAlerts i ?n = offlineAlerts i n"
    by (rule onSystemUpdate_no_offline_alert)
  ultimately show ?thesis
    using notifySteps_silent [OF timersOK_online(2) [OF n] _ assms(3), of s post now name s post] by simp
qed

theorem blip_is_silent_witness:
  "let s = Some sampleSettings; post = Inr 200;
       es = [NSystem 0 ''s1'' ''mac'' ''offline'', NSystem 5 ''s2'' ''pi'' ''offline'', NExpire 1,
             NCallback 6 1 (Some ''offline'')];
       n = fold (notifyStep s post) es emptyNotifier;
       fs = [NExpire 0, NCallback 9 0 (Some ''offline''), NSystem 9 ''s2'' ''pi'' ''offline'']
   in noPending n = [(0, ''s1'', ''mac'')] \<and> offlineAlerts ''s2'' n = [(6, ''s2'', WentOffline ''pi'')]
      \<and> offlineAlerts ''s1'' (fold (notifyStep s post) fs (onSystemUpdate s post 7 ''s1'' ''mac'' ''online'' n))
          = offlineAlerts ''s1'' n"
proof -
  let ?es = "[NSystem 0 ''s1'' ''mac'' ''offline'', NSystem 5 ''s2'' ''pi'' ''offline'', NExpire 1,
             NCallback 6 1 (Some ''offline'')]"
  let ?fs = "[NExpire 0, NCallback 9 0 (Some ''offline''), NSystem 9 ''s2'' ''pi'' ''offline'']"
  let ?n = "fold (notifyStep (Some sampleSettings) (Inr 200)) ?es emptyNotifier"
  have "prompt (Some sampleSettings) (Inr 200) ?es emptyNotifier" by code_simp
  moreover have "list_all (silentFor ''s1'') ?fs" by code_simp
  moreover have "noPending ?n = [(0, ''s1'', ''mac'')]" by code_simp
  moreover have "offlineAlerts ''s2'' ?n = [(6, ''s2'', WentOffline ''pi'')]" by code_simp
  ultimately show ?thesis
    using blip_is_silent [of "Some sampleSettings" "Inr 200" ?es ?n "''s1''" ?fs 7 "''mac''"]
    by (simp only: Let_def simp_thms)
qed

text \<open>
  Promptness is needed: a callback that waits for the lock while the system comes back and goes
  away again removes the new timer's table entry and alerts at once, without any grace.
\<close>

lemma late_callback_pages_at_once:
  "let n = fold (notifyStep (Some sampleSettings) (Inr 200))
       [NSystem 0 ''s1'' ''mac'' ''offline'', NExpire 0, NSystem 120 ''s1'' ''mac'' ''online'',
        NSystem 121 ''s1'' ''mac'' ''offline'', NCallback 122 0 (Some ''offline'')] emptyNotifier
   in noSent n = [(122, ''s1'', WentOffline ''mac'')] \<and> noPending n = [(1, ''s1'', ''mac'')]
      \<and> noOfflineAt n ''s1'' = None"
  by code_simp

end
