(* ===== verification/RecordStore.thy ===== *)
theory RecordStore
  imports BB_Prelude
begin

text \<open>
  The record store of the hub. The store itself is PocketBase; what the hub relies on is the
  contract \<open>record_store\<close>, and the collections are tables that meet it. Whether the store accepts
  a record (validation, disk) is a parameter of each handler call.
\<close>

subsection \<open>Tables\<close>

text \<open>
  A collection. A record that is looked up has been saved, saving one record leaves the others
  alone, and the ids are those of the records.
\<close>

locale record_store =
  fixes find_rec :: "string \<Rightarrow> 't \<Rightarrow> 'r option"
    and save_rec :: "string \<Rightarrow> 'r \<Rightarrow> 't \<Rightarrow> 't"
    and ids :: "'t \<Rightarrow> string list"
  assumes find_save: "find_rec k (save_rec i r t) = (if k = i then Some r else find_rec k t)"
    and ids_find: "k \<in> set (ids t) \<longleftrightarrow> find_rec k t \<noteq> None"
    and ids_distinct: "distinct (ids t) \<Longrightarrow> distinct (ids (save_rec i r t))"
begin

lemma find_saved: "find_rec i (save_rec i r t) = Some r"
  by (simp add: find_save)

lemma find_other: "k \<noteq> i \<Longrightarrow> find_rec k (save_rec i r t) = find_rec k t"
  by (simp add: find_save)

lemma ids_save: "set (ids (save_rec i r t)) = insert i (set (ids t))"
proof -
  have "k \<in> set (ids (save_rec i r t)) \<longleftrightarrow> k = i \<or> k \<in> set (ids t)" for k
    by (simp add: ids_find find_save)
  then show ?thesis by blast
qed

lemma ids_save_old: "find_rec i t \<noteq> None \<Longrightarrow> set (ids (save_rec i r t)) = set (ids t)"
  using ids_find by (auto simp: ids_save)

lemma find_saves:
  "find_rec k (fold (\<lambda>i t. save_rec i (f i) t) is t) = (if k \<in> set is then Some (f k) else find_rec k t)"
  by (induction "is" arbitrary: t) (auto simp: find_save)

end

type_synonym 'r table = "(string \<times> 'r) list"

definition findRecord :: "string \<Rightarrow> 'r table \<Rightarrow> 'r option" where
  "findRecord i t = map_of t i"

fun saveRecord :: "string \<Rightarrow> 'r \<Rightarrow> 'r table \<Rightarrow> 'r table" where
  "saveRecord i r [] = [(i, r)]"
| "saveRecord i r ((k, x) # t) = (if k = i then (k, r) # t else (k, x) # saveRecord i r t)"

lemma saveRecord_ids:
  "map fst (saveRecord i r t) = (if i \<in> set (map fst t) then map fst t else map fst t @ [i])"
proof (induction t)
  case (Cons a t)
  then show ?case by (cases a) simp
qed simp

lemma findRecord_save:
  "findRecord k (saveRecord i r t) = (if k = i then Some r else findRecord k t)"
proof (induction t)
  case (Cons a t)
  from Cons.IH show ?case unfolding findRecord_def by (cases a; cases "k = i") simp_all
qed (simp add: findRecord_def)

interpretation coll: record_store findRecord saveRecord "map fst"
proof
  fix k i :: string and r :: 'a and t :: "'a table"
  show "findRecord k (saveRecord i r t) = (if k = i then Some r else findRecord k t)"
    by (rule findRecord_save)
  show "(k \<in> set (map fst t)) = (findRecord k t \<noteq> None)"
    by (simp add: findRecord_def map_of_eq_None_iff)
  show "distinct (map fst (saveRecord i r t))" if "distinct (map fst t)"
    using that by (simp add: saveRecord_ids)
qed

lemma findRecord_in: "findRecord i t = Some r \<Longrightarrow> (i, r) \<in> set t"
  unfolding findRecord_def by (rule map_of_SomeD)

lemma findRecord_iff: "distinct (map fst t) \<Longrightarrow> findRecord i t = Some r \<longleftrightarrow> (i, r) \<in> set t"
  unfolding findRecord_def by (rule map_of_eq_Some_iff)

end
