(* ===== verification/HubTokens.thy ===== *)
theory HubTokens
  imports Notify RecordStore
begin

text \<open>
  Token usage on the hub (\<^verbatim>\<open>hub/internal/tokens\<close>): the pricing table and its lookup, the ingestion of
  usage rows with deduplication and the daily spend alert. Prices and costs are float64: the
  operations on them are a parameter, with the facts a theorem needs as its hypotheses.
\<close>

record 'f floatOps =
  fZero :: 'f
  fAdd :: "'f \<Rightarrow> 'f \<Rightarrow> 'f"
  fMul :: "'f \<Rightarrow> 'f \<Rightarrow> 'f"
  fLess :: "'f \<Rightarrow> 'f \<Rightarrow> bool"
  fOfInt :: "int \<Rightarrow> 'f"
  fToInt :: "'f \<Rightarrow> int"
  fSum :: "'f list \<Rightarrow> 'f"

subsection \<open>Pricing\<close>

record 'f modelPrice =
  mpInput :: 'f
  mpOutput :: 'f
  mpCacheCreation :: 'f
  mpCacheRead :: 'f

type_synonym 'f pricing = "string \<rightharpoonup> 'f modelPrice"

text \<open>
  \<^verbatim>\<open>parse\<close>: \<open>raw\<close> is the decoded JSON object (\<open>None\<close> when it does not decode, the last of equal keys
  counts). Entries without a positive price are dropped; an empty table is refused and the
  old one kept.
\<close>

definition usablePrice :: "'f floatOps \<Rightarrow> 'f modelPrice \<Rightarrow> bool" where
  "usablePrice fo p \<longleftrightarrow> fLess fo (fZero fo) (mpInput p) \<or> fLess fo (fZero fo) (mpOutput p)"

definition parsePricing :: "'f floatOps \<Rightarrow> (string \<times> 'f modelPrice) list option \<Rightarrow> 'f pricing
    \<Rightarrow> string option \<times> 'f pricing" where
  "parsePricing fo raw t =
     (case raw of
        None \<Rightarrow> (Some ''invalid JSON'', t)
      | Some es \<Rightarrow>
          (let m = map_of (rev es);
               cleaned = (\<lambda>name. case m name of
                            Some p \<Rightarrow> if usablePrice fo p then Some p else None | None \<Rightarrow> None)
           in if list_all (\<lambda>(name, _). cleaned name = None) es then (Some ''pricing table empty'', t)
              else (None, cleaned)))"

definition loadPricing :: "'f floatOps \<Rightarrow> (string \<times> 'f modelPrice) list option option
    \<Rightarrow> (string \<times> 'f modelPrice) list option \<Rightarrow> 'f pricing" where
  "loadPricing fo override embedded =
     (case override of
        Some b \<Rightarrow> (case parsePricing fo b Map.empty of
            (None, t) \<Rightarrow> t
          | (Some _, t) \<Rightarrow> snd (parsePricing fo embedded t))
      | None \<Rightarrow> snd (parsePricing fo embedded Map.empty))"

text \<open>\<^verbatim>\<open>lookup\<close>: the exact name, then ever shorter prefixes of at least two dash-separated parts.\<close>

fun prefixLookup :: "'f pricing \<Rightarrow> string list \<Rightarrow> nat \<Rightarrow> 'f modelPrice option" where
  "prefixLookup m parts 0 = None"
| "prefixLookup m parts (Suc i) =
     (if Suc i < 2 then None
      else case m (joinWith ''-'' (take (Suc i) parts)) of
        Some p \<Rightarrow> Some p
      | None \<Rightarrow> prefixLookup m parts i)"

definition lookupPrice :: "'f pricing \<Rightarrow> string \<Rightarrow> 'f modelPrice option" where
  "lookupPrice m model =
     (case m model of
        Some p \<Rightarrow> Some p
      | None \<Rightarrow> (let parts = splitOn CHR ''-'' model in prefixLookup m parts (length parts - 1)))"

lemma joinWith_append:
  "xs \<noteq> [] \<Longrightarrow> ys \<noteq> [] \<Longrightarrow> joinWith sep (xs @ ys) = joinWith sep xs @ sep @ joinWith sep ys"
  by (induction sep xs rule: joinWith.induct) (auto simp: joinWith_Cons)

lemma splitOn_two: "c \<in> set s \<longleftrightarrow> 2 \<le> length (splitOn c s)"
proof
  assume "c \<in> set s"
  then obtain a b where "s = a @ c # b" by (meson split_list)
  moreover have "0 < length (splitOn c a)" "0 < length (splitOn c b)" by simp_all
  ultimately show "2 \<le> length (splitOn c s)" by (simp add: splitOn_sep del: length_greater_0_conv)
next
  assume "2 \<le> length (splitOn c s)"
  then show "c \<in> set s" using splitOn_free [of c s] by fastforce
qed

text \<open>The prefixes the lookup may try: whole dash-separated parts, at least two of them.\<close>

definition datedVariant :: "string \<Rightarrow> string \<Rightarrow> bool" where
  "datedVariant n model \<longleftrightarrow> prefix (n @ ''-'') model \<and> CHR ''-'' \<in> set n"

lemma take_parts_prefix:
  assumes "1 \<le> i" "i < length parts"
  shows "joinWith sep parts = joinWith sep (take i parts) @ sep @ joinWith sep (drop i parts)"
  using joinWith_append [of "take i parts" "drop i parts" sep] assms by (cases parts) auto

lemma datedVariant_parts:
  "datedVariant n model \<longleftrightarrow>
     (\<exists>i. 2 \<le> i \<and> i < length (splitOn CHR ''-'' model) \<and> n = joinWith ''-'' (take i (splitOn CHR ''-'' model)))"
  (is "?l \<longleftrightarrow> ?r")
proof
  assume l: ?l
  then obtain r where m: "model = n @ CHR ''-'' # r" by (auto simp: datedVariant_def prefix_def)
  have parts: "splitOn CHR ''-'' model = splitOn CHR ''-'' n @ splitOn CHR ''-'' r"
    unfolding m by (rule splitOn_sep)
  have "2 \<le> length (splitOn CHR ''-'' n)" using l splitOn_two by (auto simp: datedVariant_def)
  then show ?r
    by (intro exI [of _ "length (splitOn CHR ''-'' n)"]) (simp add: parts joinWith_splitOn)
next
  assume ?r
  then obtain i where i: "2 \<le> i" "i < length (splitOn CHR ''-'' model)"
    "n = joinWith ''-'' (take i (splitOn CHR ''-'' model))" by blast
  let ?p = "splitOn CHR ''-'' model"
  have "model = n @ ''-'' @ joinWith ''-'' (drop i ?p)"
    using take_parts_prefix [of i ?p "''-''"] i joinWith_splitOn [of "CHR ''-''" model] by simp
  then have "prefix (n @ ''-'') model" by (auto simp: prefix_def)
  moreover have "n = joinWith ''-'' (take 1 ?p) @ ''-'' @ joinWith ''-'' (drop 1 (take i ?p))"
    using take_parts_prefix [of 1 "take i ?p" "''-''"] i by (simp add: min_def)
  then have "CHR ''-'' \<in> set n" by simp
  ultimately show ?l by (simp add: datedVariant_def)
qed

lemma take_parts_mono:
  assumes "1 \<le> i" "i \<le> j"
  shows "length (joinWith sep (take i parts)) \<le> length (joinWith sep (take j parts))"
proof (cases "i < length (take j parts)")
  case True
  with take_parts_prefix [of i "take j parts" sep] assms show ?thesis by (simp add: min_def split: if_splits)
next
  case False
  with assms have "take i parts = take j parts" by (auto simp: not_less)
  then show ?thesis by simp
qed

lemma prefixLookup_Some:
  "prefixLookup m parts k = Some p \<Longrightarrow>
     \<exists>i. 2 \<le> i \<and> i \<le> k \<and> m (joinWith ''-'' (take i parts)) = Some p
       \<and> (\<forall>j. i < j \<and> j \<le> k \<longrightarrow> m (joinWith ''-'' (take j parts)) = None)"
proof (induction k)
  case (Suc k)
  show ?case
  proof (cases "m (joinWith ''-'' (take (Suc k) parts))")
    case None
    with Suc.prems have "prefixLookup m parts k = Some p" by (simp split: if_splits)
    with Suc.IH None show ?thesis by (metis le_Suc_eq)
  next
    case (Some q)
    with Suc.prems show ?thesis by (intro exI [of _ "Suc k"]) (auto split: if_splits)
  qed
qed simp

lemma prefixLookup_None:
  "prefixLookup m parts k = None \<Longrightarrow> 2 \<le> i \<Longrightarrow> i \<le> k \<Longrightarrow> m (joinWith ''-'' (take i parts)) = None"
proof (induction k)
  case (Suc k)
  then show ?case by (cases "i = Suc k") (auto split: option.splits if_splits)
qed simp

text \<open>The price lookup finds the most specific entry. A model is priced by its exact name; else by the
  longest name in the table that is the model up to a dash and has at least two
  dash-separated parts itself; and it is unpriced exactly when there is no such name.\<close>

theorem price_lookup_longest:
  "case lookupPrice m model of
     None \<Rightarrow> m model = None \<and> (\<forall>n. datedVariant n model \<longrightarrow> m n = None)
   | Some p \<Rightarrow> m model = Some p \<or>
       (m model = None \<and> (\<exists>n. m n = Some p \<and> datedVariant n model
          \<and> (\<forall>n'. m n' \<noteq> None \<and> datedVariant n' model \<longrightarrow> length n' \<le> length n)))"
proof (cases "m model")
  case (Some p)
  then show ?thesis by (simp add: lookupPrice_def)
next
  case None
  let ?p = "splitOn CHR ''-'' model"
  let ?k = "length ?p - 1"
  have l: "lookupPrice m model = prefixLookup m ?p ?k" by (simp add: lookupPrice_def None Let_def)
  show ?thesis
  proof (cases "prefixLookup m ?p ?k")
    case None2: None
    have "m n = None" if "datedVariant n model" for n
      using that prefixLookup_None [OF None2] unfolding datedVariant_parts by fastforce
    with None None2 l show ?thesis by simp
  next
    case (Some p)
    then obtain i where i: "2 \<le> i" "i \<le> ?k" "m (joinWith ''-'' (take i ?p)) = Some p"
      and last: "\<And>j. i < j \<Longrightarrow> j \<le> ?k \<Longrightarrow> m (joinWith ''-'' (take j ?p)) = None"
      using prefixLookup_Some by blast
    let ?n = "joinWith ''-'' (take i ?p)"
    have "datedVariant ?n model" using i unfolding datedVariant_parts by fastforce
    moreover have "length n' \<le> length ?n" if n': "m n' \<noteq> None" "datedVariant n' model" for n'
    proof -
      obtain j where j: "2 \<le> j" "j < length ?p" "n' = joinWith ''-'' (take j ?p)"
        using n'(2) unfolding datedVariant_parts by blast
      with n'(1) last [of j] have "j \<le> i" by fastforce
      with take_parts_mono [of j i "''-''" ?p] j show ?thesis by simp
    qed
    ultimately show ?thesis using i(3) None Some l by auto
  qed
qed

definition tinyTable :: "int pricing" where
  "tinyTable = [''claude-x'' \<mapsto> \<lparr>mpInput = 1, mpOutput = 5, mpCacheCreation = 1, mpCacheRead = 1\<rparr>,
     ''claude'' \<mapsto> \<lparr>mpInput = 9, mpOutput = 9, mpCacheCreation = 9, mpCacheRead = 9\<rparr>]"

theorem price_lookup_longest_witness:
  "map_option mpInput (lookupPrice tinyTable ''claude-x-2026-01'') = Some 1
   \<and> lookupPrice tinyTable ''claude-y'' = None
   \<and> tinyTable ''claude'' \<noteq> None
   \<and> \<not> datedVariant ''claude'' ''claude-y''"
proof -
  have a: "map_option mpInput (lookupPrice tinyTable ''claude-x-2026-01'') = Some 1" by code_simp
  have b: "lookupPrice tinyTable ''claude-y'' = None" by code_simp
  have c: "tinyTable ''claude'' \<noteq> None" by (simp add: tinyTable_def)
  from price_lookup_longest [of tinyTable "''claude-y''"] a b c show ?thesis by auto
qed

definition cost :: "'f floatOps \<Rightarrow> 'f pricing \<Rightarrow> TokenUsageRow \<Rightarrow> 'f \<times> bool" where
  "cost fo m row =
     (case lookupPrice m (turModel row) of
        None \<Rightarrow> (fZero fo, False)
      | Some p \<Rightarrow>
          (fAdd fo (fAdd fo (fAdd fo
             (fMul fo (fOfInt fo (turInputTokens row)) (mpInput p))
             (fMul fo (fOfInt fo (turOutputTokens row)) (mpOutput p)))
             (fMul fo (fOfInt fo (turCacheCreationTokens row)) (mpCacheCreation p)))
             (fMul fo (fOfInt fo (turCacheReadTokens row)) (mpCacheRead p)), True))"

subsection \<open>Ingestion\<close>

record 'f UsageRec =
  usSystem :: string
  usApp :: string
  usSource :: string
  usModel :: string
  usInput :: 'f
  usOutput :: 'f
  usCacheCreation :: 'f
  usCacheRead :: 'f
  usCost :: 'f
  usSession :: string
  usOccurred :: int

record 'f tokenService =
  toUsage :: "'f UsageRec table"
  toPricing :: "'f pricing"
  toLastAlertDay :: "int option"
  toUnpriced :: "string list"

text \<open>The unique index makes the dedup key the key of the table.\<close>

definition newUsage :: "'f floatOps \<Rightarrow> 'f pricing \<Rightarrow> string \<Rightarrow> TokenUsageRow \<Rightarrow> 'f UsageRec" where
  "newUsage fo m sysID row =
     \<lparr>usSystem = sysID, usApp = turAppID row, usSource = turSource row, usModel = turModel row,
      usInput = fOfInt fo (turInputTokens row), usOutput = fOfInt fo (turOutputTokens row),
      usCacheCreation = fOfInt fo (turCacheCreationTokens row),
      usCacheRead = fOfInt fo (turCacheReadTokens row), usCost = fst (cost fo m row),
      usSession = turSessionID row, usOccurred = turOccurredAtMS row\<rparr>"

text \<open>One row inside the transaction; \<open>None\<close> is a save the store refuses, which rolls everything back.\<close>

definition ingestRow :: "'f floatOps \<Rightarrow> 'f pricing \<Rightarrow> (TokenUsageRow \<Rightarrow> bool) \<Rightarrow> string \<Rightarrow> TokenUsageRow
    \<Rightarrow> 'f UsageRec table \<Rightarrow> 'f UsageRec table option" where
  "ingestRow fo m ok sysID row t =
     (case findRecord (turDedupKey row) t of
        Some ex \<Rightarrow>
          (if turOutputTokens row > fToInt fo (usOutput ex)
           then if ok row
                then Some (saveRecord (turDedupKey row)
                       (ex\<lparr>usOutput := fOfInt fo (turOutputTokens row), usCost := fst (cost fo m row)\<rparr>) t)
                else None
           else Some t)
      | None \<Rightarrow>
          (if ok row then Some (saveRecord (turDedupKey row) (newUsage fo m sysID row) t) else None))"

fun ingestRows :: "'f floatOps \<Rightarrow> 'f pricing \<Rightarrow> (TokenUsageRow \<Rightarrow> bool) \<Rightarrow> string \<Rightarrow> TokenUsageRow list
    \<Rightarrow> 'f UsageRec table \<Rightarrow> 'f UsageRec table option" where
  "ingestRows fo m ok sysID [] t = Some t"
| "ingestRows fo m ok sysID (row # rows) t =
     (case ingestRow fo m ok sysID row t of
        None \<Rightarrow> None
      | Some t' \<Rightarrow> ingestRows fo m ok sysID rows t')"

definition msPerDay :: int where
  "msPerDay = 86400000"

definition checkSpendThreshold :: "'f floatOps \<Rightarrow> 'f Settings option \<Rightarrow> (string + int) \<Rightarrow> int
    \<Rightarrow> 'f tokenService \<times> notifier \<Rightarrow> 'f tokenService \<times> notifier" where
  "checkSpendThreshold fo s post nowMS = (\<lambda>(ts, n).
     case s of
       None \<Rightarrow> (ts, n)
     | Some st \<Rightarrow>
         if \<not> fLess fo (fZero fo) (seThreshold st) \<or> \<not> seSpend st then (ts, n)
         else (let today = nowMS div msPerDay in
           if toLastAlertDay ts = Some today then (ts, n)
           else (let total = fSum fo (map (usCost \<circ> snd)
                               (filter (\<lambda>(_, u). today * msPerDay \<le> usOccurred u) (toUsage ts)))
                 in if fLess fo total (seThreshold st) then (ts, n)
                    else (ts\<lparr>toLastAlertDay := Some today\<rparr>,
                          snd (ntfySend s post (nowMS * 1000000) [] SpendCrossed n)))))"

definition unpricedModels :: "'f floatOps \<Rightarrow> 'f pricing \<Rightarrow> TokenUsageRow list \<Rightarrow> string list" where
  "unpricedModels fo m rows = map turModel (filter (\<lambda>r. \<not> snd (cost fo m r)) rows)"

definition Ingest :: "'f floatOps \<Rightarrow> 'f Settings option \<Rightarrow> (string + int) \<Rightarrow> int \<Rightarrow> (TokenUsageRow \<Rightarrow> bool)
    \<Rightarrow> string \<Rightarrow> TokenUsageRow list \<Rightarrow> 'f tokenService \<times> notifier
    \<Rightarrow> string option \<times> ('f tokenService \<times> notifier)" where
  "Ingest fo s post nowMS ok sysID rows = (\<lambda>(ts, n).
     let ts1 = ts\<lparr>toUnpriced := fold List.insert (unpricedModels fo (toPricing ts) rows) (toUnpriced ts)\<rparr> in
     case ingestRows fo (toPricing ts) ok sysID rows (toUsage ts) of
       None \<Rightarrow> (Some ''save failed'', (ts1, n))
     | Some t \<Rightarrow> (None, checkSpendThreshold fo s post nowMS (ts1\<lparr>toUsage := t\<rparr>, n)))"

subsection \<open>Deduplication\<close>

text \<open>The token counts of a row survive being stored as a float64 (they are below two to the 53).\<close>

definition storable :: "'f floatOps \<Rightarrow> TokenUsageRow list \<Rightarrow> bool" where
  "storable fo rows \<longleftrightarrow> list_all (\<lambda>r. fToInt fo (fOfInt fo (turOutputTokens r)) = turOutputTokens r) rows"

text \<open>What is stored as the output count of a key, and what a row makes of it.\<close>

definition storedOutput :: "'f floatOps \<Rightarrow> 'f UsageRec table \<Rightarrow> string \<Rightarrow> int option" where
  "storedOutput fo t k = map_option (\<lambda>u. fToInt fo (usOutput u)) (findRecord k t)"

fun largest :: "int list \<Rightarrow> int option \<Rightarrow> int option" where
  "largest [] acc = acc"
| "largest (x # xs) None = largest xs (Some x)"
| "largest (x # xs) (Some a) = largest xs (Some (max a x))"

lemma ingestRow_output:
  assumes "ingestRow fo m ok sysID row t = Some t'" "storable fo [row]"
  shows "storedOutput fo t' k =
     (if k = turDedupKey row then largest [turOutputTokens row] (storedOutput fo t k) else storedOutput fo t k)"
proof (cases "findRecord (turDedupKey row) t")
  case None
  with assms have "t' = saveRecord (turDedupKey row) (newUsage fo m sysID row) t"
    by (simp add: ingestRow_def split: if_splits)
  with None assms(2) show ?thesis
    by (simp add: storedOutput_def coll.find_save newUsage_def storable_def)
next
  case (Some ex)
  show ?thesis
  proof (cases "turOutputTokens row > fToInt fo (usOutput ex)")
    case True
    with Some assms(1) have "t' = saveRecord (turDedupKey row)
        (ex\<lparr>usOutput := fOfInt fo (turOutputTokens row), usCost := fst (cost fo m row)\<rparr>) t"
      by (simp add: ingestRow_def split: if_splits)
    with Some True assms(2) show ?thesis
      by (simp add: storedOutput_def coll.find_save storable_def)
  next
    case False
    with Some assms(1) have "t' = t" by (simp add: ingestRow_def)
    with Some False show ?thesis by (simp add: storedOutput_def)
  qed
qed

lemma ingest_keeps_largest_fact:
  assumes "ingestRows fo m ok sysID rows t = Some t'" "storable fo rows"
  shows "storedOutput fo t' k =
    largest (map turOutputTokens (filter (\<lambda>r. turDedupKey r = k) rows)) (storedOutput fo t k)"
  using assms
proof (induction rows arbitrary: t)
  case (Cons row rows)
  then obtain t1 where t1: "ingestRow fo m ok sysID row t = Some t1"
    "ingestRows fo m ok sysID rows t1 = Some t'" by (auto split: option.splits)
  have s: "storable fo [row]" "storable fo rows" using Cons.prems(2) by (simp_all add: storable_def)
  from Cons.IH [OF t1(2) s(2)] ingestRow_output [OF t1(1) s(1), of k] show ?case
    by (cases "storedOutput fo t k") auto
qed simp

text \<open>C31: Deduplication keeps the largest report. Once a batch of usage rows is stored, the output count
  of every dedup key is the largest of what was stored and what the rows of the batch with that
  key report, whatever their order and number; rows of other keys make no difference.\<close>

theorem ingest_keeps_largest:
  assumes "ingestRows fo m ok sysID rows t = Some t'" "storable fo rows"
  shows "storedOutput fo t' k =
    largest (map turOutputTokens (filter (\<lambda>r. turDedupKey r = k) rows)) (storedOutput fo t k)"
  by (rule ingest_keeps_largest_fact [OF assms])

text \<open>Integer cents stand in for float64 in the samples.\<close>

definition intOps :: "int floatOps" where
  "intOps = \<lparr>fZero = 0, fAdd = (+), fMul = (*), fLess = (<), fOfInt = id, fToInt = id, fSum = sum_list\<rparr>"

definition sampleUsage :: "string \<Rightarrow> int \<Rightarrow> int \<Rightarrow> TokenUsageRow" where
  "sampleUsage key inp out = \<lparr>turDedupKey = key, turAppID = [], turSource = ''claude_code'',
     turModel = ''claude-x-1'', turInputTokens = inp, turOutputTokens = out, turCacheCreationTokens = 0,
     turCacheReadTokens = 0, turSessionID = [], turOccurredAtMS = 5\<rparr>"

definition samplePricing :: "int pricing" where
  "samplePricing = [''claude-x'' \<mapsto> \<lparr>mpInput = 1, mpOutput = 5, mpCacheCreation = 1, mpCacheRead = 1\<rparr>]"

theorem ingest_keeps_largest_witness:
  "let rows = [sampleUsage ''k'' 7 3, sampleUsage ''j'' 1 9, sampleUsage ''k'' 7 8, sampleUsage ''k'' 7 5]
   in \<exists>t. ingestRows intOps samplePricing (\<lambda>_. True) ''s1'' rows [] = Some t
        \<and> storedOutput intOps t ''k'' = largest [3, 8, 5] None"
proof -
  let ?rows = "[sampleUsage ''k'' 7 3, sampleUsage ''j'' 1 9, sampleUsage ''k'' 7 8, sampleUsage ''k'' 7 5]"
  have "ingestRows intOps samplePricing (\<lambda>_. True) ''s1'' ?rows [] \<noteq> None" by code_simp
  then obtain t where t: "ingestRows intOps samplePricing (\<lambda>_. True) ''s1'' ?rows [] = Some t" by blast
  have "storable intOps ?rows" by code_simp
  from ingest_keeps_largest [OF t this, of "''k''"] t show ?thesis
    by (simp add: Let_def sampleUsage_def storedOutput_def findRecord_def)
qed

text \<open>A row is covered when its key is stored with at least its output count.\<close>

definition covered :: "'f floatOps \<Rightarrow> 'f UsageRec table \<Rightarrow> TokenUsageRow \<Rightarrow> bool" where
  "covered fo t row = (case storedOutput fo t (turDedupKey row) of None \<Rightarrow> False | Some a \<Rightarrow> turOutputTokens row \<le> a)"

lemma ingestRow_covered:
  "covered fo t row \<Longrightarrow> ingestRow fo m ok sysID row t = Some t"
  by (auto simp: covered_def storedOutput_def ingestRow_def split: option.splits)

lemma ingestRows_covered:
  "list_all (covered fo t) rows \<Longrightarrow> ingestRows fo m ok sysID rows t = Some t"
  by (induction rows) (simp_all add: ingestRow_covered)

lemma largest_covers:
  "(a :: int) \<in> set xs \<union> set_option acc \<Longrightarrow> \<exists>b. largest xs acc = Some b \<and> a \<le> b"
proof (induction xs acc arbitrary: a rule: largest.induct)
  case (3 x xs c)
  then have "max c x \<in> set xs \<union> set_option (Some (max c x))" by simp
  from 3(1) [OF this] obtain b where b: "largest xs (Some (max c x)) = Some b" "max c x \<le> b" by blast
  show ?case
  proof (cases "a \<in> set xs")
    case True
    with 3(1) [of a] show ?thesis by simp
  next
    case False
    with 3(2) have "a = x \<or> a = c" by auto
    with b show ?thesis by auto
  qed
qed auto

text \<open>C32: Sending usage again is harmless. When a batch has been stored, storing the same rows again, in
  the same or any other selection and order, under any prices and for any system, changes
  nothing: agents may re-send after a restart.\<close>

theorem ingest_retry_harmless:
  assumes "ingestRows fo m ok sysID rows t = Some t'" "storable fo rows" "set again \<subseteq> set rows"
  shows "ingestRows fo m' ok' sysID' again t' = Some t'"
proof (rule ingestRows_covered)
  have "covered fo t' r" if "r \<in> set rows" for r
  proof -
    have "turOutputTokens r \<in> set (map turOutputTokens (filter (\<lambda>q. turDedupKey q = turDedupKey r) rows))"
      using that by auto
    then obtain b where "largest (map turOutputTokens (filter (\<lambda>q. turDedupKey q = turDedupKey r) rows))
        (storedOutput fo t (turDedupKey r)) = Some b" "turOutputTokens r \<le> b"
      using largest_covers by blast
    then show ?thesis
      using ingest_keeps_largest_fact [OF assms(1,2), of "turDedupKey r"] by (simp add: covered_def)
  qed
  with assms(3) show "list_all (covered fo t') again" by (auto simp: list_all_iff)
qed

theorem ingest_retry_harmless_witness:
  "let rows = [sampleUsage ''k'' 7 3, sampleUsage ''j'' 1 9, sampleUsage ''k'' 7 8]
   in \<exists>t. ingestRows intOps samplePricing (\<lambda>_. True) ''s1'' rows [] = Some t
        \<and> ingestRows intOps Map.empty (\<lambda>_. True) ''s2'' (rev rows) t = Some t"
proof -
  let ?rows = "[sampleUsage ''k'' 7 3, sampleUsage ''j'' 1 9, sampleUsage ''k'' 7 8]"
  have "ingestRows intOps samplePricing (\<lambda>_. True) ''s1'' ?rows [] \<noteq> None" by code_simp
  then obtain t where t: "ingestRows intOps samplePricing (\<lambda>_. True) ''s1'' ?rows [] = Some t" by blast
  have s: "storable intOps ?rows" by code_simp
  have "set (rev ?rows) \<subseteq> set ?rows" by simp
  from ingest_retry_harmless [OF t s this] t show ?thesis unfolding Let_def by blast
qed

subsection \<open>The spend alert\<close>

text \<open>A batch with the circumstances of its ingestion: time, settings, the answer of ntfy, the system.\<close>

type_synonym 'f delivery = "int \<times> 'f Settings option \<times> (string + int) \<times> string \<times> TokenUsageRow list"

definition ingestAll :: "'f floatOps \<Rightarrow> (TokenUsageRow \<Rightarrow> bool) \<Rightarrow> 'f delivery list
    \<Rightarrow> 'f tokenService \<times> notifier \<Rightarrow> 'f tokenService \<times> notifier" where
  "ingestAll fo ok ds st =
     fold (\<lambda>(now, s, post, sysID, rows) st. snd (Ingest fo s post now ok sysID rows st)) ds st"

definition alertDays :: "notifier \<Rightarrow> int list" where
  "alertDays n = map (\<lambda>(t, _). t div (1000000 * msPerDay)) (filter (\<lambda>(_, _, a). a = SpendCrossed) (noSent n))"

text \<open>The days of the alerts grow, and the last of them is not after the remembered day.\<close>

definition daysOK :: "int \<Rightarrow> int option \<Rightarrow> int list \<Rightarrow> bool" where
  "daysOK now d days \<longleftrightarrow> sorted_wrt (<) days \<and>
     (case d of
        None \<Rightarrow> days = []
      | Some d \<Rightarrow> d \<le> now div msPerDay \<and> (\<forall>x \<in> set days. x \<le> d))"

fun spendOK :: "int \<Rightarrow> 'f tokenService \<times> notifier \<Rightarrow> bool" where
  "spendOK now (ts, n) \<longleftrightarrow> daysOK now (toLastAlertDay ts) (alertDays n)"

lemma daysOK_later:
  assumes "daysOK before d days" "before \<le> now"
  shows "daysOK now d days"
proof -
  have "before div msPerDay \<le> now div msPerDay" using assms(2) by (simp add: zdiv_mono1 msPerDay_def)
  with assms(1) show ?thesis by (auto simp: daysOK_def split: option.splits)
qed

lemma daysOK_alert:
  assumes "daysOK now d days" "d \<noteq> Some (now div msPerDay)"
  shows "daysOK now (Some (now div msPerDay)) days"
    and "daysOK now (Some (now div msPerDay)) (days @ [now div msPerDay])"
proof -
  have "x < now div msPerDay" if "x \<in> set days" for x
    using assms that by (cases d) (fastforce simp: daysOK_def)+
  with assms(1) show "daysOK now (Some (now div msPerDay)) days"
    "daysOK now (Some (now div msPerDay)) (days @ [now div msPerDay])"
    by (auto simp: daysOK_def sorted_wrt_append less_imp_le)
qed

lemma alertDays_send:
  "alertDays (snd (ntfySend s post (now * 1000000) [] SpendCrossed n)) = alertDays n
   \<or> alertDays (snd (ntfySend s post (now * 1000000) [] SpendCrossed n)) = alertDays n @ [now div msPerDay]"
proof -
  have "(now * 1000000) div (1000000 * msPerDay) = now div msPerDay"
    by (metis div_mult_mult1 mult.commute zero_neq_numeral)
  then show ?thesis
    using ntfySend_sent [of s post "now * 1000000" "[]" SpendCrossed n] by (auto simp: alertDays_def)
qed

lemma checkSpendThreshold_spendOK:
  assumes "spendOK now (ts, n)"
  shows "spendOK now (checkSpendThreshold fo s post now (ts, n))"
proof -
  have "spendOK now (ts\<lparr>toLastAlertDay := Some (now div msPerDay)\<rparr>,
      snd (ntfySend s post (now * 1000000) [] SpendCrossed n))" if "toLastAlertDay ts \<noteq> Some (now div msPerDay)"
    using daysOK_alert [OF _ that, of "alertDays n"] assms alertDays_send [of s post now n] by auto
  with assms show ?thesis
    by (cases s) (simp_all add: checkSpendThreshold_def Let_def del: spendOK.simps)
qed

lemma Ingest_spendOK:
  assumes "spendOK before st" "before \<le> now"
  shows "spendOK now (snd (Ingest fo s post now ok sysID rows st))"
proof -
  obtain ts n where st: "st = (ts, n)" by force
  have upd: "spendOK now (ts\<lparr>toUnpriced := u\<rparr>, n)" "spendOK now (ts\<lparr>toUnpriced := u, toUsage := t\<rparr>, n)"
    for u t using assms by (simp_all add: st daysOK_later)
  then show ?thesis
    using checkSpendThreshold_spendOK [OF upd(2)]
    by (simp add: st Ingest_def Let_def del: spendOK.simps split: option.split)
qed

lemma ingestAll_spendOK:
  "sorted (map fst ds) \<Longrightarrow> \<forall>d \<in> set ds. now \<le> fst d \<Longrightarrow> spendOK now st \<Longrightarrow>
     \<exists>later. spendOK later (ingestAll fo ok ds st)"
proof (induction ds arbitrary: now st)
  case Nil
  then show ?case by (auto simp: ingestAll_def)
next
  case (Cons d ds)
  obtain t s post i rows where d: "d = (t, s, post, i, rows)" by (metis prod_cases5)
  have "spendOK t (snd (Ingest fo s post t ok i rows st))"
    using Cons.prems d by (intro Ingest_spendOK [of now]) auto
  with Cons.IH [of t] Cons.prems d show ?case by (simp add: ingestAll_def)
qed

text \<open>C33: The spend alert goes out at most once a day. Whatever batches arrive, one after another in the order of time,
  under whatever settings, prices and answers of ntfy, no two spend alerts fall on the same UTC day.\<close>

theorem spend_alert_once_a_day:
  assumes "sorted (map fst ds)" "toLastAlertDay ts = None" "alertDays n = []"
  shows "distinct (alertDays (snd (ingestAll fo ok ds (ts, n))))"
proof (cases ds)
  case Nil
  with assms(3) show ?thesis by (simp add: ingestAll_def)
next
  case (Cons d ds')
  have ok: "spendOK (fst d) (ts, n)" using assms(2,3) by (simp add: daysOK_def)
  have "\<forall>e \<in> set ds. fst d \<le> fst e" using assms(1) Cons by auto
  from ingestAll_spendOK [OF assms(1) this ok] obtain later
    where later: "spendOK later (ingestAll fo ok ds (ts, n))" by blast
  then show ?thesis
    by (cases "ingestAll fo ok ds (ts, n)") (auto simp: daysOK_def strict_sorted_iff)
qed

definition sampleService :: "int tokenService" where
  "sampleService = \<lparr>toUsage = [], toPricing = samplePricing, toLastAlertDay = None, toUnpriced = []\<rparr>"

theorem spend_alert_once_a_day_witness:
  "let ds = [(5, Some sampleSettings, Inr 200, ''s1'', [sampleUsage ''k'' 7 3]),
             (9, Some sampleSettings, Inr 200, ''s1'', [sampleUsage ''j'' 7 3])];
       n = snd (ingestAll intOps (\<lambda>_. True) ds (sampleService, emptyNotifier))
   in alertDays n = [0] \<and> distinct (alertDays n)"
proof -
  let ?ds = "[(5, Some sampleSettings, Inr 200, ''s1'', [sampleUsage ''k'' 7 3]),
             (9, Some sampleSettings, Inr 200, ''s1'', [sampleUsage ''j'' 7 3])] :: int delivery list"
  have "alertDays (snd (ingestAll intOps (\<lambda>_. True) ?ds (sampleService, emptyNotifier))) = [0]" by code_simp
  moreover have "distinct (alertDays (snd (ingestAll intOps (\<lambda>_. True) ?ds (sampleService, emptyNotifier))))"
    by (rule spend_alert_once_a_day) (simp_all add: sampleService_def alertDays_def emptyNotifier_def)
  ultimately show ?thesis by (simp only: Let_def simp_thms)
qed

end
