(* ===== verification/HubMetrics.thy ===== *)
theory HubMetrics
  imports BB_Prelude
begin

text \<open>
  The hub's time series (\<^verbatim>\<open>hub/internal/metrics/downsample.go\<close>, \<^verbatim>\<open>hub/internal/agenthub/metrics.go\<close>): the tiers, the
  aggregation of completed buckets into the next tier and the retention. Times are milliseconds
  since the epoch in UTC; the three bucket widths divide a day, so truncating the text of a time
  stamp is rounding down to a multiple of the width. The values are float64 and what SQLite's
  AVG and MAX make of a bucket is a parameter.
\<close>

subsection \<open>Tiers\<close>

datatype Tier = T1m | T10m | T1h | T1d

fun tierRank :: "Tier \<Rightarrow> nat" where
  "tierRank T1m = 0"
| "tierRank T10m = 1"
| "tierRank T1h = 2"
| "tierRank T1d = 3"

lemma tierRank_inj: "tierRank s = tierRank t \<longleftrightarrow> s = t"
  by (cases s; cases t) simp_all

text \<open>The tiers are ordered from fine to coarse.\<close>

instantiation Tier :: linorder
begin

definition less_eq_Tier :: "Tier \<Rightarrow> Tier \<Rightarrow> bool" where
  "less_eq_Tier s t \<longleftrightarrow> tierRank s \<le> tierRank t"

definition less_Tier :: "Tier \<Rightarrow> Tier \<Rightarrow> bool" where
  "less_Tier s t \<longleftrightarrow> tierRank s < tierRank t"

instance
  by standard (auto simp: less_eq_Tier_def less_Tier_def tierRank_inj)

end

record tier =
  tiFrom :: Tier
  tiTo :: "Tier option"
  tiWidth :: int
  tiRetain :: int

definition minuteMS :: int where "minuteMS = 60000"
definition hourMS :: int where "hourMS = 3600000"
definition dayMS :: int where "dayMS = 86400000"

definition tiers :: "tier list" where
  "tiers =
     [\<lparr>tiFrom = T1m, tiTo = Some T10m, tiWidth = 10 * minuteMS, tiRetain = 48 * hourMS\<rparr>,
      \<lparr>tiFrom = T10m, tiTo = Some T1h, tiWidth = hourMS, tiRetain = 10 * dayMS\<rparr>,
      \<lparr>tiFrom = T1h, tiTo = Some T1d, tiWidth = dayMS, tiRetain = 30 * dayMS\<rparr>,
      \<lparr>tiFrom = T1d, tiTo = None, tiWidth = 0, tiRetain = 2 * 365 * dayMS\<rparr>]"

text \<open>\<^verbatim>\<open>bucketExpr\<close>; another width panics.\<close>

definition bucketOf :: "int \<Rightarrow> int \<Rightarrow> int" where
  "bucketOf width created = created div width * width"

definition supportedWidth :: "int \<Rightarrow> bool" where
  "supportedWidth w \<longleftrightarrow> w \<in> {10 * minuteMS, hourMS, dayMS}"

subsection \<open>Series\<close>

text \<open>
  A record of a metrics collection: the value of the key field (a system or an application), the
  tier, the time, the gauge fields and the counter fields.
\<close>

record 'f metricRow =
  mrKey :: string
  mrTier :: Tier
  mrCreated :: int
  mrAvg :: "'f list"
  mrMax :: "'f list"

record 'f sqlAgg =
  sqAvg :: "'f list \<Rightarrow> 'f"
  sqMax :: "'f list \<Rightarrow> 'f"

text \<open>A column-wise aggregate of the rows of one bucket.\<close>

fun columns :: "'a list list \<Rightarrow> 'a list list" where
  "columns [] = []"
| "columns [r] = map (\<lambda>x. [x]) r"
| "columns (r # rs) = map2 (#) r (columns rs)"

definition aggregateRow :: "'f sqlAgg \<Rightarrow> Tier \<Rightarrow> string \<Rightarrow> int \<Rightarrow> 'f metricRow list \<Rightarrow> 'f metricRow" where
  "aggregateRow sq to key bucket rs =
     \<lparr>mrKey = key, mrTier = to, mrCreated = bucket,
      mrAvg = map (sqAvg sq) (columns (map mrAvg rs)), mrMax = map (sqMax sq) (columns (map mrMax rs))\<rparr>"

definition lastBucket :: "Tier \<Rightarrow> 'f metricRow list \<Rightarrow> string \<Rightarrow> int option" where
  "lastBucket to rows key =
     (let cs = map mrCreated (filter (\<lambda>r. mrTier r = to \<and> mrKey r = key) rows)
      in if cs = [] then None else Some (Max (set cs)))"

definition bucketRows :: "Tier \<Rightarrow> int \<Rightarrow> string \<times> int \<Rightarrow> 'f metricRow list \<Rightarrow> 'f metricRow list" where
  "bucketRows from width kb rows =
     filter (\<lambda>r. mrTier r = from \<and> mrKey r = fst kb \<and> bucketOf width (mrCreated r) = snd kb) rows"

text \<open>The groups of the query: keys and completed buckets, in the order of the buckets.\<close>

definition bucketGroups :: "Tier \<Rightarrow> int \<Rightarrow> int \<Rightarrow> 'f metricRow list \<Rightarrow> (string \<times> int) list" where
  "bucketGroups from width cutoff rows =
     sort_key snd (remdups (map (\<lambda>r. (mrKey r, bucketOf width (mrCreated r)))
       (filter (\<lambda>r. mrTier r = from \<and> mrCreated r < cutoff) rows)))"

definition isNewBucket :: "Tier \<Rightarrow> 'f metricRow list \<Rightarrow> string \<times> int \<Rightarrow> bool" where
  "isNewBucket to rows kb =
     (case lastBucket to rows (fst kb) of None \<Rightarrow> True | Some l \<Rightarrow> l < snd kb)"

text \<open>\<open>ok\<close> says which saves succeed; one that fails rolls the whole pass of the tier back.\<close>

definition aggregateTier :: "'f sqlAgg \<Rightarrow> ('f metricRow \<Rightarrow> bool) \<Rightarrow> Tier \<Rightarrow> Tier \<Rightarrow> int \<Rightarrow> int
    \<Rightarrow> 'f metricRow list \<Rightarrow> 'f metricRow list" where
  "aggregateTier sq ok from to width now rows =
     (let cutoff = bucketOf width now;
          groups = filter (isNewBucket to rows) (bucketGroups from width cutoff rows);
          recs = map (\<lambda>kb. aggregateRow sq to (fst kb) (snd kb)
                   (filter (\<lambda>r. mrCreated r < cutoff) (bucketRows from width kb rows))) groups
      in if list_all ok recs then rows @ recs else rows)"

definition enforceRetention :: "Tier \<Rightarrow> int \<Rightarrow> 'f metricRow list \<Rightarrow> 'f metricRow list" where
  "enforceRetention tierName before rows =
     filter (\<lambda>r. \<not> (mrTier r = tierName \<and> mrCreated r < before)) rows"

definition runTier :: "'f sqlAgg \<Rightarrow> ('f metricRow \<Rightarrow> bool) \<Rightarrow> int \<Rightarrow> tier \<Rightarrow> 'f metricRow list
    \<Rightarrow> 'f metricRow list" where
  "runTier sq ok now t rows =
     enforceRetention (tiFrom t) (now - tiRetain t)
       (case tiTo t of
          None \<Rightarrow> rows
        | Some to \<Rightarrow> aggregateTier sq ok (tiFrom t) to (tiWidth t) now rows)"

definition runSeries :: "'f sqlAgg \<Rightarrow> ('f metricRow \<Rightarrow> bool) \<Rightarrow> int \<Rightarrow> 'f metricRow list \<Rightarrow> 'f metricRow list" where
  "runSeries sq ok now rows = fold (runTier sq ok now) tiers rows"

subsection \<open>Aggregation\<close>

lemma isNewBucket_iff:
  "isNewBucket to rows kb \<longleftrightarrow>
     (\<forall>r \<in> set rows. mrTier r = to \<and> mrKey r = fst kb \<longrightarrow> mrCreated r < snd kb)"
proof -
  let ?cs = "map mrCreated (filter (\<lambda>r. mrTier r = to \<and> mrKey r = fst kb) rows)"
  have max: "Max (set ?cs) < snd kb \<longleftrightarrow> (\<forall>c \<in> set ?cs. c < snd kb)" if "?cs \<noteq> []"
    by (rule Max_less_iff [OF finite_set]) (use that in \<open>simp only: set_empty not_False_eq_True\<close>)
  have all: "(\<forall>c \<in> set ?cs. c < snd kb)
      \<longleftrightarrow> (\<forall>r \<in> set rows. mrTier r = to \<and> mrKey r = fst kb \<longrightarrow> mrCreated r < snd kb)" by auto
  show ?thesis
  proof (cases "?cs = []")
    case True
    then have "isNewBucket to rows kb" by (simp add: isNewBucket_def lastBucket_def Let_def)
    moreover have "\<forall>c \<in> set ?cs. c < snd kb" using True by simp
    ultimately show ?thesis using all by blast
  next
    case False
    then have "isNewBucket to rows kb \<longleftrightarrow> Max (set ?cs) < snd kb"
      unfolding isNewBucket_def lastBucket_def Let_def by simp
    with max [OF False] all show ?thesis by blast
  qed
qed

lemma bucketGroups_in:
  "(k, b) \<in> set (bucketGroups from width cutoff rows) \<longleftrightarrow>
     (\<exists>r \<in> set rows. mrTier r = from \<and> mrCreated r < cutoff \<and> mrKey r = k \<and> bucketOf width (mrCreated r) = b)"
  by (auto simp: bucketGroups_def)

lemma bucketGroups_distinct: "distinct (bucketGroups from width cutoff rows)"
  by (simp add: bucketGroups_def)

lemma bucketGroups_other_tier:
  "\<forall>r \<in> set recs. mrTier r \<noteq> from \<Longrightarrow>
     bucketGroups from width cutoff (rows @ recs) = bucketGroups from width cutoff rows"
  by (simp add: bucketGroups_def filter_empty_conv [THEN iffD2])

definition newRecords :: "'f sqlAgg \<Rightarrow> Tier \<Rightarrow> Tier \<Rightarrow> int \<Rightarrow> int \<Rightarrow> 'f metricRow list \<Rightarrow> 'f metricRow list" where
  "newRecords sq from to width cutoff rows =
     map (\<lambda>kb. aggregateRow sq to (fst kb) (snd kb)
            (filter (\<lambda>r. mrCreated r < cutoff) (bucketRows from width kb rows)))
       (filter (isNewBucket to rows) (bucketGroups from width cutoff rows))"

lemma aggregateTier_records:
  "aggregateTier sq ok from to width now rows =
     (let recs = newRecords sq from to width (bucketOf width now) rows
      in if list_all ok recs then rows @ recs else rows)"
  by (simp add: aggregateTier_def newRecords_def Let_def)

lemma newRecords_tier: "r \<in> set (newRecords sq from to width cutoff rows) \<Longrightarrow> mrTier r = to"
  by (auto simp: newRecords_def aggregateRow_def)

lemma newRecords_again:
  assumes "from \<noteq> to"
  shows "newRecords sq from to width cutoff (rows @ newRecords sq from to width cutoff rows) = []"
proof -
  let ?recs = "newRecords sq from to width cutoff rows"
  have g: "bucketGroups from width cutoff (rows @ ?recs) = bucketGroups from width cutoff rows"
    using assms by (intro bucketGroups_other_tier ballI) (auto dest: newRecords_tier)
  have "\<not> isNewBucket to (rows @ ?recs) kb" if kb: "kb \<in> set (bucketGroups from width cutoff rows)" for kb
  proof (cases "isNewBucket to rows kb")
    case True
    with kb have "aggregateRow sq to (fst kb) (snd kb)
        (filter (\<lambda>r. mrCreated r < cutoff) (bucketRows from width kb rows)) \<in> set ?recs"
      unfolding newRecords_def by auto
    then show ?thesis unfolding isNewBucket_iff by (force simp: aggregateRow_def)
  next
    case False
    then show ?thesis unfolding isNewBucket_iff by auto
  qed
  then have "filter (isNewBucket to (rows @ ?recs)) (bucketGroups from width cutoff rows) = []"
    unfolding filter_empty_conv by blast
  then show ?thesis
    unfolding newRecords_def [of sq "from" to width cutoff "rows @ ?recs"] g by simp
qed

text \<open>The records of the coarser tier for one key and bucket.\<close>

definition recordsOf :: "Tier \<Rightarrow> string \<Rightarrow> int \<Rightarrow> 'f metricRow list \<Rightarrow> 'f metricRow list" where
  "recordsOf t k b rows = filter (\<lambda>r. mrTier r = t \<and> mrKey r = k \<and> mrCreated r = b) rows"

definition completedRows :: "Tier \<Rightarrow> int \<Rightarrow> int \<Rightarrow> string \<Rightarrow> int \<Rightarrow> 'f metricRow list \<Rightarrow> 'f metricRow list" where
  "completedRows from width now k b rows =
     filter (\<lambda>r. mrCreated r < bucketOf width now) (bucketRows from width (k, b) rows)"

lemma filter_eq_distinct: "distinct xs \<Longrightarrow> filter ((=) x) xs = (if x \<in> set xs then [x] else [])"
  by (induction xs) (auto simp: filter_empty_conv)

lemma recordsOf_newRecords:
  "recordsOf to k b (newRecords sq from to width (bucketOf width now) rows) =
     (if isNewBucket to rows (k, b) \<and> completedRows from width now k b rows \<noteq> []
      then [aggregateRow sq to k b (completedRows from width now k b rows)] else [])"
proof -
  let ?g = "filter (isNewBucket to rows) (bucketGroups from width (bucketOf width now) rows)"
  let ?f = "\<lambda>kb. aggregateRow sq to (fst kb) (snd kb)
            (filter (\<lambda>r. mrCreated r < bucketOf width now) (bucketRows from width kb rows))"
  have "recordsOf to k b (newRecords sq from to width (bucketOf width now) rows) = map ?f (filter ((=) (k, b)) ?g)"
    unfolding recordsOf_def newRecords_def filter_map
    by (rule arg_cong [where f = "map ?f"], rule filter_cong) (auto simp: aggregateRow_def)
  moreover have "distinct ?g" by (simp add: bucketGroups_distinct)
  then have "filter ((=) (k, b)) ?g = (if (k, b) \<in> set ?g then [(k, b)] else [])"
    by (rule filter_eq_distinct)
  ultimately show ?thesis
    by (auto simp: bucketGroups_in completedRows_def bucketRows_def filter_empty_conv)
qed

lemma downsample_parts:
  assumes "from < to" "\<And>r. ok r"
  shows "recordsOf to k b (aggregateTier sq ok from to width now rows) =
      (if isNewBucket to rows (k, b) \<and> completedRows from width now k b rows \<noteq> []
       then [aggregateRow sq to k b (completedRows from width now k b rows)]
       else recordsOf to k b rows)"
    and "filter (\<lambda>r. mrTier r \<noteq> to) (aggregateTier sq ok from to width now rows)
      = filter (\<lambda>r. mrTier r \<noteq> to) rows"
    and "aggregateTier sq ok from to width now (aggregateTier sq ok from to width now rows)
      = aggregateTier sq ok from to width now rows"
proof -
  have ne: "from \<noteq> to" using assms(1) by auto
  have agg: "aggregateTier sq ok from to width now rows
      = rows @ newRecords sq from to width (bucketOf width now) rows" for rows :: "'a metricRow list"
    using assms(2) by (simp add: aggregateTier_records Let_def list_all_iff)
  have "recordsOf to k b rows = []" if "isNewBucket to rows (k, b)"
    using that unfolding isNewBucket_iff recordsOf_def filter_empty_conv by fastforce
  then show "recordsOf to k b (aggregateTier sq ok from to width now rows) =
      (if isNewBucket to rows (k, b) \<and> completedRows from width now k b rows \<noteq> []
       then [aggregateRow sq to k b (completedRows from width now k b rows)]
       else recordsOf to k b rows)"
    using recordsOf_newRecords [of to k b sq "from" width now rows]
    by (simp add: agg) (auto simp: recordsOf_def)
  show "filter (\<lambda>r. mrTier r \<noteq> to) (aggregateTier sq ok from to width now rows)
      = filter (\<lambda>r. mrTier r \<noteq> to) rows"
    by (auto simp: agg filter_empty_conv dest: newRecords_tier)
  show "aggregateTier sq ok from to width now (aggregateTier sq ok from to width now rows)
      = aggregateTier sq ok from to width now rows"
    by (simp add: agg newRecords_again [OF ne])
qed

text \<open>C35: Downsampling aggregates every completed bucket exactly once. In a pass whose saves succeed, a key
  and bucket that is complete, has samples in the finer tier and is newer than everything of the
  key in the coarser tier gets exactly one record, the averages and maxima of exactly its
  samples; no other key and bucket gets a record and no sample changes. Running the pass again
  before new samples arrive changes nothing.\<close>

theorem downsample_exactly_once:
  assumes "from < to" "\<And>r. ok r"
  shows "recordsOf to k b (aggregateTier sq ok from to width now rows) =
      (if isNewBucket to rows (k, b) \<and> completedRows from width now k b rows \<noteq> []
       then [aggregateRow sq to k b (completedRows from width now k b rows)]
       else recordsOf to k b rows)
    \<and> filter (\<lambda>r. mrTier r \<noteq> to) (aggregateTier sq ok from to width now rows)
      = filter (\<lambda>r. mrTier r \<noteq> to) rows
    \<and> aggregateTier sq ok from to width now (aggregateTier sq ok from to width now rows)
      = aggregateTier sq ok from to width now rows"
  by (intro conjI downsample_parts assms)

definition intAgg :: "int sqlAgg" where
  "intAgg = \<lparr>sqAvg = \<lambda>xs. sum_list xs div int (length xs), sqMax = \<lambda>xs. fold max xs 0\<rparr>"

definition sampleRow :: "string \<Rightarrow> int \<Rightarrow> int \<Rightarrow> int metricRow" where
  "sampleRow key created v = \<lparr>mrKey = key, mrTier = T1m, mrCreated = created, mrAvg = [v], mrMax = [v]\<rparr>"

definition sampleRows :: "int metricRow list" where
  "sampleRows = [sampleRow ''s1'' 0 10, sampleRow ''s1'' 60000 20, sampleRow ''s1'' 600000 30,
     sampleRow ''s2'' 120000 40]"

theorem downsample_exactly_once_witness:
  "let rows' = aggregateTier intAgg (\<lambda>_. True) T1m T10m (10 * minuteMS) 700000 sampleRows
   in recordsOf T10m ''s1'' 0 rows' =
       [\<lparr>mrKey = ''s1'', mrTier = T10m, mrCreated = 0, mrAvg = [15], mrMax = [20]\<rparr>]
     \<and> recordsOf T10m ''s1'' 600000 rows' = []
     \<and> aggregateTier intAgg (\<lambda>_. True) T1m T10m (10 * minuteMS) 700000 rows' = rows'"
proof -
  have lt: "T1m < T10m" by (simp add: less_Tier_def)
  note ex = downsample_exactly_once [OF lt TrueI, where sq = intAgg and width = "10 * minuteMS"
      and now = 700000 and rows = sampleRows]
  have "recordsOf T10m ''s1'' 0 (aggregateTier intAgg (\<lambda>_. True) T1m T10m (10 * minuteMS) 700000 sampleRows)
      = [\<lparr>mrKey = ''s1'', mrTier = T10m, mrCreated = 0, mrAvg = [15], mrMax = [20]\<rparr>]"
    unfolding ex [THEN conjunct1] by code_simp
  moreover have "recordsOf T10m ''s1'' 600000
      (aggregateTier intAgg (\<lambda>_. True) T1m T10m (10 * minuteMS) 700000 sampleRows) = []"
    unfolding ex [THEN conjunct1] by code_simp
  ultimately show ?thesis using ex by (simp only: Let_def simp_thms)
qed

subsection \<open>Retention and late samples\<close>

lemma bucketOf_gt:
  assumes "0 < width"
  shows "c - width < bucketOf width c"
  using minus_mod_eq_div_mult [of c width] pos_mod_bound [OF assms, of c] unfolding bucketOf_def by linarith

text \<open>Retention never deletes data that downsampling has not seen. In a pass whose saves succeed,
  every sample of a tier that has a coarser one, if the pass deletes it, belongs to a bucket for
  whose key the coarser tier reaches at least as far: it was aggregated or lies before what was
  aggregated.\<close>

theorem retention_after_aggregation:
  assumes "t \<in> set tiers" "tiTo t = Some to" "\<And>r. ok r"
    and "r \<in> set rows" "mrTier r = tiFrom t" "r \<notin> set (runTier sq ok now t rows)"
  shows "\<exists>a \<in> set (runTier sq ok now t rows).
    mrTier a = to \<and> mrKey a = mrKey r \<and> bucketOf (tiWidth t) (mrCreated r) \<le> mrCreated a"
proof -
  let ?w = "tiWidth t" and ?agg = "aggregateTier sq ok (tiFrom t) to (tiWidth t) now rows"
  have t: "tiFrom t < to" "0 < ?w" "?w \<le> tiRetain t"
    using assms(1,2) by (auto simp: tiers_def less_Tier_def minuteMS_def hourMS_def dayMS_def)
  have run: "runTier sq ok now t rows = enforceRetention (tiFrom t) (now - tiRetain t) ?agg"
    by (simp add: runTier_def assms(2))
  have agg: "?agg = rows @ newRecords sq (tiFrom t) to ?w (bucketOf ?w now) rows"
    using assms(3) by (simp add: aggregateTier_records Let_def list_all_iff)
  have old: "mrCreated r < now - tiRetain t"
    using assms(4,6) by (auto simp: run agg enforceRetention_def)
  have "mrCreated r < bucketOf ?w now" using old t(3) bucketOf_gt [OF t(2), of now] by linarith
  then have comp: "completedRows (tiFrom t) ?w now (mrKey r) (bucketOf ?w (mrCreated r)) rows \<noteq> []"
    using assms(4,5) by (auto simp: completedRows_def bucketRows_def filter_empty_conv)
  let ?kb = "(mrKey r, bucketOf ?w (mrCreated r))"
  have "\<exists>a \<in> set ?agg. mrTier a = to \<and> mrKey a = mrKey r \<and> bucketOf ?w (mrCreated r) \<le> mrCreated a"
  proof (cases "isNewBucket to rows ?kb")
    case True
    then have "recordsOf to (mrKey r) (bucketOf ?w (mrCreated r)) ?agg \<noteq> []"
      using comp by (simp add: downsample_parts(1) [OF t(1) assms(3)])
    then show ?thesis by (force simp: recordsOf_def filter_empty_conv)
  next
    case False
    then show ?thesis unfolding isNewBucket_iff agg by (auto simp: not_less)
  qed
  then show ?thesis using t(1) unfolding run enforceRetention_def by auto
qed

theorem retention_after_aggregation_witness:
  "let t = hd tiers; now = 300 * hourMS; r = sampleRow ''s1'' 60000 20;
       rows' = runTier intAgg (\<lambda>_. True) now t sampleRows
   in r \<notin> set rows' \<and> (\<exists>a \<in> set rows'. mrTier a = T10m \<and> mrKey a = ''s1'' \<and> bucketOf (tiWidth t) 60000 \<le> mrCreated a)"
proof -
  let ?rows = "runTier intAgg (\<lambda>_. True) (300 * hourMS) (hd tiers) sampleRows"
  let ?r = "sampleRow ''s1'' 60000 20"
  have out: "?r \<notin> set ?rows" by code_simp
  have "\<exists>a \<in> set ?rows. mrTier a = T10m \<and> mrKey a = mrKey ?r
      \<and> bucketOf (tiWidth (hd tiers)) (mrCreated ?r) \<le> mrCreated a"
    by (rule retention_after_aggregation [OF _ _ TrueI _ _ out])
      (simp_all add: tiers_def sampleRows_def sampleRow_def)
  with out show ?thesis by (simp add: Let_def sampleRow_def)
qed

text \<open>Samples that arrive late are never aggregated. A sample whose bucket is not newer than what the
  coarser tier already holds for its key (delivered after an outage that began inside the
  bucket) makes no difference to the coarser tier, in this pass or any later one.\<close>

theorem late_sample_not_aggregated:
  assumes "from \<noteq> to" "\<And>r. ok r" "mrTier late = from"
    and "\<not> isNewBucket to rows (mrKey late, bucketOf width (mrCreated late))"
  shows "filter (\<lambda>r. mrTier r = to) (aggregateTier sq ok from to width now (rows @ [late]))
    = filter (\<lambda>r. mrTier r = to) (aggregateTier sq ok from to width now rows)"
proof -
  let ?c = "bucketOf width now"
  have new: "isNewBucket to (rows @ [late]) = isNewBucket to rows"
    using assms(1,3) by (auto simp: isNewBucket_iff fun_eq_iff)
  have groups: "filter (isNewBucket to rows) (bucketGroups from width ?c (rows @ [late]))
      = filter (isNewBucket to rows) (bucketGroups from width ?c rows)"
    using assms(4) by (simp add: bucketGroups_def filter_sort remdups_filter [symmetric])
  have "newRecords sq from to width ?c (rows @ [late]) = newRecords sq from to width ?c rows"
    unfolding newRecords_def new groups
  proof (rule map_cong [OF refl])
    fix kb assume "kb \<in> set (filter (isNewBucket to rows) (bucketGroups from width ?c rows))"
    then have "isNewBucket to rows kb" by simp
    with assms(4) have "(mrKey late, bucketOf width (mrCreated late)) \<noteq> kb" by blast
    then have "bucketRows from width kb (rows @ [late]) = bucketRows from width kb rows"
      by (cases kb) (auto simp: bucketRows_def)
    then show "aggregateRow sq to (fst kb) (snd kb)
        (filter (\<lambda>r. mrCreated r < ?c) (bucketRows from width kb (rows @ [late])))
      = aggregateRow sq to (fst kb) (snd kb) (filter (\<lambda>r. mrCreated r < ?c) (bucketRows from width kb rows))"
      by simp
  qed
  with assms(1-3) show ?thesis by (simp add: aggregateTier_records Let_def list_all_iff)
qed

theorem late_sample_not_aggregated_witness:
  "let rows = aggregateTier intAgg (\<lambda>_. True) T1m T10m (10 * minuteMS) 700000 sampleRows;
       late = sampleRow ''s1'' 300000 99
   in \<not> isNewBucket T10m rows (mrKey late, bucketOf (10 * minuteMS) (mrCreated late))
     \<and> filter (\<lambda>r. mrTier r = T10m) (aggregateTier intAgg (\<lambda>_. True) T1m T10m (10 * minuteMS) 1300000 (rows @ [late]))
      = filter (\<lambda>r. mrTier r = T10m) (aggregateTier intAgg (\<lambda>_. True) T1m T10m (10 * minuteMS) 1300000 rows)"
proof -
  let ?rows = "aggregateTier intAgg (\<lambda>_. True) T1m T10m (10 * minuteMS) 700000 sampleRows"
  let ?late = "sampleRow ''s1'' 300000 99"
  have n: "\<not> isNewBucket T10m ?rows (mrKey ?late, bucketOf (10 * minuteMS) (mrCreated ?late))" by code_simp
  have "filter (\<lambda>r. mrTier r = T10m) (aggregateTier intAgg (\<lambda>_. True) T1m T10m (10 * minuteMS) 1300000 (?rows @ [?late]))
      = filter (\<lambda>r. mrTier r = T10m) (aggregateTier intAgg (\<lambda>_. True) T1m T10m (10 * minuteMS) 1300000 ?rows)"
    by (rule late_sample_not_aggregated [OF _ TrueI _ n]) (simp_all add: sampleRow_def)
  with n show ?thesis unfolding Let_def by blast
qed

end
