(* ===== verification/HubStore.thy ===== *)
theory HubStore
  imports RecordStore HubTokens HubMetrics
begin

text \<open>
  The hub's data: the collections as tables of records (\<^verbatim>\<open>hub/migrations\<close>), the live agent
  connections (\<^verbatim>\<open>hub/internal/agenthub/registry.go\<close>) and the ways a handler reads and writes
  them. Whether the store accepts a record is a parameter of each handler call.
\<close>

subsection \<open>Records\<close>

record SystemRec =
  syName :: string
  syOS :: string
  syArch :: string
  syHostname :: string
  syVersion :: string
  syPublicKey :: string
  syStatus :: string
  syLastSeen :: int
  syCapabilities :: "string list"

text \<open>\<open>arDefinition\<close> is the stored JSON text: \<open>None\<close> when it does not decode.\<close>

record AppRec =
  arSystem :: string
  arName :: string
  arKind :: AppKind
  arDefinition :: "AppDefinition option"
  arHash :: string
  arApproval :: Approval
  arDesired :: DesiredState
  arStatus :: AppStatus
  arPID :: int
  arStartedAt :: "int option"
  arPorts :: "Port list"
  arTracking :: string
  arRestart :: "RestartPolicy option"
  arCreated :: int

record CommandRec =
  coApp :: string
  coSystem :: string
  coVerb :: Verb
  coStatus :: string
  coRequestedBy :: string
  coResult :: "CmdResult option"
  coError :: string
  coUpdated :: int

text \<open>What a hello says of the host beside the capabilities.\<close>

record hostInfo =
  hiVersion :: string
  hiOS :: string
  hiArch :: string
  hiHostname :: string

text \<open>
  One serving loop: the connection, its system and the system record it holds, as loaded and as
  changed since.
\<close>

record liveConn =
  lvSystem :: string
  lvLoaded :: SystemRec
  lvCurrent :: SystemRec

text \<open>
  The hub: its collections, the connection registry (a connection is a number), the connections
  whose context has been cancelled, the frames written to each, and the notifier that watches
  the records.
\<close>

record 'f hub =
  huSystems :: "SystemRec table"
  huApps :: "AppRec table"
  huCommands :: "CommandRec table"
  huSettings :: "'f Settings option"
  huConns :: "string \<rightharpoonup> nat"
  huCancelled :: "nat list"
  huWire :: "(nat \<times> HubFrame) list"
  huLive :: "nat \<rightharpoonup> liveConn"
  huNotify :: notifier
  huTokens :: "'f tokenService"
  huSystemMetrics :: "'f metricRow list"
  huAppMetrics :: "'f metricRow list"
  huLogs :: "string \<rightharpoonup> (string list \<times> bool) list"

text \<open>
  What one handler call meets: the time, which saves the store accepts, which connections take a
  frame, the answer of ntfy, the hash function of definitions, the id a new record gets, what the
  agent says of its host, which metric and usage rows the store accepts, and what saving a record
  that was loaded earlier makes of a stored record that has changed since (\<open>enMergeSystem\<close>: loaded,
  changed, stored).
\<close>

record 'f hubEnv =
  enNow :: int
  enSave :: "string \<Rightarrow> bool"
  enWrite :: "nat \<Rightarrow> bool"
  enPost :: "string + int"
  enHash :: "AppDefinition \<Rightarrow> string"
  enNewID :: string
  enHost :: hostInfo
  enUsageOK :: "TokenUsageRow \<Rightarrow> bool"
  enMetricOK :: "'f metricRow \<Rightarrow> bool"
  enFloat :: "'f floatOps"
  enMergeSystem :: "SystemRec \<Rightarrow> SystemRec \<Rightarrow> SystemRec \<Rightarrow> SystemRec"
  enMergeCommand :: "CommandRec \<Rightarrow> CommandRec \<Rightarrow> CommandRec \<Rightarrow> CommandRec"

subsection \<open>Saving\<close>

text \<open>An update that succeeds fires the hooks of the notifier; a create does not.\<close>

definition updateApp :: "'f hubEnv \<Rightarrow> string \<Rightarrow> AppRec \<Rightarrow> 'f hub \<Rightarrow> string option \<times> 'f hub" where
  "updateApp env i r h =
     (if enSave env i
      then (None, h\<lparr>huApps := saveRecord i r (huApps h),
             huNotify := onAppUpdate (huSettings h) (enPost env) (enNow env) i (arName r) (arStatus r)
                           (huNotify h)\<rparr>)
      else (Some ''save failed'', h))"

definition updateSystem :: "'f hubEnv \<Rightarrow> string \<Rightarrow> SystemRec \<Rightarrow> 'f hub \<Rightarrow> string option \<times> 'f hub" where
  "updateSystem env i r h =
     (if enSave env i
      then (None, h\<lparr>huSystems := saveRecord i r (huSystems h),
             huNotify := onSystemUpdate (huSettings h) (enPost env) (enNow env) i (syName r) (syStatus r)
                           (huNotify h)\<rparr>)
      else (Some ''save failed'', h))"

definition updateCommand :: "'f hubEnv \<Rightarrow> string \<Rightarrow> CommandRec \<Rightarrow> 'f hub \<Rightarrow> string option \<times> 'f hub" where
  "updateCommand env i r h =
     (if enSave env i
      then (None, h\<lparr>huCommands := saveRecord i (r\<lparr>coUpdated := enNow env\<rparr>) (huCommands h)\<rparr>)
      else (Some ''save failed'', h))"

subsection \<open>Connections\<close>

definition regAdd :: "string \<Rightarrow> nat \<Rightarrow> 'f hub \<Rightarrow> 'f hub" where
  "regAdd sysID c h =
     (let h1 = h\<lparr>huConns := (huConns h)(sysID \<mapsto> c)\<rparr> in
      case huConns h sysID of
        None \<Rightarrow> h1
      | Some old \<Rightarrow> h1\<lparr>huCancelled := old # huCancelled h1\<rparr>)"

definition regRemove :: "string \<Rightarrow> nat \<Rightarrow> 'f hub \<Rightarrow> bool \<times> 'f hub" where
  "regRemove sysID c h =
     (if huConns h sysID = Some c then (True, h\<lparr>huConns := (huConns h)(sysID := None)\<rparr>) else (False, h))"

definition connSend :: "'f hubEnv \<Rightarrow> nat \<Rightarrow> HubFrame \<Rightarrow> 'f hub \<Rightarrow> string option \<times> 'f hub" where
  "connSend env c f h =
     (if c \<in> set (huCancelled h) \<or> \<not> enWrite env c then (Some ''write failed'', h)
      else (None, h\<lparr>huWire := huWire h @ [(c, f)]\<rparr>))"

definition Dispatch :: "'f hubEnv \<Rightarrow> string \<Rightarrow> Cmd \<Rightarrow> 'f hub \<Rightarrow> string option \<times> 'f hub" where
  "Dispatch env sysID cmd h =
     (case huConns h sysID of
        None \<Rightarrow> (Some (''agent for system '' @ sysID @ '' is not connected''), h)
      | Some c \<Rightarrow> connSend env c (HCmd (Some cmd)) h)"

text \<open>
  \<^verbatim>\<open>sendAppSync\<close>: the applications of the system, the newest first, at most five hundred; a stored
  definition that does not decode is skipped. The time of creation orders the query.
\<close>

definition syncSpec :: "string \<times> AppRec \<Rightarrow> AppSpec option" where
  "syncSpec ir = map_option (\<lambda>def. \<lparr>spID = fst ir, spDefinition = def, spDefinitionHash = arHash (snd ir),
     spDesiredState = arDesired (snd ir), spTokenTracking = arTracking (snd ir)\<rparr>) (arDefinition (snd ir))"

definition systemApps :: "string \<Rightarrow> 'f hub \<Rightarrow> (string \<times> AppRec) list" where
  "systemApps sysID h =
     take 500 (sort_key (\<lambda>(_, r). - arCreated r) (filter (\<lambda>(_, r). arSystem r = sysID) (huApps h)))"

definition sendAppSync :: "'f hubEnv \<Rightarrow> string \<Rightarrow> nat \<Rightarrow> 'f hub \<Rightarrow> string option \<times> 'f hub" where
  "sendAppSync env sysID c h =
     connSend env c (HAppSync (Some (List.map_filter syncSpec (systemApps sysID h)))) h"

definition SyncSystem :: "'f hubEnv \<Rightarrow> string \<Rightarrow> 'f hub \<Rightarrow> 'f hub" where
  "SyncSystem env sysID h =
     (case huConns h sysID of None \<Rightarrow> h | Some c \<Rightarrow> snd (sendAppSync env sysID c h))"

lemma regAdd_get: "huConns (regAdd sysID c h) = (huConns h)(sysID \<mapsto> c)"
  by (simp add: regAdd_def Let_def split: option.split)

lemma regRemove_result: "fst (regRemove sysID c h) \<longleftrightarrow> huConns h sysID = Some c"
  by (simp add: regRemove_def)

lemma regRemove_stale: "huConns h sysID \<noteq> Some c \<Longrightarrow> regRemove sysID c h = (False, h)"
  by (simp add: regRemove_def)

end
