(* ===== verification/HubPlane.thy ===== *)
theory HubPlane
  imports HubStore
begin

text \<open>
  The hub side of the agent connection (\<^verbatim>\<open>hub/internal/agenthub\<close>): authentication, the connection's
  life, the routing of frames and what each of them does to the records.
\<close>

subsection \<open>Authentication\<close>

definition maxClockSkew :: int where
  "maxClockSkew = 5 * 60 * second"

text \<open>
  \<^verbatim>\<open>verifySignature\<close>: the first check that fails. \<open>verify\<close> is Ed25519; the age is computed on
  durations that saturate, which does not change the comparisons.
\<close>

definition verifySignature :: "(string \<Rightarrow> string \<Rightarrow> string \<Rightarrow> bool) \<Rightarrow> int \<Rightarrow> string \<Rightarrow> string \<Rightarrow> string
    \<Rightarrow> string \<Rightarrow> string option" where
  "verifySignature verify now pubKeyB64 sysID tsHeader sigB64 =
     (case b64decode pubKeyB64 of
        None \<Rightarrow> Some ''stored public key invalid''
      | Some pub \<Rightarrow>
          if length pub \<noteq> 32 then Some ''stored public key invalid''
          else (case b64decode sigB64 of
              None \<Rightarrow> Some ''signature not base64''
            | Some sig \<Rightarrow> (case atoi tsHeader of
                None \<Rightarrow> Some ''timestamp not numeric''
              | Some ms \<Rightarrow>
                  (let age = now - ms * 1000000 in
                   if age > maxClockSkew \<or> age < - maxClockSkew then Some ''timestamp outside allowed skew''
                   else if \<not> verify pub (sysID @ ''|'' @ tsHeader) sig then Some ''signature mismatch''
                   else None))))"

definition serveAuth :: "(string \<Rightarrow> string \<Rightarrow> string \<Rightarrow> bool) \<Rightarrow> int \<Rightarrow> string \<Rightarrow> string \<Rightarrow> string
    \<Rightarrow> 'f hub \<Rightarrow> string + SystemRec" where
  "serveAuth verify now sysID tsHeader sigB64 h =
     (if sysID = [] \<or> tsHeader = [] \<or> sigB64 = [] then Inl ''missing auth headers''
      else case findRecord sysID (huSystems h) of
          None \<Rightarrow> Inl ''unknown system''
        | Some sys \<Rightarrow>
            (case verifySignature verify now (syPublicKey sys) sysID tsHeader sigB64 of
               Some _ \<Rightarrow> Inl ''invalid signature''
             | None \<Rightarrow> Inr sys))"

subsection \<open>The life of a connection\<close>

definition setSystemStatus :: "'f hubEnv \<Rightarrow> string \<Rightarrow> string \<Rightarrow> 'f hub \<Rightarrow> 'f hub" where
  "setSystemStatus env sysID status h =
     (case findRecord sysID (huSystems h) of
        None \<Rightarrow> h
      | Some r \<Rightarrow> snd (updateSystem env sysID (r\<lparr>syStatus := status, syLastSeen := enNow env\<rparr>) h))"

text \<open>An accepted connection is registered, then its system is marked online; two steps.\<close>

definition connRegister :: "nat \<Rightarrow> string \<Rightarrow> SystemRec \<Rightarrow> 'f hub \<Rightarrow> 'f hub" where
  "connRegister c sysID sys h =
     (regAdd sysID c h)\<lparr>huLive := (huLive h)(c \<mapsto> \<lparr>lvSystem = sysID, lvLoaded = sys, lvCurrent = sys\<rparr>)\<rparr>"

definition connOpen :: "'f hubEnv \<Rightarrow> nat \<Rightarrow> string \<Rightarrow> SystemRec \<Rightarrow> 'f hub \<Rightarrow> 'f hub" where
  "connOpen env c sysID sys h = setSystemStatus env sysID ''online'' (connRegister c sysID sys h)"

text \<open>The deferred function when the serving loop ends.\<close>

definition connUnregister :: "nat \<Rightarrow> 'f hub \<Rightarrow> bool \<times> 'f hub" where
  "connUnregister c h =
     (case huLive h c of
        None \<Rightarrow> (False, h)
      | Some lv \<Rightarrow> regRemove (lvSystem lv) c (h\<lparr>huLive := (huLive h)(c := None)\<rparr>))"

definition connClose :: "'f hubEnv \<Rightarrow> nat \<Rightarrow> 'f hub \<Rightarrow> 'f hub" where
  "connClose env c h =
     (case huLive h c of
        None \<Rightarrow> h
      | Some lv \<Rightarrow>
          (let (was, h1) = connUnregister c h;
               h2 = (if was then setSystemStatus env (lvSystem lv) ''offline'' h1 else h1)
           in h2\<lparr>huCancelled := c # huCancelled h2\<rparr>))"

subsection \<open>Frames from the agent\<close>

text \<open>
  \<^verbatim>\<open>onHello\<close> saves the record the connection holds, not a fresh one. The hook sees the record that
  was saved.
\<close>

definition helloRecord :: "'f hubEnv \<Rightarrow> string list \<Rightarrow> SystemRec \<Rightarrow> SystemRec" where
  "helloRecord env caps r =
     r\<lparr>syStatus := ''online'', syVersion := hiVersion (enHost env), syOS := hiOS (enHost env),
       syArch := hiArch (enHost env), syHostname := hiHostname (enHost env), syLastSeen := enNow env,
       syCapabilities := caps\<rparr>"

definition onHello :: "'f hubEnv \<Rightarrow> nat \<Rightarrow> string list \<Rightarrow> 'f hub \<Rightarrow> string option \<times> 'f hub" where
  "onHello env c caps h =
     (case huLive h c of
        None \<Rightarrow> (None, h)
      | Some lv \<Rightarrow>
          (let sysID = lvSystem lv; cur = helloRecord env caps (lvCurrent lv);
               h0 = h\<lparr>huLive := (huLive h)(c \<mapsto> lv\<lparr>lvCurrent := cur\<rparr>)\<rparr> in
           case findRecord sysID (huSystems h) of
             None \<Rightarrow> (Some ''save failed'', h0)
           | Some stored \<Rightarrow>
               if \<not> enSave env sysID then (Some ''save failed'', h0)
               else (let h1 = h0\<lparr>huSystems :=
                             saveRecord sysID (enMergeSystem env (lvLoaded lv) cur stored) (huSystems h0),
                           huLive := (huLive h0)(c \<mapsto> lv\<lparr>lvLoaded := cur, lvCurrent := cur\<rparr>),
                           huNotify := onSystemUpdate (huSettings h0) (enPost env) (enNow env) sysID
                                         (syName cur) (syStatus cur) (huNotify h0)\<rparr>
                     in case connSend env c HHelloAck h1 of
                          (Some e, h2) \<Rightarrow> (Some e, h2)
                        | (None, h2) \<Rightarrow> sendAppSync env sysID c h2)))"

definition onAppEvent :: "'f hubEnv \<Rightarrow> AppEvent \<Rightarrow> 'f hub \<Rightarrow> string option \<times> 'f hub" where
  "onAppEvent env ev h =
     (case findRecord (aeAppID ev) (huApps h) of
        None \<Rightarrow> (Some ''app_event for unknown app'', h)
      | Some r \<Rightarrow>
          updateApp env (aeAppID ev)
            (r\<lparr>arStatus := aeStatus ev, arPID := aePID ev,
               arStartedAt := (if aeStatus ev = StatusRunning then Some (enNow env) else arStartedAt r),
               arPorts := aePorts ev\<rparr>) h)"

definition onCmdAck :: "'f hubEnv \<Rightarrow> string \<Rightarrow> 'f hub \<Rightarrow> string option \<times> 'f hub" where
  "onCmdAck env cid h =
     (case findRecord cid (huCommands h) of
        None \<Rightarrow> (Some ''unknown command'', h)
      | Some r \<Rightarrow> updateCommand env cid (r\<lparr>coStatus := ''acked''\<rparr>) h)"

definition onCmdResult :: "'f hubEnv \<Rightarrow> CmdResult \<Rightarrow> 'f hub \<Rightarrow> string option \<times> 'f hub" where
  "onCmdResult env res h =
     (case findRecord (crCmdID res) (huCommands h) of
        None \<Rightarrow> (Some ''unknown command'', h)
      | Some r \<Rightarrow>
          updateCommand env (crCmdID res)
            ((if crOK res then r\<lparr>coStatus := ''done''\<rparr>
              else r\<lparr>coStatus := ''failed'', coError := crError res\<rparr>)\<lparr>coResult := Some res\<rparr>) h)"

definition onApprovalEvent :: "'f hubEnv \<Rightarrow> ApprovalEvent \<Rightarrow> 'f hub \<Rightarrow> string option \<times> 'f hub" where
  "onApprovalEvent env ev h =
     (case findRecord (apAppID ev) (huApps h) of
        None \<Rightarrow> (Some ''approval_event for unknown app'', h)
      | Some r \<Rightarrow>
          if arHash r \<noteq> apDefinitionHash ev then (None, h)
          else updateApp env (apAppID ev) (r\<lparr>arApproval := apApproval ev\<rparr>) h)"

text \<open>\<^verbatim>\<open>onAppRegister\<close>: a definition imported on the host; a create fires no update hook.\<close>

definition registeredApp :: "'f hubEnv \<Rightarrow> string \<Rightarrow> AppDefinition \<Rightarrow> AppRec" where
  "registeredApp env sysID def =
     \<lparr>arSystem = sysID, arName = defName def, arKind = effectiveKind def,
      arDefinition = Some def, arHash = enHash env def, arApproval = ApprovalApproved,
      arDesired = DesiredStopped, arStatus = StatusStopped, arPID = 0, arStartedAt = None, arPorts = [],
      arTracking = [], arRestart = defRestartPolicy def, arCreated = enNow env\<rparr>"

definition createApp :: "'f hubEnv \<Rightarrow> AppRec \<Rightarrow> 'f hub \<Rightarrow> string option \<times> 'f hub" where
  "createApp env r h =
     (if enSave env (enNewID env) \<and> findRecord (enNewID env) (huApps h) = None
      then (None, h\<lparr>huApps := saveRecord (enNewID env) r (huApps h)\<rparr>)
      else (Some ''save failed'', h))"

definition onAppRegister :: "'f hubEnv \<Rightarrow> nat \<Rightarrow> string \<Rightarrow> AppDefinition \<Rightarrow> 'f hub \<Rightarrow> string option \<times> 'f hub" where
  "onAppRegister env c sysID def h =
     (if Validate def \<noteq> [] then (Some ''rejected app_register'', h)
      else if \<exists>ir \<in> set (huApps h). arSystem (snd ir) = sysID \<and> arHash (snd ir) = enHash env def
        then sendAppSync env sysID c h
      else (case createApp env (registeredApp env sysID def) h of
              (Some e, h1) \<Rightarrow> (Some e, h1)
            | (None, h1) \<Rightarrow> sendAppSync env sysID c h1))"

text \<open>\<^verbatim>\<open>ingestMetrics\<close>: one transaction for the whole batch.\<close>

definition hostRow :: "'f hubEnv \<Rightarrow> string \<Rightarrow> 'f HostSample \<Rightarrow> 'f metricRow" where
  "hostRow env sysID s =
     (let n = fOfInt (enFloat env) in
      \<lparr>mrKey = sysID, mrTier = T1m, mrCreated = hsTS s,
       mrAvg = [hsCPUPct s, hsMemPct s, n (hsMemUsed s), hsDiskPct s],
       mrMax = [n (hsNetSent s), n (hsNetRecv s)]\<rparr>)"

definition appRow :: "'f hubEnv \<Rightarrow> 'f AppSample \<Rightarrow> 'f metricRow" where
  "appRow env s =
     \<lparr>mrKey = smAppID s, mrTier = T1m, mrCreated = smTS s,
      mrAvg = [smCPUPct s, fOfInt (enFloat env) (smMemRSS s)], mrMax = []\<rparr>"

definition ingestMetrics :: "'f hubEnv \<Rightarrow> string \<Rightarrow> 'f MetricsBatch \<Rightarrow> 'f hub \<Rightarrow> string option \<times> 'f hub" where
  "ingestMetrics env sysID batch h =
     (let hosts = map (hostRow env sysID) (mbHost batch); apps = map (appRow env) (mbApps batch)
      in if list_all (enMetricOK env) (hosts @ apps)
         then (None, h\<lparr>huSystemMetrics := huSystemMetrics h @ hosts, huAppMetrics := huAppMetrics h @ apps\<rparr>)
         else (Some ''save failed'', h))"

text \<open>The log broker: a channel holds 32 chunks; one more is dropped.\<close>

definition deliverLog :: "LogChunk \<Rightarrow> 'f hub \<Rightarrow> 'f hub" where
  "deliverLog chunk h =
     (case huLogs h (lcStreamID chunk) of
        None \<Rightarrow> h
      | Some q \<Rightarrow>
          if length q < 32
          then h\<lparr>huLogs := (huLogs h)(lcStreamID chunk \<mapsto> q @ [(lcLines chunk, lcEOF chunk)])\<rparr>
          else h)"

definition ingestTokens :: "'f hubEnv \<Rightarrow> string \<Rightarrow> TokenUsageRow list \<Rightarrow> 'f hub \<Rightarrow> string option \<times> 'f hub" where
  "ingestTokens env sysID rows h =
     (case Ingest (enFloat env) (huSettings h) (enPost env) (enNow env div 1000000) (enUsageOK env) sysID rows
             (huTokens h, huNotify h) of
        (e, (ts, n)) \<Rightarrow> (e, h\<lparr>huTokens := ts, huNotify := n\<rparr>))"

text \<open>What a connection reads: a frame, one whose payload does not decode, one of an unknown type.\<close>

datatype 'f agentMsg = AFrame AgentFrame | AMetrics "'f MetricsBatch" | ABad | AUnknown

fun handleAgentFrame :: "'f hubEnv \<Rightarrow> nat \<Rightarrow> string \<Rightarrow> 'f agentMsg \<Rightarrow> 'f hub \<Rightarrow> string option \<times> 'f hub" where
  "handleAgentFrame env c sysID (AFrame (FHello digest caps)) h = onHello env c caps h"
| "handleAgentFrame env c sysID (AMetrics batch) h = ingestMetrics env sysID batch h"
| "handleAgentFrame env c sysID (AFrame (FAppEvent ev)) h = onAppEvent env ev h"
| "handleAgentFrame env c sysID (AFrame (FCmdAck cid)) h = onCmdAck env cid h"
| "handleAgentFrame env c sysID (AFrame (FCmdResult res)) h = onCmdResult env res h"
| "handleAgentFrame env c sysID (AFrame (FAppRegister def)) h = onAppRegister env c sysID def h"
| "handleAgentFrame env c sysID (AFrame (FTokenUsageBatch rows)) h = ingestTokens env sysID rows h"
| "handleAgentFrame env c sysID (AFrame (FLogChunk chunk)) h = (None, deliverLog chunk h)"
| "handleAgentFrame env c sysID (AFrame (FApprovalEvent ev)) h = onApprovalEvent env ev h"
| "handleAgentFrame env c sysID ABad h = (Some ''bad payload'', h)"
| "handleAgentFrame env c sysID AUnknown h = (None, h)"

text \<open>The serving loop of a live connection logs the error and goes on.\<close>

definition serveFrame :: "'f hubEnv \<Rightarrow> nat \<Rightarrow> 'f agentMsg \<Rightarrow> 'f hub \<Rightarrow> 'f hub" where
  "serveFrame env c m h =
     (case huLive h c of
        None \<Rightarrow> h
      | Some lv \<Rightarrow> if c \<in> set (huCancelled h) then h else snd (handleAgentFrame env c (lvSystem lv) m h))"

end
