(* ===== verification/HubApi.thy ===== *)
theory HubApi
  imports HubPlane
begin

text \<open>
  The hub's clients: commands (\<^verbatim>\<open>hub/internal/commands\<close> and the dispatch hook of \<^verbatim>\<open>agenthub\<close>),
  applications (\<^verbatim>\<open>hub/internal/appsapi\<close>), enrollment (\<^verbatim>\<open>hub/internal/enroll\<close>) and the first user
  (\<^verbatim>\<open>hub/internal/setup\<close>). Bodies that do not bind are \<open>None\<close>; the messages of the answers are
  kept, their HTTP status is their constructor.
\<close>

datatype apiError = Unauthorized string | BadRequest string | Forbidden string | InternalError string

subsection \<open>Commands\<close>

definition dispatchTimeout :: int where
  "dispatchTimeout = 60 * second"

text \<open>
  \<open>createCommand\<close> is the request hook followed by the save of the record: the checks, the desired
  state that rides along (a failed save of it is ignored) and the new record.
\<close>

definition withDesired :: "'f hubEnv \<Rightarrow> string \<Rightarrow> Verb \<Rightarrow> AppRec \<Rightarrow> 'f hub \<Rightarrow> 'f hub" where
  "withDesired env appID verb r h =
     (case verb of
        VerbStart \<Rightarrow> snd (updateApp env appID (r\<lparr>arDesired := DesiredRunning\<rparr>) h)
      | VerbStop \<Rightarrow> snd (updateApp env appID (r\<lparr>arDesired := DesiredStopped\<rparr>) h)
      | _ \<Rightarrow> h)"

definition newCommand :: "'f hubEnv \<Rightarrow> string \<Rightarrow> Verb \<Rightarrow> string option \<Rightarrow> AppRec \<Rightarrow> CommandRec" where
  "newCommand env appID verb user r =
     \<lparr>coApp = appID, coSystem = arSystem r, coVerb = verb, coStatus = ''pending'',
      coRequestedBy = (case user of None \<Rightarrow> [] | Some u \<Rightarrow> u), coResult = None, coError = [],
      coUpdated = enNow env\<rparr>"

definition createCommand :: "'f hubEnv \<Rightarrow> string option \<Rightarrow> string \<Rightarrow> string \<Rightarrow> 'f hub
    \<Rightarrow> (apiError + string) \<times> 'f hub" where
  "createCommand env user appID verbText h =
     (let verb = verbOf verbText in
      if \<not> ValidVerb verb then (Inl (BadRequest ''invalid verb''), h)
      else case findRecord appID (huApps h) of
          None \<Rightarrow> (Inl (BadRequest ''unknown app''), h)
        | Some r \<Rightarrow>
            if arApproval r \<noteq> ApprovalApproved
            then (Inl (BadRequest ''app definition is not approved on its host yet''), h)
            else (let h1 = withDesired env appID verb r h; cid = enNewID env in
                  if enSave env cid \<and> findRecord cid (huCommands h1) = None
                  then (Inr cid, h1\<lparr>huCommands := saveRecord cid (newCommand env appID verb user r) (huCommands h1)\<rparr>)
                  else (Inl (BadRequest ''save failed''), h1)))"

text \<open>
  The hook after the create: the command is dispatched, then its record, as it was loaded, is
  saved with the outcome. Frames of the agent may be handled between the two steps.
\<close>

definition dispatchCommand :: "'f hubEnv \<Rightarrow> string \<Rightarrow> CommandRec \<Rightarrow> 'f hub \<Rightarrow> string option \<times> 'f hub" where
  "dispatchCommand env cid r h =
     (let hash = (case findRecord (coApp r) (huApps h) of None \<Rightarrow> [] | Some a \<Rightarrow> arHash a)
      in Dispatch env (coSystem r)
           \<lparr>cmdID = cid, cmdAppID = coApp r, cmdVerb = coVerb r, cmdDefinitionHash = hash\<rparr> h)"

definition dispatched :: "string option \<Rightarrow> CommandRec \<Rightarrow> CommandRec" where
  "dispatched e r =
     (case e of Some err \<Rightarrow> r\<lparr>coStatus := ''failed'', coError := err\<rparr>
      | None \<Rightarrow> r\<lparr>coStatus := ''dispatched''\<rparr>)"

definition saveDispatched :: "'f hubEnv \<Rightarrow> string \<Rightarrow> CommandRec \<Rightarrow> string option \<Rightarrow> 'f hub \<Rightarrow> 'f hub" where
  "saveDispatched env cid r e h =
     (case findRecord cid (huCommands h) of
        None \<Rightarrow> h
      | Some stored \<Rightarrow> snd (updateCommand env cid (enMergeCommand env r (dispatched e r) stored) h))"

definition afterCreate :: "'f hubEnv \<Rightarrow> string \<Rightarrow> 'f hub \<Rightarrow> 'f hub" where
  "afterCreate env cid h =
     (case findRecord cid (huCommands h) of
        None \<Rightarrow> h
      | Some r \<Rightarrow> (let sent = dispatchCommand env cid r h in saveDispatched env cid r (fst sent) (snd sent)))"

definition requestCommand :: "'f hubEnv \<Rightarrow> string option \<Rightarrow> string \<Rightarrow> string \<Rightarrow> 'f hub
    \<Rightarrow> (apiError + string) \<times> 'f hub" where
  "requestCommand env user appID verbText h =
     (case createCommand env user appID verbText h of
        (Inl e, h1) \<Rightarrow> (Inl e, h1)
      | (Inr cid, h1) \<Rightarrow> (Inr cid, afterCreate env cid h1))"

text \<open>The sweeper: at most two hundred commands that nobody has answered for a minute.\<close>

definition isStale :: "int \<Rightarrow> string \<times> CommandRec \<Rightarrow> bool" where
  "isStale cutoff ir \<longleftrightarrow>
     (coStatus (snd ir) = ''dispatched'' \<or> coStatus (snd ir) = ''acked'') \<and> coUpdated (snd ir) < cutoff"

definition sweepOne :: "'f hubEnv \<Rightarrow> string \<times> CommandRec \<Rightarrow> 'f hub \<Rightarrow> 'f hub" where
  "sweepOne env ir h =
     snd (updateCommand env (fst ir)
       ((snd ir)\<lparr>coStatus := ''timeout'', coError := ''agent did not complete the command in time''\<rparr>) h)"

definition sweep :: "'f hubEnv \<Rightarrow> 'f hub \<Rightarrow> 'f hub" where
  "sweep env h =
     fold (sweepOne env) (take 200 (filter (isStale (enNow env - dispatchTimeout)) (huCommands h))) h"

subsection \<open>Applications\<close>

definition withDefaults :: "AppDefinition \<Rightarrow> AppDefinition" where
  "withDefaults d =
     (let d1 = (if defSchemaVersion d = 0 then d\<lparr>defSchemaVersion := AppDefSchemaVersion\<rparr> else d)
      in if defKind d1 = OtherKind [] then d1\<lparr>defKind := KindProcess\<rparr> else d1)"

definition withDefinition :: "AppDefinition \<Rightarrow> string \<Rightarrow> AppRec \<Rightarrow> AppRec" where
  "withDefinition def hash r =
     r\<lparr>arName := defName def, arKind := defKind def, arDefinition := Some def, arHash := hash\<rparr>"

text \<open>
  An edited definition resets the approval until the host approves again.
\<close>

definition editedApp :: "'f hubEnv \<Rightarrow> AppDefinition \<Rightarrow> AppRec \<Rightarrow> AppRec" where
  "editedApp env def r =
     withDefinition def (enHash env def)
       (if arHash r \<noteq> enHash env def then r\<lparr>arApproval := ApprovalPending\<rparr> else r)"

definition freshApp :: "int \<Rightarrow> string \<Rightarrow> AppRec" where
  "freshApp now sysID =
     \<lparr>arSystem = sysID, arName = [], arKind = KindProcess, arDefinition = None, arHash = [],
      arApproval = ApprovalPending, arDesired = DesiredStopped, arStatus = StatusUnknown, arPID = 0,
      arStartedAt = None, arPorts = [], arTracking = [], arRestart = None, arCreated = now\<rparr>"

text \<open>After the save: the error, or a push of the definition to the live agent and the answer.\<close>

definition afterSave :: "'f hubEnv \<Rightarrow> string \<Rightarrow> string \<Rightarrow> string option \<times> 'f hub
    \<Rightarrow> (apiError + string) \<times> 'f hub" where
  "afterSave env sysID appID res =
     (case fst res of
        Some _ \<Rightarrow> (Inl (InternalError ''save app''), snd res)
      | None \<Rightarrow> (Inr appID, SyncSystem env sysID (snd res)))"

definition saveApp :: "'f hubEnv \<Rightarrow> bool \<Rightarrow> string \<Rightarrow> string \<Rightarrow> AppDefinition \<Rightarrow> 'f hub
    \<Rightarrow> (apiError + string) \<times> 'f hub" where
  "saveApp env authed sysID appID def0 h =
     (if \<not> authed then (Inl (Unauthorized ''authentication required''), h)
      else let def = withDefaults def0 in
        if Validate def \<noteq> [] then (Inl (BadRequest ''invalid definition''), h)
        else if findRecord sysID (huSystems h) = None then (Inl (BadRequest ''unknown system''), h)
        else if appID \<noteq> [] then
          (case findRecord appID (huApps h) of
             None \<Rightarrow> (Inl (BadRequest ''unknown app''), h)
           | Some r \<Rightarrow> afterSave env sysID appID (updateApp env appID (editedApp env def r) h))
        else afterSave env sysID (enNewID env)
               (createApp env (withDefinition def (enHash env def) (freshApp (enNow env) sysID)) h))"

text \<open>
  The record API of PocketBase over the collection of applications, under the access rules the
  migrations give it: a missing rule admits superusers only. \<open>change\<close> is what the body makes of the
  record. The hook of \<^verbatim>\<open>agenthub\<close> pushes an accepted update to the agent.
\<close>

datatype requester = Visitor | User string | Superuser

definition signedIn :: "requester \<Rightarrow> bool" where
  "signedIn who \<longleftrightarrow> who \<noteq> Visitor"

definition admits :: "(requester \<Rightarrow> bool) option \<Rightarrow> requester \<Rightarrow> bool" where
  "admits rule who \<longleftrightarrow> who = Superuser \<or> (case rule of None \<Rightarrow> False | Some allowed \<Rightarrow> allowed who)"

definition appsUpdateRule :: "(requester \<Rightarrow> bool) option" where
  "appsUpdateRule = None"

definition commandsCreateRule :: "(requester \<Rightarrow> bool) option" where
  "commandsCreateRule = Some signedIn"

definition settingsUpdateRule :: "(requester \<Rightarrow> bool) option" where
  "settingsUpdateRule = Some signedIn"

definition patchApp :: "'f hubEnv \<Rightarrow> requester \<Rightarrow> string \<Rightarrow> (AppRec \<Rightarrow> AppRec) \<Rightarrow> 'f hub
    \<Rightarrow> apiError option \<times> 'f hub" where
  "patchApp env who appID change h =
     (if \<not> admits appsUpdateRule who then (Some (Forbidden ''only superusers can perform this action''), h)
      else case findRecord appID (huApps h) of
          None \<Rightarrow> (Some (BadRequest ''unknown app''), h)
        | Some r \<Rightarrow>
            (case updateApp env appID (change r) h of
               (Some e, h1) \<Rightarrow> (Some (BadRequest e), h1)
             | (None, h1) \<Rightarrow> (None, SyncSystem env (arSystem (change r)) h1)))"

lemma patchApp_user:
  "who \<noteq> Superuser \<Longrightarrow> patchApp env who appID change h = (Some (Forbidden ''only superusers can perform this action''), h)"
  by (simp add: patchApp_def admits_def appsUpdateRule_def)

definition clientOf :: "string option \<Rightarrow> requester" where
  "clientOf user = (case user of None \<Rightarrow> Visitor | Some u \<Rightarrow> User u)"

lemma patchApp_client [simp]: "snd (patchApp env (clientOf user) appID change h) = h"
  by (simp add: patchApp_user clientOf_def split: option.split)

subsection \<open>Enrollment\<close>

record EnrollToken =
  etExpiresAt :: int
  etUsedAt :: "int option"
  etCreatedBy :: string

text \<open>
  The tokens, by the hash of their text (the index is unique). The text itself is returned once
  and not stored; \<open>hashf\<close> is SHA-256 in hexadecimal, a parameter.
\<close>

definition tokenTTL :: int where
  "tokenTTL = 30 * 60 * second"

definition mintToken :: "(string \<Rightarrow> string) \<Rightarrow> 'f hubEnv \<Rightarrow> string option \<Rightarrow> string \<Rightarrow> EnrollToken table
    \<Rightarrow> (apiError + string) \<times> EnrollToken table" where
  "mintToken hashf env user raw ts =
     (case user of
        None \<Rightarrow> (Inl (Unauthorized ''authentication required''), ts)
      | Some u \<Rightarrow>
          (let token = ''bbe_'' @ raw in
           if enSave env (hashf token) \<and> findRecord (hashf token) ts = None
           then (Inr token, saveRecord (hashf token)
                  \<lparr>etExpiresAt = enNow env + tokenTTL, etUsedAt = None, etCreatedBy = u\<rparr> ts)
           else (Inl (InternalError []), ts)))"

text \<open>
  Redeeming: the checks, which read the token's record, and the transaction, which writes the
  record it has read. \<open>hex4\<close> is the text of the first four bytes of a key.
\<close>

definition enrollCheck :: "(string \<Rightarrow> string) \<Rightarrow> 'f hubEnv \<Rightarrow> string \<Rightarrow> string \<Rightarrow> EnrollToken table
    \<Rightarrow> apiError + (string \<times> EnrollToken)" where
  "enrollCheck hashf env tokenText pubB64 ts =
     (let token = trimSpace tokenText in
      if token = [] \<or> pubB64 = [] then Inl (BadRequest ''token and public_key are required'')
      else case b64decode pubB64 of
          None \<Rightarrow> Inl (BadRequest ''public_key must be a base64 Ed25519 public key'')
        | Some pub \<Rightarrow>
            if length pub \<noteq> 32 then Inl (BadRequest ''public_key must be a base64 Ed25519 public key'')
            else (case findRecord (hashf token) ts of
                None \<Rightarrow> Inl (Unauthorized ''invalid enrollment token'')
              | Some t \<Rightarrow>
                  if etUsedAt t \<noteq> None then Inl (Unauthorized ''enrollment token already used'')
                  else if etExpiresAt t < enNow env then Inl (Unauthorized ''enrollment token expired'')
                  else Inr (hashf token, t)))"

definition enrolledSystem :: "(string \<Rightarrow> string) \<Rightarrow> string \<Rightarrow> string \<Rightarrow> SystemRec" where
  "enrolledSystem hex4 name pubB64 =
     \<lparr>syName = (if name = [] then ''system-'' @ hex4 pubB64 else name), syOS = [], syArch = [],
      syHostname = [], syVersion = [], syPublicKey = pubB64, syStatus = ''offline'', syLastSeen = 0,
      syCapabilities = []\<rparr>"

definition enrollCommit :: "'f hubEnv \<Rightarrow> string \<times> EnrollToken \<Rightarrow> SystemRec
    \<Rightarrow> EnrollToken table \<times> SystemRec table \<Rightarrow> (apiError + string) \<times> EnrollToken table \<times> SystemRec table" where
  "enrollCommit env kt sys = (\<lambda>(ts, ss).
     if enSave env (enNewID env) \<and> findRecord (enNewID env) ss = None \<and> enSave env (fst kt)
     then (Inr (enNewID env), saveRecord (fst kt) ((snd kt)\<lparr>etUsedAt := Some (enNow env)\<rparr>) ts,
           saveRecord (enNewID env) sys ss)
     else (Inl (InternalError ''enrollment failed''), ts, ss))"

definition enroll :: "(string \<Rightarrow> string) \<Rightarrow> (string \<Rightarrow> string) \<Rightarrow> 'f hubEnv \<Rightarrow> string \<Rightarrow> string \<Rightarrow> string
    \<Rightarrow> EnrollToken table \<times> SystemRec table \<Rightarrow> (apiError + string) \<times> EnrollToken table \<times> SystemRec table" where
  "enroll hashf hex4 env tokenText pubB64 name = (\<lambda>(ts, ss).
     case enrollCheck hashf env tokenText pubB64 ts of
       Inl e \<Rightarrow> (Inl e, ts, ss)
     | Inr kt \<Rightarrow> enrollCommit env kt (enrolledSystem hex4 name pubB64) (ts, ss))"

subsection \<open>The first user\<close>

text \<open>\<open>ok\<close>: the store accepts the user (a valid address and password, not taken).\<close>

definition setupCheck :: "string list \<Rightarrow> apiError option" where
  "setupCheck users = (if length users > 0 then Some (Forbidden ''setup already completed'') else None)"

definition setupCreate :: "bool \<Rightarrow> (string \<times> string) option \<Rightarrow> string list
    \<Rightarrow> apiError option \<times> string list" where
  "setupCreate ok body users =
     (case body of
        None \<Rightarrow> (Some (BadRequest ''invalid body''), users)
      | Some (email, password) \<Rightarrow>
          if ok then (None, users @ [email]) else (Some (BadRequest ''could not create user''), users))"

definition setupFirstUser :: "bool \<Rightarrow> (string \<times> string) option \<Rightarrow> string list
    \<Rightarrow> apiError option \<times> string list" where
  "setupFirstUser ok body users =
     (case setupCheck users of Some e \<Rightarrow> (Some e, users) | None \<Rightarrow> setupCreate ok body users)"

end
