(* ===== verification/Json.thy ===== *)
theory Json
  imports BB_Prelude
begin

text \<open>
  \<^verbatim>\<open>encoding/json\<close> as the program uses it: the reader behind \<^verbatim>\<open>json.Unmarshal\<close> and
  \<^verbatim>\<open>json.Valid\<close>, the writer behind \<^verbatim>\<open>json.Marshal\<close>, and the rules by which a value is stored in a
  Go struct. Documents are byte strings. A number is its literal and an object is its members in
  order, duplicates included, because what is stored in an integer field depends on the literal and
  a repeated name is stored twice.
\<close>

datatype Json =
    JNull
  | JBool bool
  | JNum string
  | JStr string
  | JArr "Json list"
  | JObj "(string \<times> Json) list"

subsection \<open>UTF-8\<close>

text \<open>
  \<open>runeSize s\<close> is the length of the multi-byte UTF-8 sequence at the head of \<open>s\<close>, or 0 when there is
  none (\<^verbatim>\<open>utf8.DecodeRune\<close> reports the replacement character then, and a width of one).
\<close>

definition byteIn :: "nat \<Rightarrow> nat \<Rightarrow> string \<Rightarrow> nat \<Rightarrow> bool" where
  "byteIn lo hi s i \<longleftrightarrow> i < length s \<and> lo \<le> (of_char (s ! i) :: nat) \<and> (of_char (s ! i) :: nat) \<le> hi"

definition seq2 :: "string \<Rightarrow> bool" where
  "seq2 s \<longleftrightarrow> byteIn 0xC2 0xDF s 0 \<and> byteIn 0x80 0xBF s 1"

definition seq3 :: "string \<Rightarrow> bool" where
  "seq3 s \<longleftrightarrow> byteIn 0xE0 0xEF s 0
     \<and> byteIn (if byteIn 0xE0 0xE0 s 0 then 0xA0 else 0x80) (if byteIn 0xED 0xED s 0 then 0x9F else 0xBF) s 1
     \<and> byteIn 0x80 0xBF s 2"

definition seq4 :: "string \<Rightarrow> bool" where
  "seq4 s \<longleftrightarrow> byteIn 0xF0 0xF4 s 0
     \<and> byteIn (if byteIn 0xF0 0xF0 s 0 then 0x90 else 0x80) (if byteIn 0xF4 0xF4 s 0 then 0x8F else 0xBF) s 1
     \<and> byteIn 0x80 0xBF s 2 \<and> byteIn 0x80 0xBF s 3"

definition runeSize :: "string \<Rightarrow> nat" where
  "runeSize s = (if seq2 s then 2 else if seq3 s then 3 else if seq4 s then 4 else 0)"

definition replacement :: string where
  "replacement = [CHR 0xEF, CHR 0xBF, CHR 0xBD]"

text \<open>\<^verbatim>\<open>utf8.EncodeRune\<close> of a code point that is not a surrogate.\<close>

definition utf8Enc :: "nat \<Rightarrow> string" where
  "utf8Enc r =
     (if r < 0x80 then [char_of r]
      else if r < 0x800 then [char_of (0xC0 + r div 64), char_of (0x80 + r mod 64)]
      else if r < 0x10000 then
        [char_of (0xE0 + r div 4096), char_of (0x80 + r div 64 mod 64), char_of (0x80 + r mod 64)]
      else [char_of (0xF0 + r div 262144), char_of (0x80 + r div 4096 mod 64),
            char_of (0x80 + r div 64 mod 64), char_of (0x80 + r mod 64)])"

text \<open>The string with every byte that belongs to no UTF-8 sequence replaced.\<close>

function utf8Fix :: "string \<Rightarrow> string" where
  "utf8Fix [] = []"
| "utf8Fix (c # r) =
     (if (of_char c :: nat) < 128 then c # utf8Fix r
      else if runeSize (c # r) = 0 then replacement @ utf8Fix r
      else take (runeSize (c # r)) (c # r) @ utf8Fix (drop (runeSize (c # r) - 1) r))"
  by pat_completeness auto
termination by (relation "measure length") auto

definition validUtf8 :: "string \<Rightarrow> bool" where
  "validUtf8 s \<longleftrightarrow> utf8Fix s = s"

lemma byteIn_append: "i < length a \<Longrightarrow> byteIn lo hi (a @ b) i = byteIn lo hi a i"
  by (simp add: byteIn_def nth_append)

lemma byteIn_take: "i < n \<Longrightarrow> byteIn lo hi (take n s) i = byteIn lo hi s i"
  by (auto simp: byteIn_def)

lemma byteIn_length: "byteIn lo hi s i \<Longrightarrow> i < length s"
  by (simp add: byteIn_def)

lemma seq_length: "seq2 s \<Longrightarrow> 1 < length s" "seq3 s \<Longrightarrow> 2 < length s" "seq4 s \<Longrightarrow> 3 < length s"
  using byteIn_length by (auto simp only: seq2_def seq3_def seq4_def)

lemma runeSize_le: "runeSize s \<le> length s"
  using seq_length [of s] by (cases "seq2 s"; cases "seq3 s"; cases "seq4 s"; simp add: runeSize_def)

lemma runeSize_cases: "runeSize s \<in> {0, 2, 3, 4}"
  by (simp add: runeSize_def)

lemma seq_lead: "seq3 s \<Longrightarrow> \<not> seq2 s" "seq4 s \<Longrightarrow> \<not> seq2 s \<and> \<not> seq3 s"
  by (auto simp: seq2_def seq3_def seq4_def byteIn_def)

text \<open>The bytes after the sequence do not matter.\<close>

lemma runeSize_take_append:
  assumes "runeSize s \<noteq> 0"
  shows "runeSize (take (runeSize s) s @ t) = runeSize s"
proof -
  let ?n = "runeSize s"
  have len: "length (take ?n s) = ?n" using runeSize_le [of s] by simp
  have eq: "byteIn lo hi (take ?n s @ t) i = byteIn lo hi s i" if "i < ?n" for lo hi i
    using that len by (simp add: byteIn_append byteIn_take)
  consider (two) "seq2 s" | (three) "seq3 s" "\<not> seq2 s" | (four) "seq4 s" "\<not> seq2 s" "\<not> seq3 s"
    using assms by (auto simp: runeSize_def split: if_splits)
  then show ?thesis
  proof cases
    case two
    then have n: "?n = 2" by (simp add: runeSize_def)
    have "seq2 (take 2 s @ t)" using two eq [unfolded n] by (simp add: seq2_def)
    with n show ?thesis by (simp add: runeSize_def)
  next
    case three
    then have n: "?n = 3" by (simp add: runeSize_def)
    have "seq3 (take 3 s @ t)" using three(1) eq [unfolded n] by (simp add: seq3_def)
    with seq_lead(1) [OF this] n show ?thesis by (simp add: runeSize_def)
  next
    case four
    then have n: "?n = 4" by (simp add: runeSize_def)
    have "seq4 (take 4 s @ t)" using four(1) eq [unfolded n] by (simp add: seq4_def)
    with seq_lead(2) [OF this] n show ?thesis by (simp add: runeSize_def)
  qed
qed

lemma runeSize_ascii: "(of_char c :: nat) < 128 \<Longrightarrow> runeSize (c # r) = 0"
  by (simp add: runeSize_def seq2_def seq3_def seq4_def byteIn_def)

subsection \<open>Reading\<close>

definition isWs :: "char \<Rightarrow> bool" where
  "isWs c \<longleftrightarrow> c \<in> {CHR 0x20, CHR 0x09, CHR 0x0D, CHR 0x0A}"

definition skipWs :: "string \<Rightarrow> string" where
  "skipWs s = dropWhile isWs s"

definition hexVal :: "char \<Rightarrow> nat option" where
  "hexVal c =
     (let n = of_char c :: nat in
      if 48 \<le> n \<and> n \<le> 57 then Some (n - 48)
      else if 97 \<le> n \<and> n \<le> 102 then Some (n - 87)
      else if 65 \<le> n \<and> n \<le> 70 then Some (n - 55) else None)"

fun hex4 :: "string \<Rightarrow> (nat \<times> string) option" where
  "hex4 (a # b # c # d # r) =
     (case (hexVal a, hexVal b, hexVal c, hexVal d) of
        (Some w, Some x, Some y, Some z) \<Rightarrow> Some (4096 * w + 256 * x + 16 * y + z, r)
      | _ \<Rightarrow> None)"
| "hex4 _ = None"

text \<open>
  A \<^verbatim>\<open>\u\<close> escape after its four digits: a surrogate pair is one code point, a lone surrogate is
  the replacement character and leaves what follows to be read on its own.
\<close>

definition unicodeEscape :: "nat \<Rightarrow> string \<Rightarrow> string \<times> string" where
  "unicodeEscape u r =
     (if 0xD800 \<le> u \<and> u < 0xE000 then
        (case (if take 2 r = [CHR 0x5C, CHR ''u''] then hex4 (drop 2 r) else None) of
           Some (v, r') \<Rightarrow>
             if u < 0xDC00 \<and> 0xDC00 \<le> v \<and> v < 0xE000
             then (utf8Enc (0x10000 + (u - 0xD800) * 1024 + (v - 0xDC00)), r') else (replacement, r)
         | None \<Rightarrow> (replacement, r))
      else (utf8Enc u, r))"

text \<open>One escape sequence, after the backslash.\<close>

fun readEscape :: "string \<Rightarrow> (string \<times> string) option" where
  "readEscape [] = None"
| "readEscape (e # r) =
     (if e = CHR 0x22 \<or> e = CHR 0x5C \<or> e = CHR ''/'' then Some ([e], r)
      else if e = CHR ''b'' then Some ([CHR 0x08], r)
      else if e = CHR ''f'' then Some ([CHR 0x0C], r)
      else if e = CHR ''n'' then Some ([CHR 0x0A], r)
      else if e = CHR ''r'' then Some ([CHR 0x0D], r)
      else if e = CHR ''t'' then Some ([CHR 0x09], r)
      else if e = CHR ''u'' then map_option (\<lambda>(u, r'). unicodeEscape u r') (hex4 r)
      else None)"

lemma hex4_shorter: "hex4 r = Some (u, r') \<Longrightarrow> length r' < length r"
  by (induction r rule: hex4.induct) (auto split: option.splits)

lemma unicodeEscape_shorter: "length (snd (unicodeEscape u r)) \<le> length r"
proof (cases "hex4 (drop 2 r)")
  case (Some p)
  obtain v r' where p: "p = (v, r')" by (cases p)
  from hex4_shorter Some p have "length r' < length (drop 2 r)" by blast
  then have "length r' \<le> length r" by simp
  with Some p show ?thesis by (simp add: unicodeEscape_def)
qed (simp add: unicodeEscape_def)

lemma readEscape_shorter: "readEscape s = Some (out, r) \<Longrightarrow> length r < length s"
proof (induction s rule: readEscape.induct)
  case (2 e t)
  show ?case
  proof (cases "\<exists>u t'. hex4 t = Some (u, t') \<and> unicodeEscape u t' = (out, r)")
    case True
    then obtain u t' where h: "hex4 t = Some (u, t')" "unicodeEscape u t' = (out, r)" by blast
    from hex4_shorter [OF h(1)] unicodeEscape_shorter [of u t'] h(2) show ?thesis by simp
  next
    case False
    with 2 show ?thesis by (auto split: if_splits)
  qed
qed simp

text \<open>
  A string literal after its opening quote: the value and the rest of the input. Control
  characters are refused; bytes that are not UTF-8 are replaced.
\<close>

function readString :: "string \<Rightarrow> (string \<times> string) option" where
  "readString [] = None"
| "readString (c # r) =
     (if c = CHR 0x22 then Some ([], r)
      else if c = CHR 0x5C then
        (case readEscape r of
           None \<Rightarrow> None
         | Some (out, r') \<Rightarrow> map_option (apfst ((@) out)) (readString r'))
      else if (of_char c :: nat) < 32 then None
      else if (of_char c :: nat) < 128 then map_option (apfst ((#) c)) (readString r)
      else if runeSize (c # r) = 0 then map_option (apfst ((@) replacement)) (readString r)
      else map_option (apfst ((@) (take (runeSize (c # r)) (c # r))))
             (readString (drop (runeSize (c # r) - 1) r)))"
  by pat_completeness auto
termination
  by (relation "measure length") (auto dest: readEscape_shorter)

declare readString.simps [simp del] utf8Fix.simps [simp del]

lemma readString_step:
  assumes "readString (c # t) = Some (v, r)"
  shows "r = t \<or> (\<exists>v' s'. length s' \<le> length t \<and> readString s' = Some (v', r))"
proof (cases "c = CHR 0x5C")
  case True
  with assms obtain out s' v' where "readEscape t = Some (out, s')" "readString s' = Some (v', r)"
    by (auto simp: readString.simps split: option.splits)
  with readEscape_shorter show ?thesis by (meson less_imp_le)
next
  case False
  let ?d = "drop (runeSize (c # t) - 1) t"
  from False assms have "r = t \<or> (\<exists>v'. readString t = Some (v', r)) \<or> (\<exists>v'. readString ?d = Some (v', r))"
    by (auto simp: readString.simps split: if_splits option.splits)
  moreover have "length ?d \<le> length t" by simp
  ultimately show ?thesis by blast
qed

lemma readString_shorter: "readString s = Some (v, r) \<Longrightarrow> length r < length s"
proof (induction s arbitrary: v r rule: length_induct)
  case (1 s)
  then obtain c t where s: "s = c # t" by (cases s) (auto simp: readString.simps)
  from readString_step "1.prems" s have "r = t \<or> (\<exists>v' s'. length s' \<le> length t \<and> readString s' = Some (v', r))" by blast
  then show ?case
  proof (elim disjE exE conjE)
    fix v' s' assume h: "length s' \<le> length t" "readString s' = Some (v', r)"
    with "1.IH" s have "length r < length s'" by auto
    with h s show ?thesis by simp
  qed (simp add: s)
qed

text \<open>A number literal: an optional minus, digits without a leading zero, a fraction, an exponent.\<close>

definition isDigit :: "char \<Rightarrow> bool" where
  "isDigit c \<longleftrightarrow> 48 \<le> (of_char c :: nat) \<and> (of_char c :: nat) \<le> 57"

definition readDigits :: "string \<Rightarrow> string \<Rightarrow> (string \<times> string) option" where
  "readDigits acc s =
     (if takeWhile isDigit s = [] then None else Some (acc @ takeWhile isDigit s, dropWhile isDigit s))"

definition readInt :: "string \<Rightarrow> string \<Rightarrow> (string \<times> string) option" where
  "readInt acc s =
     (if hasPrefix s ''0'' then Some (acc @ ''0'', tl s) else readDigits acc s)"

definition readFrac :: "string \<Rightarrow> string \<Rightarrow> (string \<times> string) option" where
  "readFrac acc s = (if hasPrefix s ''.'' then readDigits (acc @ ''.'') (tl s) else Some (acc, s))"

definition readExp :: "string \<Rightarrow> string \<Rightarrow> (string \<times> string) option" where
  "readExp acc s =
     (if hasPrefix s ''e'' \<or> hasPrefix s ''E'' then
        (let t = tl s; a = acc @ take 1 s
         in if hasPrefix t ''+'' \<or> hasPrefix t ''-'' then readDigits (a @ take 1 t) (tl t)
            else readDigits a t)
      else Some (acc, s))"

definition readNumber :: "string \<Rightarrow> (string \<times> string) option" where
  "readNumber s =
     (let neg = hasPrefix s ''-''; a0 = (if neg then ''-'' else []); s0 = (if neg then tl s else s)
      in case readInt a0 s0 of
           None \<Rightarrow> None
         | Some (a1, s1) \<Rightarrow>
             (case readFrac a1 s1 of None \<Rightarrow> None | Some (a2, s2) \<Rightarrow> readExp a2 s2))"

text \<open>
  Values. \<open>fuel\<close> bounds the calls; \<open>depth\<close> is the nesting that is left of the 10000 levels the
  decoder admits.
\<close>

fun readValue :: "nat \<Rightarrow> int \<Rightarrow> string \<Rightarrow> (Json \<times> string) option"
and readElems :: "nat \<Rightarrow> int \<Rightarrow> string \<Rightarrow> (Json list \<times> string) option"
and readMembers :: "nat \<Rightarrow> int \<Rightarrow> string \<Rightarrow> ((string \<times> Json) list \<times> string) option"
where
  "readValue 0 depth s = None"
| "readValue (Suc fuel) depth s =
     (case skipWs s of
        [] \<Rightarrow> None
      | c # r \<Rightarrow>
          if c = CHR 0x22 then map_option (apfst JStr) (readString r)
          else if c = CHR ''['' then
            (if depth \<le> 0 then None
             else if hasPrefix (skipWs r) '']'' then Some (JArr [], tl (skipWs r))
             else map_option (apfst JArr) (readElems fuel (depth - 1) r))
          else if c = CHR ''{'' then
            (if depth \<le> 0 then None
             else if hasPrefix (skipWs r) ''}'' then Some (JObj [], tl (skipWs r))
             else map_option (apfst JObj) (readMembers fuel (depth - 1) r))
          else if hasPrefix (c # r) ''null'' then Some (JNull, drop 4 (c # r))
          else if hasPrefix (c # r) ''true'' then Some (JBool True, drop 4 (c # r))
          else if hasPrefix (c # r) ''false'' then Some (JBool False, drop 5 (c # r))
          else if c = CHR ''-'' \<or> isDigit c then map_option (apfst JNum) (readNumber (c # r))
          else None)"
| "readElems 0 depth s = None"
| "readElems (Suc fuel) depth s =
     (case readValue fuel depth s of
        None \<Rightarrow> None
      | Some (v, r) \<Rightarrow>
          if hasPrefix (skipWs r) '','' then
            map_option (apfst ((#) v)) (readElems fuel depth (tl (skipWs r)))
          else if hasPrefix (skipWs r) '']'' then Some ([v], tl (skipWs r))
          else None)"
| "readMembers 0 depth s = None"
| "readMembers (Suc fuel) depth s =
     (if \<not> hasPrefix (skipWs s) [CHR 0x22] then None
      else case readString (tl (skipWs s)) of
        None \<Rightarrow> None
      | Some (k, r) \<Rightarrow>
          if \<not> hasPrefix (skipWs r) '':'' then None
          else case readValue fuel depth (tl (skipWs r)) of
            None \<Rightarrow> None
          | Some (v, r') \<Rightarrow>
              if hasPrefix (skipWs r') '','' then
                map_option (apfst ((#) (k, v))) (readMembers fuel depth (tl (skipWs r')))
              else if hasPrefix (skipWs r') ''}'' then Some ([(k, v)], tl (skipWs r'))
              else None)"

declare readValue.simps [simp del] readElems.simps [simp del] readMembers.simps [simp del]

definition maxDepth :: int where
  "maxDepth = 10000"

definition readJson :: "string \<Rightarrow> Json option" where
  "readJson s =
     (case readValue (2 * length s + 2) maxDepth s of
        Some (v, r) \<Rightarrow> if skipWs r = [] then Some v else None
      | None \<Rightarrow> None)"

definition jsonValid :: "string \<Rightarrow> bool" where
  "jsonValid s \<longleftrightarrow> readJson s \<noteq> None"

text \<open>Reading consumes input, so the fuel the reader is given never runs out: more of it changes nothing.\<close>

lemma skipWs_le: "length (skipWs s) \<le> length s"
  by (simp add: skipWs_def length_dropWhile_le)

lemma dropWhile_digits_le: "length (dropWhile isDigit s) \<le> length s"
  by (rule length_dropWhile_le)

lemma readDigits_le: "readDigits a s = Some (b, r) \<Longrightarrow> length r < length s"
proof -
  assume "readDigits a s = Some (b, r)"
  then have "takeWhile isDigit s \<noteq> []" "r = dropWhile isDigit s"
    by (auto simp: readDigits_def split: if_splits)
  then show ?thesis
    by (cases s) (auto simp: less_Suc_eq_le length_dropWhile_le split: if_splits)
qed

lemma readNumber_shorter: "readNumber s = Some (b, r) \<Longrightarrow> length r < length s"
proof -
  assume h: "readNumber s = Some (b, r)"
  let ?s0 = "if hasPrefix s ''-'' then tl s else s"
  from h obtain a1 s1 a2 s2 where
      i: "readInt (if hasPrefix s ''-'' then ''-'' else []) ?s0 = Some (a1, s1)"
      and f: "readFrac a1 s1 = Some (a2, s2)" and e: "readExp a2 s2 = Some (b, r)"
    by (auto simp: readNumber_def Let_def split: option.splits)
  from i have "length s1 < length ?s0"
    by (cases ?s0) (auto simp: readInt_def hasPrefix_def dest: readDigits_le split: if_splits)
  moreover from f have "length s2 \<le> length s1"
    by (auto simp: readFrac_def dest: readDigits_le split: if_splits)
  moreover from e have "length r \<le> length s2"
    by (auto simp: readExp_def Let_def dest!: readDigits_le split: if_splits)
  ultimately show ?thesis by (auto split: if_splits)
qed

lemma tl_less: "hasPrefix s [c] \<Longrightarrow> length (tl s) < length s"
  by (cases s) (auto simp: hasPrefix_def)

lemma tl_skipWs_less: "hasPrefix (skipWs s) [c] \<Longrightarrow> length (tl (skipWs s)) < length s"
  using tl_less skipWs_le order_less_le_trans by blast

lemma read_shorter:
  "readValue f d s = Some (v, r) \<Longrightarrow> length r < length s"
  "readElems f d s = Some (vs, r) \<Longrightarrow> length r < length s"
  "readMembers f d s = Some (ms, r) \<Longrightarrow> length r < length s"
proof (induction f arbitrary: d s v vs ms r)
  case 0
  { case 1 then show ?case by (simp add: readValue.simps) }
  { case 2 then show ?case by (simp add: readElems.simps) }
  { case 3 then show ?case by (simp add: readMembers.simps) }
next
  case (Suc f)
  { case 1
    then obtain c t where st: "skipWs s = c # t" by (auto simp: readValue.simps split: list.splits)
    have le: "length t < length s" using skipWs_le [of s] st by simp
    have "length r \<le> length t"
    proof -
      consider (str) v' where "readString t = Some (v', r)"
        | (elems) vs' where "readElems f (d - 1) t = Some (vs', r)"
        | (members) ms' where "readMembers f (d - 1) t = Some (ms', r)"
        | (num) l where "readNumber (c # t) = Some (l, r)"
        | (empty) "r = tl (skipWs t)" | (word) n where "r = drop n t"
        using 1 unfolding readValue.simps st by (auto split: if_splits)
      then show ?thesis
      proof cases
        case str then show ?thesis using readString_shorter by fastforce
      next
        case elems then show ?thesis using Suc.IH(2) by fastforce
      next
        case members then show ?thesis using Suc.IH(3) by fastforce
      next
        case num then show ?thesis using readNumber_shorter [OF num] by simp
      next
        case empty then show ?thesis using skipWs_le [of t] by simp
      next
        case word then show ?thesis by simp
      qed
    qed
    with le show ?case by simp }
  { case 2
    then obtain v' r' where v: "readValue f d s = Some (v', r')"
      and h: "(\<exists>vs'. hasPrefix (skipWs r') '','' \<and> readElems f d (tl (skipWs r')) = Some (vs', r))
        \<or> (hasPrefix (skipWs r') '']'' \<and> r = tl (skipWs r'))"
      by (auto simp: readElems.simps split: option.splits if_splits)
    from Suc.IH(1) [OF v] have "length r' < length s" .
    moreover from h have "length r < length r'"
      using Suc.IH(2) tl_skipWs_less by (meson order_less_trans)
    ultimately show ?case by simp }
  { case 3
    then obtain k r1 where k: "hasPrefix (skipWs s) [CHR 0x22]" "readString (tl (skipWs s)) = Some (k, r1)"
      by (auto simp: readMembers.simps split: option.splits if_splits)
    with 3 obtain v' r' where v: "hasPrefix (skipWs r1) '':''" "readValue f d (tl (skipWs r1)) = Some (v', r')"
      and h: "(\<exists>ms'. hasPrefix (skipWs r') '','' \<and> readMembers f d (tl (skipWs r')) = Some (ms', r))
        \<or> (hasPrefix (skipWs r') ''}'' \<and> r = tl (skipWs r'))"
      by (auto simp: readMembers.simps split: option.splits if_splits)
    from k have "length r1 < length s" using readString_shorter tl_skipWs_less by (meson order_less_trans)
    moreover from v have "length r' < length r1" using Suc.IH(1) tl_skipWs_less by (meson order_less_trans)
    moreover from h have "length r < length r'"
      using Suc.IH(3) tl_skipWs_less by (meson order_less_trans)
    ultimately show ?case by simp }
qed

lemma fuel_step:
  "2 * length s < f \<Longrightarrow> readValue (Suc f) d s = readValue f d s"
  "2 * length s + 1 < f \<Longrightarrow> readElems (Suc f) d s = readElems f d s"
  "2 * length s < f \<Longrightarrow> readMembers (Suc f) d s = readMembers f d s"
proof (induction f arbitrary: d s)
  case 0
  { case 1 then show ?case by simp }
  { case 2 then show ?case by simp }
  { case 3 then show ?case by simp }
next
  case (Suc f)
  { case 1
    have "readElems (Suc f) (d - 1) t = readElems f (d - 1) t
        \<and> readMembers (Suc f) (d - 1) t = readMembers f (d - 1) t" if "skipWs s = c # t" for c t
      using Suc.IH(2,3) [of t] 1 that skipWs_le [of s] by simp
    then show ?case by (simp add: readValue.simps split: list.split) }
  { case 2
    have "readElems (Suc f) d (tl (skipWs r)) = readElems f d (tl (skipWs r))"
      if "readValue f d s = Some (v, r)" "hasPrefix (skipWs r) '',''" for v r
    proof (rule Suc.IH(2))
      from that read_shorter(1) tl_skipWs_less have "length (tl (skipWs r)) < length s" by (meson order_less_trans)
      with 2 show "2 * length (tl (skipWs r)) + 1 < f" by simp
    qed
    with Suc.IH(1) [of s] 2 show ?case by (simp add: readElems.simps split: option.split) }
  { case 3
    have v: "readValue (Suc f) d (tl (skipWs r)) = readValue f d (tl (skipWs r))"
      if "hasPrefix (skipWs s) [CHR 0x22]" "readString (tl (skipWs s)) = Some (k, r)" "hasPrefix (skipWs r) '':''" for k r
    proof (rule Suc.IH(1))
      from that readString_shorter tl_skipWs_less have "length (tl (skipWs r)) < length s" by (meson order_less_trans)
      with 3 show "2 * length (tl (skipWs r)) < f" by simp
    qed
    have m: "readMembers (Suc f) d (tl (skipWs r')) = readMembers f d (tl (skipWs r'))"
      if "hasPrefix (skipWs s) [CHR 0x22]" "readString (tl (skipWs s)) = Some (k, r)" "hasPrefix (skipWs r) '':''"
        "readValue f d (tl (skipWs r)) = Some (v, r')" "hasPrefix (skipWs r') '',''" for k r v r'
    proof (rule Suc.IH(3))
      from that readString_shorter read_shorter(1) tl_skipWs_less
      have "length (tl (skipWs r')) < length s" by (meson order_less_trans)
      with 3 show "2 * length (tl (skipWs r')) < f" by simp
    qed
    show ?case
    proof (cases "hasPrefix (skipWs s) [CHR 0x22]")
      case True
      show ?thesis
      proof (cases "readString (tl (skipWs s))")
        case None then show ?thesis by (simp add: readMembers.simps)
      next
        case (Some p)
        obtain k r where p: "p = (k, r)" by (cases p)
        with True Some v [of k r] m [of k r] show ?thesis
          by (simp add: readMembers.simps split: option.split)
      qed
    qed (simp add: readMembers.simps) }
qed

lemma fuel_enough: "2 * length s < f \<Longrightarrow> readValue f d s = readValue (2 * length s + 1) d s"
proof (induction f)
  case (Suc f)
  show ?case
  proof (cases "2 * length s < f")
    case True with Suc fuel_step(1) show ?thesis by simp
  next
    case False with Suc.prems have "f = 2 * length s" by simp
    then show ?thesis by simp
  qed
qed simp

subsection \<open>Writing\<close>

text \<open>
  \<^verbatim>\<open>json.Marshal\<close> escapes the quote, the backslash, control characters and, for HTML, \<^verbatim>\<open><\<close>,
  \<^verbatim>\<open>>\<close>, \<^verbatim>\<open>&\<close>, U+2028 and U+2029; a byte that is not UTF-8 is written as the replacement character.
\<close>

definition hexDigit :: "nat \<Rightarrow> char" where
  "hexDigit n = char_of (if n < 10 then 48 + n else 87 + n)"

definition escByte :: "char \<Rightarrow> string" where
  "escByte c =
     (let n = of_char c :: nat in
      if c = CHR 0x22 \<or> c = CHR 0x5C then [CHR 0x5C, c]
      else if n = 8 then [CHR 0x5C, CHR ''b'']
      else if n = 12 then [CHR 0x5C, CHR ''f'']
      else if n = 10 then [CHR 0x5C, CHR ''n'']
      else if n = 13 then [CHR 0x5C, CHR ''r'']
      else if n = 9 then [CHR 0x5C, CHR ''t'']
      else if n < 32 \<or> c = CHR ''<'' \<or> c = CHR ''>'' \<or> c = CHR ''&''
        then [CHR 0x5C, CHR ''u'', CHR ''0'', CHR ''0'', hexDigit (n div 16), hexDigit (n mod 16)]
      else [c])"

function writeChars :: "string \<Rightarrow> string" where
  "writeChars [] = []"
| "writeChars (c # r) =
     (if (of_char c :: nat) < 128 then escByte c @ writeChars r
      else if runeSize (c # r) = 0 then [CHR 0x5C, CHR ''u'', CHR ''f'', CHR ''f'', CHR ''f'', CHR ''d''] @ writeChars r
      else
        (let q = take (runeSize (c # r)) (c # r) in
         (if q = [CHR 0xE2, CHR 0x80, CHR 0xA8] then [CHR 0x5C, CHR ''u'', CHR ''2'', CHR ''0'', CHR ''2'', CHR ''8'']
          else if q = [CHR 0xE2, CHR 0x80, CHR 0xA9] then [CHR 0x5C, CHR ''u'', CHR ''2'', CHR ''0'', CHR ''2'', CHR ''9'']
          else q) @ writeChars (drop (runeSize (c # r) - 1) r)))"
  by pat_completeness auto
termination by (relation "measure length") auto

declare writeChars.simps [simp del]

definition writeString :: "string \<Rightarrow> string" where
  "writeString s = CHR 0x22 # writeChars s @ [CHR 0x22]"

fun writeJson :: "Json \<Rightarrow> string"
and writeElems :: "Json list \<Rightarrow> string"
and writeMembers :: "(string \<times> Json) list \<Rightarrow> string"
where
  "writeJson JNull = ''null''"
| "writeJson (JBool b) = (if b then ''true'' else ''false'')"
| "writeJson (JNum l) = l"
| "writeJson (JStr s) = writeString s"
| "writeJson (JArr vs) = CHR ''['' # writeElems vs @ '']''"
| "writeJson (JObj ms) = CHR ''{'' # writeMembers ms @ ''}''"
| "writeElems [] = []"
| "writeElems [v] = writeJson v"
| "writeElems (v # w # vs) = writeJson v @ '','' @ writeElems (w # vs)"
| "writeMembers [] = []"
| "writeMembers [(k, v)] = writeString k @ '':'' @ writeJson v"
| "writeMembers ((k, v) # m # ms) = writeString k @ '':'' @ writeJson v @ '','' @ writeMembers (m # ms)"

subsection \<open>What is written is read back\<close>

lemma hexVal_hexDigit: "n < 16 \<Longrightarrow> hexVal (hexDigit n) = Some n"
  by (simp add: hexVal_def hexDigit_def)

lemma readString_ascii_escape:
  assumes "readEscape (e # t) = Some (out, t)"
  shows "readString (CHR 0x5C # e # t) = map_option (apfst ((@) out)) (readString t)"
  using assms by (simp add: readString.simps)

lemma unicodeEscape_plain: "u < 0xD800 \<or> 0xE000 \<le> u \<Longrightarrow> unicodeEscape u t = (utf8Enc u, t)"
  by (auto simp: unicodeEscape_def)

lemma readString_unicode:
  assumes "hex4 (a # b # c # d # t) = Some (u, t)" "u < 0xD800 \<or> 0xE000 \<le> u"
  shows "readString (CHR 0x5C # CHR ''u'' # a # b # c # d # t) = map_option (apfst ((@) (utf8Enc u))) (readString t)"
  using assms(1) unicodeEscape_plain [OF assms(2)] by (simp add: readString.simps)

lemma hex4_words:
  "hex4 (CHR ''f'' # CHR ''f'' # CHR ''f'' # CHR ''d'' # t) = Some (65533, t)"
  "hex4 (CHR ''2'' # CHR ''0'' # CHR ''2'' # CHR ''8'' # t) = Some (8232, t)"
  "hex4 (CHR ''2'' # CHR ''0'' # CHR ''2'' # CHR ''9'' # t) = Some (8233, t)"
  by (simp_all add: hexVal_def)

lemma char_of_words:
  "char_of (226 :: nat) = CHR 0xE2" "char_of (128 :: nat) = CHR 0x80" "char_of (168 :: nat) = CHR 0xA8"
  "char_of (169 :: nat) = CHR 0xA9" "char_of (239 :: nat) = CHR 0xEF" "char_of (191 :: nat) = CHR 0xBF"
  "char_of (189 :: nat) = CHR 0xBD"
  by code_simp+

lemma utf8Enc_words:
  "utf8Enc 65533 = replacement"
  "utf8Enc 8232 = [CHR 0xE2, CHR 0x80, CHR 0xA8]" "utf8Enc 8233 = [CHR 0xE2, CHR 0x80, CHR 0xA9]"
  by (simp_all add: utf8Enc_def replacement_def char_of_words)

lemma apfst_Cons: "apfst ((@) [c]) = apfst ((#) c)"
  by (rule ext) (simp add: apfst_def map_prod_def split: prod.split)

lemma of_char_eq: "(of_char c :: nat) = n \<Longrightarrow> c = char_of n"
  by auto

lemma char_of_small:
  "char_of (8 :: nat) = CHR 0x08" "char_of (9 :: nat) = CHR 0x09" "char_of (10 :: nat) = CHR 0x0A"
  "char_of (12 :: nat) = CHR 0x0C" "char_of (13 :: nat) = CHR 0x0D"
  by code_simp+

lemma readString_escByte:
  assumes c: "(of_char c :: nat) < 128"
  shows "readString (escByte c @ t) = map_option (apfst ((#) c)) (readString t)"
proof -
  let ?n = "of_char c :: nat"
  have ch: "char_of ?n = c" by simp
  have hexed: "readString ([CHR 0x5C, CHR ''u'', CHR ''0'', CHR ''0'', hexDigit (?n div 16), hexDigit (?n mod 16)] @ t)
      = map_option (apfst ((#) c)) (readString t)"
  proof -
    have d: "hexVal (hexDigit (?n div 16)) = Some (?n div 16)" "hexVal (hexDigit (?n mod 16)) = Some (?n mod 16)"
      using c by (simp_all add: hexVal_hexDigit)
    have z: "hexVal CHR ''0'' = Some 0" by (simp add: hexVal_def)
    have "hex4 (CHR ''0'' # CHR ''0'' # hexDigit (?n div 16) # hexDigit (?n mod 16) # t) = Some (?n, t)"
      by (simp add: d z)
    from readString_unicode [OF this] c show ?thesis
      by (simp add: utf8Enc_def apfst_Cons)
  qed
  consider (quoted) "c = CHR 0x22 \<or> c = CHR 0x5C" | (short) "?n \<in> {8, 9, 10, 12, 13}" "c \<noteq> CHR 0x22" "c \<noteq> CHR 0x5C"
    | (hex) "?n \<notin> {8, 9, 10, 12, 13}" "c \<noteq> CHR 0x22" "c \<noteq> CHR 0x5C" "?n < 32 \<or> c = CHR ''<'' \<or> c = CHR ''>'' \<or> c = CHR ''&''"
    | (plain) "c \<noteq> CHR 0x22" "c \<noteq> CHR 0x5C" "\<not> ?n < 32" "c \<noteq> CHR ''<''" "c \<noteq> CHR ''>''" "c \<noteq> CHR ''&''"
    by blast
  then show ?thesis
  proof cases
    case quoted
    then show ?thesis by (auto simp: escByte_def readString_ascii_escape apfst_Cons)
  next
    case short
    from short(1) have "c \<in> {CHR 0x08, CHR 0x09, CHR 0x0A, CHR 0x0C, CHR 0x0D}"
      using char_of_small by (auto dest!: of_char_eq)
    then show ?thesis by (auto simp: escByte_def readString_ascii_escape apfst_Cons)
  next
    case hex
    then have "escByte c = [CHR 0x5C, CHR ''u'', CHR ''0'', CHR ''0'', hexDigit (?n div 16), hexDigit (?n mod 16)]"
      by (auto simp: escByte_def Let_def)
    with hexed show ?thesis by simp
  next
    case plain
    then have "escByte c = [c]" by (auto simp: escByte_def Let_def)
    with plain c show ?thesis by (simp add: readString.simps)
  qed
qed

lemma readString_rune:
  assumes n: "runeSize (c # r) \<noteq> 0"
  shows "readString (take (runeSize (c # r)) (c # r) @ t)
     = map_option (apfst ((@) (take (runeSize (c # r)) (c # r)))) (readString t)"
proof -
  let ?n = "runeSize (c # r)"
  obtain m where m: "?n = Suc m" using n by (cases ?n) auto
  have c: "\<not> (of_char c :: nat) < 128" using runeSize_ascii [of c r] n by auto
  then have c': "c \<noteq> CHR 0x22" "c \<noteq> CHR 0x5C" "\<not> (of_char c :: nat) < 32" by auto
  have len: "length (take m r) = m" using runeSize_le [of "c # r"] m by simp
  from runeSize_take_append [OF n, of t] m have s: "runeSize (c # take m r @ t) = Suc m" by simp
  from c c' s len m show ?thesis by (simp add: readString.simps)
qed

lemma read_writeChars: "readString (writeChars s @ CHR 0x22 # t) = Some (utf8Fix s, t)"
proof (induction s rule: writeChars.induct)
  case 1
  show ?case by (simp add: writeChars.simps readString.simps utf8Fix.simps)
next
  case (2 c r)
  consider (ascii) "(of_char c :: nat) < 128" | (bad) "\<not> (of_char c :: nat) < 128" "runeSize (c # r) = 0"
    | (rune) "\<not> (of_char c :: nat) < 128" "runeSize (c # r) \<noteq> 0" by blast
  then show ?case
  proof cases
    case ascii
    with "2.IH"(1) show ?thesis by (simp add: writeChars.simps utf8Fix.simps readString_escByte)
  next
    case bad
    let ?t = "writeChars r @ CHR 0x22 # t"
    from bad have w: "writeChars (c # r) = [CHR 0x5C, CHR ''u'', CHR ''f'', CHR ''f'', CHR ''f'', CHR ''d''] @ writeChars r"
      and f: "utf8Fix (c # r) = replacement @ utf8Fix r"
      by (simp_all add: writeChars.simps utf8Fix.simps)
    have "readString (writeChars (c # r) @ CHR 0x22 # t) = map_option (apfst ((@) replacement)) (readString ?t)"
      using readString_unicode [OF hex4_words(1), of ?t] by (simp add: w utf8Enc_words)
    then show ?thesis by (simp only: "2.IH"(2) [OF bad] f) simp
  next
    case rune
    let ?q = "take (runeSize (c # r)) (c # r)" and ?d = "drop (runeSize (c # r) - 1) r"
    let ?t = "writeChars ?d @ CHR 0x22 # t"
    have ih: "readString ?t = Some (utf8Fix ?d, t)" using "2.IH"(3) rune by simp
    have fixed: "utf8Fix (c # r) = ?q @ utf8Fix ?d" using rune by (simp add: utf8Fix.simps)
    consider (ls) "?q = [CHR 0xE2, CHR 0x80, CHR 0xA8]" | (ps) "?q = [CHR 0xE2, CHR 0x80, CHR 0xA9]"
      | (other) "?q \<noteq> [CHR 0xE2, CHR 0x80, CHR 0xA8]" "?q \<noteq> [CHR 0xE2, CHR 0x80, CHR 0xA9]" by blast
    then show ?thesis
    proof cases
      case ls
      with rune have "writeChars (c # r) = [CHR 0x5C, CHR ''u'', CHR ''2'', CHR ''0'', CHR ''2'', CHR ''8''] @ writeChars ?d"
        by (simp add: writeChars.simps)
      then have "readString (writeChars (c # r) @ CHR 0x22 # t) = map_option (apfst ((@) ?q)) (readString ?t)"
        using readString_unicode [OF hex4_words(2), of ?t] ls by (simp add: utf8Enc_words)
      then show ?thesis by (simp only: ih fixed) simp
    next
      case ps
      with rune have "writeChars (c # r) = [CHR 0x5C, CHR ''u'', CHR ''2'', CHR ''0'', CHR ''2'', CHR ''9''] @ writeChars ?d"
        by (simp add: writeChars.simps)
      then have "readString (writeChars (c # r) @ CHR 0x22 # t) = map_option (apfst ((@) ?q)) (readString ?t)"
        using readString_unicode [OF hex4_words(3), of ?t] ps by (simp add: utf8Enc_words)
      then show ?thesis by (simp only: ih fixed) simp
    next
      case other
      with rune have "writeChars (c # r) = ?q @ writeChars ?d"
        by (simp add: writeChars.simps Let_def)
      then have "readString (writeChars (c # r) @ CHR 0x22 # t) = map_option (apfst ((@) ?q)) (readString ?t)"
        using readString_rune [OF rune(2), of ?t] by simp
      then show ?thesis by (simp only: ih fixed) simp
    qed
  qed
qed

text \<open>Number literals, and the values whose strings are UTF-8 and whose nesting the reader admits.\<close>

definition numLit :: "string \<Rightarrow> bool" where
  "numLit l \<longleftrightarrow> readNumber l = Some (l, [])"

fun wfJson :: "int \<Rightarrow> Json \<Rightarrow> bool"
and wfElems :: "int \<Rightarrow> Json list \<Rightarrow> bool"
and wfMembers :: "int \<Rightarrow> (string \<times> Json) list \<Rightarrow> bool"
where
  "wfJson d JNull \<longleftrightarrow> True"
| "wfJson d (JBool b) \<longleftrightarrow> True"
| "wfJson d (JNum l) \<longleftrightarrow> numLit l"
| "wfJson d (JStr s) \<longleftrightarrow> validUtf8 s"
| "wfJson d (JArr vs) \<longleftrightarrow> 0 < d \<and> wfElems (d - 1) vs"
| "wfJson d (JObj ms) \<longleftrightarrow> 0 < d \<and> wfMembers (d - 1) ms"
| "wfElems d [] \<longleftrightarrow> True"
| "wfElems d (v # vs) \<longleftrightarrow> wfJson d v \<and> wfElems d vs"
| "wfMembers d [] \<longleftrightarrow> True"
| "wfMembers d ((k, v) # ms) \<longleftrightarrow> validUtf8 k \<and> wfJson d v \<and> wfMembers d ms"

definition numChar :: "char \<Rightarrow> bool" where
  "numChar c \<longleftrightarrow> isDigit c \<or> c \<in> {CHR ''.'', CHR ''e'', CHR ''E'', CHR ''+'', CHR ''-''}"

definition numEnds :: "string \<Rightarrow> bool" where
  "numEnds t \<longleftrightarrow> (case t of [] \<Rightarrow> True | c # r \<Rightarrow> \<not> numChar c)"

lemma isDigit_numChar: "isDigit c \<Longrightarrow> numChar c"
  by (simp add: numChar_def)

lemma hasPrefix_append1: "s \<noteq> [] \<Longrightarrow> hasPrefix (s @ t) [c] = hasPrefix s [c]"
  by (cases s) (simp_all add: hasPrefix_def)

lemma numEnds_prefix: "numEnds t \<Longrightarrow> numChar c \<Longrightarrow> \<not> hasPrefix t [c]"
  by (cases t) (auto simp: numEnds_def hasPrefix_def)

lemma hasPrefix_numEnds: "numEnds t \<Longrightarrow> numChar c \<Longrightarrow> hasPrefix (s @ t) [c] = hasPrefix s [c]"
  using numEnds_prefix [of t c] by (cases s) (simp_all add: hasPrefix_def)

lemma takeWhile_digits:
  "numEnds t \<Longrightarrow> takeWhile isDigit (s @ t) = takeWhile isDigit s \<and> dropWhile isDigit (s @ t) = dropWhile isDigit s @ t"
proof (induction s)
  case Nil
  then show ?case by (cases t) (auto simp: numEnds_def dest: isDigit_numChar)
qed auto

lemma readDigits_append:
  "numEnds t \<Longrightarrow> readDigits a s = Some (b, r) \<Longrightarrow> readDigits a (s @ t) = Some (b, r @ t)"
  by (auto simp: readDigits_def takeWhile_digits split: if_splits)

lemma readNumber_append:
  assumes t: "numEnds t" and h: "readNumber s = Some (b, r)"
  shows "readNumber (s @ t) = Some (b, r @ t)"
proof -
  have nc: "numChar CHR ''-''" "numChar CHR ''+''" "numChar CHR ''.''" "numChar CHR ''e''" "numChar CHR ''E''" "numChar CHR ''0''"
    by (simp_all add: numChar_def isDigit_def)
  note pre = hasPrefix_numEnds [OF t]
  let ?neg = "hasPrefix s ''-''"
  let ?s0 = "if ?neg then tl s else s" and ?a0 = "if ?neg then ''-'' else []"
  from h obtain a1 s1 a2 s2 where
      i: "readInt ?a0 ?s0 = Some (a1, s1)" and f: "readFrac a1 s1 = Some (a2, s2)" and e: "readExp a2 s2 = Some (b, r)"
    by (auto simp: readNumber_def Let_def split: option.splits)
  have s0: "(if ?neg then tl (s @ t) else s @ t) = ?s0 @ t"
    by (cases s) (auto simp: hasPrefix_def)
  have tlc: "hasPrefix x [c] \<Longrightarrow> tl (x @ t) = tl x @ t \<and> take (Suc 0) (x @ t) = take (Suc 0) x" for x c
    by (cases x) (auto simp: hasPrefix_def)
  have i': "readInt ?a0 (?s0 @ t) = Some (a1, s1 @ t)"
    using i by (auto simp: readInt_def pre nc tlc readDigits_append [OF t] split: if_splits)
  have f': "readFrac a1 (s1 @ t) = Some (a2, s2 @ t)"
    using f by (auto simp: readFrac_def pre nc tlc readDigits_append [OF t] split: if_splits)
  have e': "readExp a2 (s2 @ t) = Some (b, r @ t)"
  proof (cases "hasPrefix s2 ''e'' \<or> hasPrefix s2 ''E''")
    case True
    then have "tl (s2 @ t) = tl s2 @ t" "take 1 (s2 @ t) = take 1 s2" using tlc by auto
    with True e show ?thesis
      by (auto simp: readExp_def Let_def pre nc tlc readDigits_append [OF t] simp del: take_append split: if_splits)
  next
    case False
    with e show ?thesis by (simp add: readExp_def pre nc)
  qed
  show ?thesis unfolding readNumber_def Let_def pre [OF nc(1)] s0 by (simp add: i' f' e')
qed

lemma numLit_head:
  assumes "numLit l" shows "\<exists>c r. l = c # r \<and> (c = CHR ''-'' \<or> isDigit c)"
proof (cases l)
  case Nil
  with assms show ?thesis by (simp add: numLit_def readNumber_def readInt_def readDigits_def hasPrefix_def)
next
  case (Cons c r)
  have "c = CHR ''-'' \<or> isDigit c"
  proof (rule ccontr)
    assume n: "\<not> ?thesis"
    then have "c \<noteq> CHR ''0''" by (auto simp: isDigit_def)
    with n Cons assms show False
      by (simp add: numLit_def readNumber_def readInt_def readDigits_def hasPrefix_def)
  qed
  with Cons show ?thesis by blast
qed

lemma writeJson_head:
  assumes "wfJson d j"
  shows "\<exists>c r. writeJson j = c # r \<and> \<not> isWs c \<and> c \<noteq> CHR '']''"
proof (cases j)
  case (JNum l)
  with assms have "numLit l" by simp
  from numLit_head [OF this] obtain c r where "l = c # r" "c = CHR ''-'' \<or> isDigit c" by blast
  with JNum show ?thesis by (auto simp: isWs_def isDigit_def)
qed (auto simp: isWs_def writeString_def)

lemma skipWs_nonWs: "\<not> isWs c \<Longrightarrow> skipWs (c # r) = c # r"
  by (simp add: skipWs_def)

lemma skipWs_writeJson: "wfJson d j \<Longrightarrow> skipWs (writeJson j @ t) = writeJson j @ t"
  using writeJson_head [of d j] by (auto simp: skipWs_nonWs)

lemma skipWs_punct [simp]:
  "skipWs (CHR '','' # r) = CHR '','' # r" "skipWs (CHR '']'' # r) = CHR '']'' # r"
  "skipWs (CHR ''}'' # r) = CHR ''}'' # r" "skipWs (CHR '':'' # r) = CHR '':'' # r"
  "skipWs (CHR 0x22 # r) = CHR 0x22 # r" "skipWs (CHR ''['' # r) = CHR ''['' # r"
  "skipWs (CHR ''{'' # r) = CHR ''{'' # r"
  by (simp_all add: skipWs_def isWs_def)

lemma writeElems_Cons: "writeElems (v # vs) = writeJson v @ (if vs = [] then [] else CHR '','' # writeElems vs)"
  by (cases vs) simp_all

lemma writeMembers_Cons:
  "writeMembers ((k, v) # ms)
     = writeString k @ CHR '':'' # writeJson v @ (if ms = [] then [] else CHR '','' # writeMembers ms)"
  by (cases ms) simp_all

lemma readValue_word:
  "0 < f \<Longrightarrow> readValue f d (''null'' @ t) = Some (JNull, t)"
  "0 < f \<Longrightarrow> readValue f d (''true'' @ t) = Some (JBool True, t)"
  "0 < f \<Longrightarrow> readValue f d (''false'' @ t) = Some (JBool False, t)"
  by (cases f; simp add: readValue.simps skipWs_def isWs_def hasPrefix_def)+

lemma readValue_num:
  assumes "0 < f" "numLit l" "numEnds t"
  shows "readValue f d (l @ t) = Some (JNum l, t)"
proof -
  obtain c r where l: "l = c # r" "c = CHR ''-'' \<or> isDigit c" using numLit_head [OF assms(2)] by blast
  then have c: "\<not> isWs c" "c \<notin> {CHR 0x22, CHR ''['', CHR ''{'', CHR ''n'', CHR ''t'', CHR ''f''}"
    by (auto simp: isWs_def isDigit_def)
  obtain f' where f: "f = Suc f'" using assms(1) by (cases f) auto
  have n: "readNumber (c # r @ t) = Some (l, t)"
    using readNumber_append [OF assms(3), of l l "[]"] assms(2) l by (simp add: numLit_def)
  have "skipWs (l @ t) = c # r @ t" using l c by (simp add: skipWs_nonWs)
  with c l(2) n show ?thesis by (simp add: f readValue.simps hasPrefix_def)
qed

lemma readValue_str:
  assumes "0 < f" "validUtf8 s"
  shows "readValue f d (writeString s @ t) = Some (JStr s, t)"
proof -
  obtain f' where f: "f = Suc f'" using assms(1) by (cases f) auto
  from assms(2) show ?thesis
    by (simp add: f readValue.simps writeString_def read_writeChars validUtf8_def)
qed

lemma writeJson_pos: "wfJson d j \<Longrightarrow> 0 < length (writeJson j)"
  using writeJson_head by fastforce

lemma hasPrefix_head: "hasPrefix (c # r) [c'] \<longleftrightarrow> c = c'"
  by (simp add: hasPrefix_def)

lemma read_write:
  "wfJson d j \<Longrightarrow> length (writeJson j) \<le> f \<Longrightarrow> numEnds t \<Longrightarrow>
     readValue f d (writeJson j @ t) = Some (j, t)"
  "wfElems d vs \<Longrightarrow> vs \<noteq> [] \<Longrightarrow> length (writeElems vs) < f \<Longrightarrow>
     readElems f d (writeElems vs @ '']'' @ t) = Some (vs, t)"
  "wfMembers d ms \<Longrightarrow> ms \<noteq> [] \<Longrightarrow> length (writeMembers ms) < f \<Longrightarrow>
     readMembers f d (writeMembers ms @ ''}'' @ t) = Some (ms, t)"
proof (induction f arbitrary: d j vs ms t)
  case 0
  { case 1 then show ?case using writeJson_pos by fastforce }
  { case 2 then show ?case by simp }
  { case 3 then show ?case by simp }
next
  case (Suc f)
  { case 1
    show ?case
    proof (cases j)
      case (JArr vs)
      show ?thesis
      proof (cases "vs = []")
        case True with JArr 1 show ?thesis by (simp add: readValue.simps hasPrefix_head)
      next
        case False
        with JArr 1 have r: "readElems f (d - 1) (writeElems vs @ '']'' @ t) = Some (vs, t)"
          using Suc.IH(2) by simp
        obtain v vs' where v: "vs = v # vs'" using False by (cases vs) auto
        then have "wfJson (d - 1) v" using JArr 1 by simp
        from writeJson_head [OF this] obtain c q where c: "writeJson v = c # q" "\<not> isWs c" "c \<noteq> CHR '']''" by blast
        then have "\<not> hasPrefix (skipWs (writeElems vs @ '']'' @ t)) '']''"
          by (simp add: v writeElems_Cons skipWs_nonWs hasPrefix_head)
        with r JArr 1 show ?thesis by (simp add: readValue.simps)
      qed
    next
      case (JObj ms)
      show ?thesis
      proof (cases "ms = []")
        case True with JObj 1 show ?thesis by (simp add: readValue.simps hasPrefix_head)
      next
        case False
        with JObj 1 have r: "readMembers f (d - 1) (writeMembers ms @ ''}'' @ t) = Some (ms, t)"
          using Suc.IH(3) by simp
        obtain k v ms' where v: "ms = (k, v) # ms'" using False by (cases ms) auto
        then have "\<not> hasPrefix (skipWs (writeMembers ms @ ''}'' @ t)) ''}''"
          by (simp add: writeMembers_Cons writeString_def hasPrefix_head)
        with r JObj 1 show ?thesis by (simp add: readValue.simps)
      qed
    qed (use 1 readValue_word [of "Suc f" d t] readValue_num readValue_str in simp_all) }
  { case 2
    then obtain v vs' where vs: "vs = v # vs'" by (cases vs) auto
    let ?t = "(if vs' = [] then [] else CHR '','' # writeElems vs') @ '']'' @ t"
    have s: "writeElems vs @ '']'' @ t = writeJson v @ ?t" by (simp add: vs writeElems_Cons)
    have "readValue f d (writeJson v @ ?t) = Some (v, ?t)"
      using 2 by (intro Suc.IH(1)) (auto simp: vs writeElems_Cons numEnds_def numChar_def isDigit_def)
    moreover have "readElems f d (writeElems vs' @ '']'' @ t) = Some (vs', t)" if "vs' \<noteq> []"
      using 2 that by (intro Suc.IH(2)) (auto simp: vs writeElems_Cons)
    ultimately show ?case
      unfolding s by (auto simp: readElems.simps hasPrefix_head vs) }
  { case 3
    then obtain k v ms' where ms: "ms = (k, v) # ms'" by (cases ms) auto
    let ?t = "(if ms' = [] then [] else CHR '','' # writeMembers ms') @ ''}'' @ t"
    have s: "writeMembers ms @ ''}'' @ t = CHR 0x22 # writeChars k @ CHR 0x22 # CHR '':'' # writeJson v @ ?t"
      by (simp add: ms writeMembers_Cons writeString_def)
    have k: "utf8Fix k = k" using 3 by (simp add: ms validUtf8_def)
    have "readValue f d (writeJson v @ ?t) = Some (v, ?t)"
      using 3 by (intro Suc.IH(1)) (auto simp: ms writeMembers_Cons numEnds_def numChar_def isDigit_def)
    moreover have "readMembers f d (writeMembers ms' @ ''}'' @ t) = Some (ms', t)" if "ms' \<noteq> []"
      using 3 that by (intro Suc.IH(3)) (auto simp: ms writeMembers_Cons)
    ultimately show ?case
      unfolding s by (auto simp: readMembers.simps hasPrefix_head ms k read_writeChars) }
qed

theorem readJson_writeJson: "wfJson maxDepth j \<Longrightarrow> readJson (writeJson j) = Some j"
  using read_write(1) [of maxDepth j "2 * length (writeJson j) + 2" "[]"]
  by (simp add: readJson_def numEnds_def skipWs_def)

lemma writeJson_inj: "wfJson maxDepth j \<Longrightarrow> wfJson maxDepth k \<Longrightarrow> writeJson j = writeJson k \<Longrightarrow> j = k"
  using readJson_writeJson by (metis option.inject)

subsection \<open>What is read can be written\<close>

text \<open>A piece of a string that is made of whole UTF-8 sequences.\<close>

definition utf8Piece :: "string \<Rightarrow> bool" where
  "utf8Piece q \<longleftrightarrow> (\<forall>t. utf8Fix (q @ t) = q @ utf8Fix t)"

lemma utf8Piece_ascii: "(of_char c :: nat) < 128 \<Longrightarrow> utf8Piece [c]"
  by (simp add: utf8Piece_def utf8Fix.simps)

lemma utf8Piece_rune:
  assumes n: "runeSize (c # r) \<noteq> 0" shows "utf8Piece (take (runeSize (c # r)) (c # r))"
  unfolding utf8Piece_def
proof
  fix t
  obtain m where m: "runeSize (c # r) = Suc m" using n by (cases "runeSize (c # r)") auto
  have c: "\<not> (of_char c :: nat) < 128" using runeSize_ascii [of c r] n by auto
  have len: "length (take m r) = m" using runeSize_le [of "c # r"] m by simp
  from runeSize_take_append [OF n, of t] m have s: "runeSize (c # take m r @ t) = Suc m" by simp
  from c s len m show "utf8Fix (take (runeSize (c # r)) (c # r) @ t) = take (runeSize (c # r)) (c # r) @ utf8Fix t"
    by (simp add: utf8Fix.simps)
qed

lemma utf8Piece_bytes:
  assumes "runeSize q = length q" "q \<noteq> []" shows "utf8Piece q"
  using assms utf8Piece_rune [of "hd q" "tl q"] by simp

lemma utf8Piece_replacement: "utf8Piece replacement"
  by (rule utf8Piece_bytes) (simp_all add: replacement_def runeSize_def seq2_def seq3_def byteIn_def)

lemma of_char_mod: "(of_char (char_of n :: char) :: nat) = n mod 256"
  by simp

lemma seq3_bytes:
  "a \<le> 15 \<Longrightarrow> b \<le> 63 \<Longrightarrow> c \<le> 63 \<Longrightarrow> (a = 0 \<Longrightarrow> 32 \<le> b) \<Longrightarrow> (a = 13 \<Longrightarrow> b \<le> 31) \<Longrightarrow>
   seq3 [char_of (0xE0 + a), char_of (0x80 + b), char_of (0x80 + c)]" for a b c :: nat
  by (cases "a = 0"; cases "a = 13"; simp add: seq3_def byteIn_def of_char_mod)

lemma seq4_bytes:
  "a \<le> 4 \<Longrightarrow> b \<le> 63 \<Longrightarrow> c \<le> 63 \<Longrightarrow> d \<le> 63 \<Longrightarrow> (a = 0 \<Longrightarrow> 16 \<le> b) \<Longrightarrow> (a = 4 \<Longrightarrow> b \<le> 15) \<Longrightarrow>
   seq4 [char_of (0xF0 + a), char_of (0x80 + b), char_of (0x80 + c), char_of (0x80 + d)]" for a b c d :: nat
  by (cases "a = 0"; cases "a = 4"; simp add: seq4_def byteIn_def of_char_mod)

lemma utf8Piece_enc:
  assumes "u < 0x110000" "\<not> (0xD800 \<le> u \<and> u < 0xE000)"
  shows "utf8Piece (utf8Enc u)"
proof -
  consider (one) "u < 0x80" | (two) "0x80 \<le> u" "u < 0x800" | (three) "0x800 \<le> u" "u < 0x10000"
    | (four) "0x10000 \<le> u" by linarith
  then show ?thesis
  proof cases
    case one
    then show ?thesis by (simp add: utf8Enc_def utf8Piece_ascii)
  next
    case two
    then have b: "2 \<le> u div 64" "u div 64 \<le> 31" by simp_all
    then have "seq2 (utf8Enc u)" using two
      by (simp add: utf8Enc_def seq2_def byteIn_def of_char_mod)
    then show ?thesis using two by (intro utf8Piece_bytes) (simp_all add: runeSize_def utf8Enc_def)
  next
    case three
    let ?a = "u div 4096" and ?b = "u div 64 mod 64"
    have a: "?a \<le> 15" using three by simp
    have b0: "32 \<le> ?b" if "?a = 0"
    proof -
      have "u < 4096" using that by (simp add: div_eq_0_iff)
      then have "u div 64 < 64" "32 \<le> u div 64" using three by simp_all
      then show ?thesis by simp
    qed
    have b1: "?b \<le> 31" if "?a = 13"
    proof -
      have "u = 13 * 4096 + u mod 4096" using that div_mult_mod_eq [of u 4096] by metis
      moreover have "u mod 4096 < 4096" by simp
      ultimately have "53248 \<le> u" "u < 57344" by linarith+
      then have q: "832 \<le> u div 64" "u div 64 < 864" using assms(2) by simp_all
      then have "u div 64 = (u div 64 - 832) + 13 * 64" by simp
      then have "?b = (u div 64 - 832) mod 64" by (metis mod_mult_self1)
      with q show ?thesis by simp
    qed
    have m: "u mod 64 \<le> 63" "?b \<le> 63"
      using mod_less_divisor [of 64 u] mod_less_divisor [of 64 "u div 64"] by auto
    have "utf8Enc u = [char_of (0xE0 + ?a), char_of (0x80 + ?b), char_of (0x80 + u mod 64)]"
      using three by (simp only: utf8Enc_def) simp
    with seq3_bytes [OF a m(2,1) b0 b1] have "seq3 (utf8Enc u)" by metis
    then show ?thesis using three seq_lead(1) by (intro utf8Piece_bytes) (simp_all add: runeSize_def utf8Enc_def)
  next
    case four
    let ?a = "u div 262144" and ?b = "u div 4096 mod 64"
    have a: "?a \<le> 4" using assms(1) by simp
    have b0: "16 \<le> ?b" if "?a = 0"
    proof -
      have "u < 262144" using that by (simp add: div_eq_0_iff)
      then have "u div 4096 < 64" "16 \<le> u div 4096" using four by simp_all
      then show ?thesis by simp
    qed
    have b1: "?b \<le> 15" if "?a = 4"
    proof -
      have "u = 4 * 262144 + u mod 262144" using that div_mult_mod_eq [of u 262144] by metis
      then have "1048576 \<le> u" by linarith
      then have q: "256 \<le> u div 4096" "u div 4096 < 272" using assms(1) by simp_all
      then have "u div 4096 = (u div 4096 - 256) + 4 * 64" by simp
      then have "?b = (u div 4096 - 256) mod 64" by (metis mod_mult_self1)
      with q show ?thesis by simp
    qed
    have m: "u mod 64 \<le> 63" "?b \<le> 63" "u div 64 mod 64 \<le> 63"
      using mod_less_divisor [of 64 u] mod_less_divisor [of 64 "u div 4096"] mod_less_divisor [of 64 "u div 64"]
      by auto
    have "utf8Enc u = [char_of (0xF0 + ?a), char_of (0x80 + ?b), char_of (0x80 + u div 64 mod 64), char_of (0x80 + u mod 64)]"
      using four by (simp only: utf8Enc_def) simp
    with seq4_bytes [OF a m(2,3,1) b0 b1] have "seq4 (utf8Enc u)" by metis
    then show ?thesis using four seq_lead(2) by (intro utf8Piece_bytes) (simp_all add: runeSize_def utf8Enc_def)
  qed
qed

lemma utf8Piece_valid: "utf8Piece q \<Longrightarrow> validUtf8 s \<Longrightarrow> validUtf8 (q @ s)"
  by (simp add: utf8Piece_def validUtf8_def)

lemma validUtf8_Nil: "validUtf8 []"
  by (simp add: validUtf8_def utf8Fix.simps)

lemma hexVal_less: "hexVal c = Some n \<Longrightarrow> n < 16"
  by (auto simp: hexVal_def Let_def split: if_splits)

lemma hex4_less: "hex4 r = Some (u, r') \<Longrightarrow> u < 65536"
proof (induction r rule: hex4.induct)
  case (1 a b c d r)
  then obtain w x y z where h: "hexVal a = Some w" "hexVal b = Some x" "hexVal c = Some y" "hexVal d = Some z"
    and u: "u = 4096 * w + 256 * x + 16 * y + z"
    by (auto split: option.splits)
  from h [THEN hexVal_less] show ?case unfolding u by linarith
qed auto

lemma unicodeEscape_piece: "u < 65536 \<Longrightarrow> utf8Piece (fst (unicodeEscape u r))"
proof (cases "0xD800 \<le> u \<and> u < 0xE000")
  case True
  assume "u < 65536"
  show ?thesis
  proof (cases "if take 2 r = [CHR 0x5C, CHR ''u''] then hex4 (drop 2 r) else None")
    case None
    with True show ?thesis by (simp add: unicodeEscape_def utf8Piece_replacement)
  next
    case (Some p)
    obtain v r' where p: "p = (v, r')" by (cases p)
    show ?thesis
    proof (cases "u < 0xDC00 \<and> 0xDC00 \<le> v \<and> v < 0xE000")
      case True2: True
      define k where "k = 0x10000 + (u - 0xD800) * 1024 + (v - 0xDC00)"
      have "u - 0xD800 < 1024" "v - 0xDC00 < 1024" using True2 by linarith+
      then have "k < 0x110000" "0x10000 \<le> k" unfolding k_def by linarith+
      then have "utf8Piece (utf8Enc k)" by (intro utf8Piece_enc) auto
      moreover have "unicodeEscape u r = (utf8Enc k, r')"
        unfolding unicodeEscape_def k_def using True True2 Some p by (simp del: One_nat_def)
      ultimately show ?thesis by simp
    next
      case False
      with True Some p have "unicodeEscape u r = (replacement, r)" by (auto simp: unicodeEscape_def)
      then show ?thesis by (simp add: utf8Piece_replacement)
    qed
  qed
next
  case False
  assume "u < 65536"
  then have "utf8Piece (utf8Enc u)" using False by (intro utf8Piece_enc) auto
  moreover have "u < 0xD800 \<or> 0xE000 \<le> u" using False by linarith
  ultimately show ?thesis by (simp add: unicodeEscape_plain)
qed

lemma readEscape_piece:
  assumes "readEscape s = Some (out, r)" shows "utf8Piece out"
proof -
  obtain e t where s: "s = e # t" using assms by (cases s) auto
  show ?thesis
  proof (cases "e = CHR ''u''")
    case True
    with assms s obtain u t' where "hex4 t = Some (u, t')" "unicodeEscape u t' = (out, r)" by auto
    with unicodeEscape_piece [OF hex4_less] show ?thesis by (metis fst_conv)
  next
    case False
    with assms s have "out \<in> {[CHR 0x22], [CHR 0x5C], [CHR ''/''], [CHR 0x08], [CHR 0x0C], [CHR 0x0A], [CHR 0x0D], [CHR 0x09]}"
      by (simp split: if_splits) fastforce
    then show ?thesis by (auto intro!: utf8Piece_ascii)
  qed
qed

lemma readString_valid: "readString s = Some (v, r) \<Longrightarrow> validUtf8 v"
proof (induction s arbitrary: v r rule: readString.induct)
  case 1
  then show ?case by (simp add: readString.simps)
next
  case (2 c t)
  consider (quote) "c = CHR 0x22" | (esc) "c = CHR 0x5C"
    | (ascii) "c \<noteq> CHR 0x22" "c \<noteq> CHR 0x5C" "\<not> (of_char c :: nat) < 32" "(of_char c :: nat) < 128"
    | (ctrl) "c \<noteq> CHR 0x22" "c \<noteq> CHR 0x5C" "(of_char c :: nat) < 32"
    | (bad) "c \<noteq> CHR 0x22" "c \<noteq> CHR 0x5C" "\<not> (of_char c :: nat) < 32" "\<not> (of_char c :: nat) < 128" "runeSize (c # t) = 0"
    | (rune) "c \<noteq> CHR 0x22" "c \<noteq> CHR 0x5C" "\<not> (of_char c :: nat) < 32" "\<not> (of_char c :: nat) < 128" "runeSize (c # t) \<noteq> 0"
    by blast
  then show ?case
  proof cases
    case quote
    with "2.prems" show ?thesis by (simp add: readString.simps validUtf8_Nil)
  next
    case esc
    with "2.prems" obtain out t' v' where e: "readEscape t = Some (out, t')" "readString t' = Some (v', r)" "v = out @ v'"
      by (auto simp: readString.simps split: option.splits)
    have "c \<noteq> CHR 0x22" using esc by simp
    from "2.IH"(1) [OF this esc e(1) refl e(2)] readEscape_piece [OF e(1)] e(3) show ?thesis
      by (simp add: utf8Piece_valid)
  next
    case ascii
    with "2.prems" obtain v' where e: "readString t = Some (v', r)" "v = [c] @ v'" by (auto simp: readString.simps)
    from "2.IH"(2) [OF ascii e(1)] utf8Piece_ascii [OF ascii(4)] e(2) show ?thesis using utf8Piece_valid by blast
  next
    case ctrl
    with "2.prems" show ?thesis by (simp add: readString.simps)
  next
    case bad
    with "2.prems" obtain v' where e: "readString t = Some (v', r)" "v = replacement @ v'"
      by (auto simp: readString.simps)
    from "2.IH"(3) [OF bad e(1)] utf8Piece_replacement e(2) show ?thesis using utf8Piece_valid by blast
  next
    case rune
    with "2.prems" obtain v' where e: "readString (drop (runeSize (c # t) - 1) t) = Some (v', r)"
      "v = take (runeSize (c # t)) (c # t) @ v'"
      by (auto simp: readString.simps)
    from "2.IH"(4) [OF rune e(1)] utf8Piece_rune [OF rune(5)] e(2) show ?thesis using utf8Piece_valid by blast
  qed
qed

text \<open>A literal that was read is a literal: its parts are read again one by one.\<close>

definition digits :: "string \<Rightarrow> bool" where
  "digits ds \<longleftrightarrow> ds \<noteq> [] \<and> (\<forall>c \<in> set ds. isDigit c)"

definition noDigit :: "string \<Rightarrow> bool" where
  "noDigit t \<longleftrightarrow> (case t of [] \<Rightarrow> True | c # r \<Rightarrow> \<not> isDigit c)"

lemma readDigits_self: "readDigits a s = Some (b, r) \<Longrightarrow> \<exists>ds. b = a @ ds \<and> digits ds"
  by (rule exI [of _ "takeWhile isDigit s"]) (auto simp: readDigits_def digits_def dest: set_takeWhileD split: if_splits)

lemma readDigits_again:
  assumes "digits ds" "noDigit t" shows "readDigits a (ds @ t) = Some (a @ ds, t)"
proof -
  have "takeWhile isDigit t = []" "dropWhile isDigit t = t" using assms(2) by (cases t; simp add: noDigit_def)+
  then have "takeWhile isDigit (ds @ t) = ds" "dropWhile isDigit (ds @ t) = t"
    using assms(1) by (simp_all add: digits_def takeWhile_append dropWhile_append)
  with assms(1) show ?thesis by (simp add: readDigits_def digits_def)
qed

definition intPart :: "string \<Rightarrow> bool" where
  "intPart i \<longleftrightarrow> i = ''0'' \<or> digits i \<and> \<not> hasPrefix i ''0''"

definition fracPart :: "string \<Rightarrow> bool" where
  "fracPart f \<longleftrightarrow> f = [] \<or> (\<exists>ds. f = CHR ''.'' # ds \<and> digits ds)"

definition expPart :: "string \<Rightarrow> bool" where
  "expPart e \<longleftrightarrow> e = [] \<or> (\<exists>c sg ds. e = c # sg @ ds \<and> c \<in> {CHR ''e'', CHR ''E''} \<and> sg \<in> {[], ''+'', ''-''} \<and> digits ds)"

lemma expPartI:
  "c \<in> {CHR ''e'', CHR ''E''} \<Longrightarrow> sg \<in> {[], ''+'', ''-''} \<Longrightarrow> digits ds \<Longrightarrow> expPart (c # sg @ ds)"
  unfolding expPart_def by blast

lemma hasPrefixE: assumes "hasPrefix s [c]" obtains r where "s = c # r"
  using assms by (cases s) (auto simp: hasPrefix_def)

lemma digits_head: "digits ds \<Longrightarrow> \<exists>c r. ds = c # r \<and> isDigit c"
  by (cases ds) (auto simp: digits_def)

lemma readInt_part:
  assumes "readInt a s = Some (b, r)" shows "\<exists>i. b = a @ i \<and> intPart i"
proof (cases "hasPrefix s ''0''")
  case True
  with assms show ?thesis by (auto simp: readInt_def intPart_def)
next
  case False
  with assms have h: "readDigits a s = Some (b, r)" by (simp add: readInt_def)
  let ?ds = "takeWhile isDigit s"
  from h have b: "b = a @ ?ds" "?ds \<noteq> []" by (auto simp: readDigits_def split: if_splits)
  moreover have "digits ?ds" using b(2) by (auto simp: digits_def dest: set_takeWhileD)
  moreover have "\<not> hasPrefix ?ds ''0''"
  proof
    assume "hasPrefix ?ds ''0''"
    then obtain q where "?ds = CHR ''0'' # q" by (rule hasPrefixE)
    then have "hasPrefix s ''0''" by (cases s) (auto simp: hasPrefix_def split: if_splits)
    with False show False by blast
  qed
  ultimately show ?thesis by (auto simp: intPart_def)
qed

lemma readInt_again: "intPart i \<Longrightarrow> noDigit t \<Longrightarrow> readInt a (i @ t) = Some (a @ i, t)"
  using digits_head [of i] by (auto simp: intPart_def readInt_def hasPrefix_head readDigits_again)

lemma readFrac_part: "readFrac a s = Some (b, r) \<Longrightarrow> \<exists>f. b = a @ f \<and> fracPart f"
  using readDigits_self [of "a @ ''.''" "tl s" b r] by (auto simp: readFrac_def fracPart_def split: if_splits)

lemma readFrac_again:
  assumes "fracPart f" "noDigit t" "\<not> hasPrefix t ''.''" shows "readFrac a (f @ t) = Some (a @ f, t)"
  using assms readDigits_again [OF _ assms(2), of _ "a @ ''.''"]
  by (auto simp: readFrac_def fracPart_def hasPrefix_head)

lemma readExp_part:
  assumes "readExp a s = Some (b, r)" shows "\<exists>e. b = a @ e \<and> expPart e"
proof (cases "hasPrefix s ''e'' \<or> hasPrefix s ''E''")
  case False
  with assms show ?thesis by (auto simp: readExp_def expPart_def)
next
  case True
  then obtain c s' where s: "s = c # s'" "c \<in> {CHR ''e'', CHR ''E''}" by (auto elim: hasPrefixE)
  show ?thesis
  proof (cases "hasPrefix s' ''+'' \<or> hasPrefix s' ''-''")
    case True
    then obtain g s'' where g: "s' = g # s''" "[g] \<in> {''+'', ''-''}" by (auto elim: hasPrefixE)
    with assms s True have "readDigits (a @ [c] @ [g]) s'' = Some (b, r)"
      by (auto simp: readExp_def Let_def hasPrefix_head)
    from readDigits_self [OF this] obtain ds where "b = (a @ [c] @ [g]) @ ds" "digits ds" by blast
    with expPartI [of c "[g]" ds] s(2) g(2) show ?thesis by (intro exI [of _ "c # [g] @ ds"]) simp
  next
    case False
    with assms s have "readDigits (a @ [c]) s' = Some (b, r)" by (auto simp: readExp_def Let_def hasPrefix_head)
    from readDigits_self [OF this] obtain ds where "b = (a @ [c]) @ ds" "digits ds" by blast
    with expPartI [of c "[]" ds] s(2) show ?thesis by (intro exI [of _ "c # [] @ ds"]) simp
  qed
qed

lemma readExp_again:
  assumes "expPart e" shows "readExp a e = Some (a @ e, [])"
  using assms unfolding expPart_def
proof (elim disjE exE conjE)
  assume "e = []"
  then show ?thesis by (simp add: readExp_def hasPrefix_def)
next
  fix c sg ds
  assume e: "e = c # sg @ ds" "c \<in> {CHR ''e'', CHR ''E''}" "sg \<in> {[], ''+'', ''-''}" "digits ds"
  from digits_head [OF e(4)] obtain d q where d: "ds = d # q" "isDigit d" by blast
  then have nd: "d \<noteq> CHR ''+''" "d \<noteq> CHR ''-''" by (auto simp: isDigit_def)
  have r: "readDigits b ds = Some (b @ ds, [])" for b using readDigits_again [OF e(4), of "[]"] by (simp add: noDigit_def)
  have h: "hasPrefix e ''e'' \<or> hasPrefix e ''E''" using e(1,2) by (auto simp: hasPrefix_head)
  from e(3) consider "sg = []" | "sg = ''+''" | "sg = ''-''" by blast
  then show ?thesis
    by cases (use h e(1) d nd r in \<open>simp_all add: readExp_def Let_def hasPrefix_head\<close>)
qed

lemma numLit_read:
  assumes "readNumber s = Some (l, r)" shows "numLit l"
proof -
  let ?neg = "hasPrefix s ''-''"
  let ?s0 = "if ?neg then tl s else s" and ?a0 = "if ?neg then ''-'' else []"
  from assms obtain a1 s1 a2 s2 where
      "readInt ?a0 ?s0 = Some (a1, s1)" "readFrac a1 s1 = Some (a2, s2)" "readExp a2 s2 = Some (l, r)"
    by (auto simp: readNumber_def Let_def split: option.splits)
  from readInt_part [OF this(1)] readFrac_part [OF this(2)] readExp_part [OF this(3)]
  obtain i f e where p: "intPart i" "fracPart f" "expPart e" and l: "l = ?a0 @ i @ f @ e"
    by auto
  have ne: "noDigit e" "\<not> hasPrefix e ''.''" using p(3) by (auto simp: expPart_def noDigit_def isDigit_def hasPrefix_def)
  have nf: "noDigit (f @ e)" using p(2) ne(1) by (auto simp: fracPart_def noDigit_def isDigit_def)
  have ni: "\<not> hasPrefix (i @ f @ e) ''-''"
    using p(1) digits_head [of i] by (auto simp: intPart_def hasPrefix_head isDigit_def)
  have r: "readInt ?a0 (i @ f @ e) = Some (?a0 @ i, f @ e)" "readFrac (?a0 @ i) (f @ e) = Some (?a0 @ i @ f, e)"
    "readExp (?a0 @ i @ f) e = Some (l, [])"
    using readInt_again [OF p(1) nf] readFrac_again [OF p(2) ne] readExp_again [OF p(3)] l by simp_all
  show ?thesis
  proof (cases ?neg)
    case True
    with l r show ?thesis by (simp add: numLit_def readNumber_def hasPrefix_head)
  next
    case False
    with l r ni show ?thesis by (simp add: numLit_def readNumber_def)
  qed
qed

lemma read_wf:
  "readValue f d s = Some (v, r) \<Longrightarrow> wfJson d v"
  "readElems f d s = Some (vs, r) \<Longrightarrow> wfElems d vs"
  "readMembers f d s = Some (ms, r) \<Longrightarrow> wfMembers d ms"
proof (induction f arbitrary: d s v vs ms r)
  case 0
  { case 1 then show ?case by (simp add: readValue.simps) }
  { case 2 then show ?case by (simp add: readElems.simps) }
  { case 3 then show ?case by (simp add: readMembers.simps) }
next
  case (Suc f)
  { case 1
    then show ?case using Suc.IH(2,3) readString_valid numLit_read
      by (auto simp: readValue.simps split: list.splits if_splits) }
  { case 2
    then obtain v' r' where v: "readValue f d s = Some (v', r')"
      by (auto simp: readElems.simps split: option.splits)
    with 2 have h: "(\<exists>vs' q. readElems f d q = Some (vs', r) \<and> vs = v' # vs') \<or> vs = [v']"
      by (auto simp: readElems.simps split: if_splits)
    from h Suc.IH(1) [OF v] Suc.IH(2) show ?case by auto }
  { case 3
    from 3 obtain k q1 where k: "readString (tl (skipWs s)) = Some (k, q1)"
      by (auto simp: readMembers.simps split: option.splits if_splits)
    with 3 obtain v' q2 where v: "readValue f d (tl (skipWs q1)) = Some (v', q2)"
      by (auto simp: readMembers.simps split: option.splits if_splits)
    with 3 k have h: "(\<exists>ms' q. readMembers f d q = Some (ms', r) \<and> ms = (k, v') # ms') \<or> ms = [(k, v')]"
      by (auto simp: readMembers.simps split: if_splits)
    from h Suc.IH(1) [OF v] Suc.IH(3) readString_valid [OF k] show ?case by auto }
qed

theorem readJson_wf: "readJson s = Some v \<Longrightarrow> wfJson maxDepth v"
  by (auto simp: readJson_def split: option.splits if_splits dest: read_wf(1))

end
