(* ===== verification/Unmarshal.thy ===== *)
theory Unmarshal
  imports Json
begin

text \<open>
  How \<^verbatim>\<open>json.Unmarshal\<close> stores a document in a Go value, and the integers and records that
  \<^verbatim>\<open>json.Marshal\<close> writes. A decoder takes the value, what the target holds already, and yields what
  it holds afterwards with a flag that is false when some part did not fit its type: such a part is
  skipped, the rest is stored all the same, and the call reports an error. Callers that ignore the
  error therefore see a partly filled value.
\<close>

type_synonym 'a decoder = "Json \<Rightarrow> 'a \<Rightarrow> 'a \<times> bool"

named_theorems dec_simps \<open>decoding what was written\<close>

subsection \<open>Numbers\<close>

text \<open>An integer field takes the literals that \<^verbatim>\<open>strconv.ParseInt\<close> accepts: no fraction, no exponent, 64 bits.\<close>

definition intDec :: "int decoder" where
  "intDec v cur =
     (case v of
        JNull \<Rightarrow> (cur, True)
      | JNum l \<Rightarrow> (case atoi l of None \<Rightarrow> (cur, False) | Some i \<Rightarrow> (i, True))
      | _ \<Rightarrow> (cur, False))"

definition intJson :: "int \<Rightarrow> Json" where
  "intJson i = JNum (showInt i)"

lemma digit_char: "n < 10 \<Longrightarrow> isDigit (char_of (48 + n)) \<and> digitVal (char_of (48 + n)) = Some (int n)"
  by (simp add: isDigit_def digitVal_def)

lemma showNat_isDigit: "\<forall>c \<in> set (showNat n). isDigit c"
proof (induction n rule: showNat.induct)
  case (1 n)
  then show ?case
    using digit_char by (subst showNat.simps) auto
qed

lemma showNat_nonempty: "showNat n \<noteq> []"
  by (subst showNat.simps) simp

lemma digitsVal_append:
  "digitsVal a (xs @ ys) = (case digitsVal a xs of None \<Rightarrow> None | Some v \<Rightarrow> digitsVal v ys)"
  by (induction xs arbitrary: a) (auto split: option.splits)

lemma digitsVal_showNat: "digitsVal 0 (showNat n) = Some (int n)"
proof (induction n rule: showNat.induct)
  case (1 n)
  show ?case
  proof (cases "n < 10")
    case True
    then show ?thesis using digit_char [of n] by (subst showNat.simps) simp
  next
    case False
    moreover have "int n = 10 * int (n div 10) + int (n mod 10)" by presburger
    ultimately show ?thesis
      using 1 digit_char [of "n mod 10"] by (subst showNat.simps) (simp add: digitsVal_append)
  qed
qed

lemma showNat_head: "0 < n \<Longrightarrow> hd (showNat n) \<noteq> CHR ''0''"
proof (induction n rule: showNat.induct)
  case (1 n)
  show ?case
  proof (cases "n < 10")
    case True
    have "(of_char (char_of (48 + n) :: char) :: nat) \<noteq> of_char CHR ''0''" using True 1(2) by simp
    then have "char_of (48 + n) \<noteq> CHR ''0''" by metis
    then show ?thesis using True by (subst showNat.simps) simp
  next
    case False
    with 1 show ?thesis by (subst showNat.simps) (simp add: showNat_nonempty)
  qed
qed

lemma showNat_0: "showNat 0 = ''0''"
  by code_simp

lemma hd_digit: "isDigit (hd (showNat n))"
  using showNat_isDigit showNat_nonempty by (meson hd_in_set)

lemma hasPrefix_hd: "s \<noteq> [] \<Longrightarrow> hasPrefix s [c] \<longleftrightarrow> hd s = c"
  by (cases s) (simp_all add: hasPrefix_def)

lemma showNat_no_sign: "\<not> hasPrefix (showNat n) ''-''" "\<not> hasPrefix (showNat n) ''+''"
  using hd_digit [of n] by (auto simp: hasPrefix_hd showNat_nonempty isDigit_def)

lemma atoi_showInt: "in64 i \<Longrightarrow> atoi (showInt i) = Some i"
  using showNat_no_sign [of "nat i"]
  by (auto simp: atoi_def showInt_def hasPrefix_head showNat_nonempty digitsVal_showNat Let_def)

lemma readInt_showNat: "readInt a (showNat n) = Some (a @ showNat n, [])"
proof (cases "n = 0")
  case True
  then show ?thesis by (simp add: showNat_0 readInt_def hasPrefix_def)
next
  case False
  have "takeWhile isDigit (showNat n) = showNat n" "dropWhile isDigit (showNat n) = []"
    using showNat_isDigit by (auto simp: takeWhile_eq_all_conv dropWhile_eq_Nil_conv)
  then have "readDigits a (showNat n) = Some (a @ showNat n, [])"
    by (simp only: readDigits_def showNat_nonempty) simp
  with False showNat_head [of n] show ?thesis
    by (simp add: readInt_def hasPrefix_hd showNat_nonempty)
qed

lemma numLit_showInt [dec_simps]: "numLit (showInt i)"
proof -
  have e: "\<not> hasPrefix [] [c]" for c by (simp add: hasPrefix_def)
  show ?thesis
    using showNat_no_sign(1) [of "nat i"]
    by (auto simp: numLit_def readNumber_def showInt_def hasPrefix_head readInt_showNat readFrac_def readExp_def e Let_def)
qed

lemma intDec_int [dec_simps]: "in64 i \<Longrightarrow> intDec (intJson i) cur = (i, True)"
  by (simp add: intDec_def intJson_def atoi_showInt)

lemma wf_intJson [dec_simps]: "wfJson d (intJson i)"
  by (simp add: intJson_def numLit_showInt)

subsection \<open>Strings, truth values, pointers\<close>

definition strDec :: "string decoder" where
  "strDec v cur = (case v of JNull \<Rightarrow> (cur, True) | JStr s \<Rightarrow> (s, True) | _ \<Rightarrow> (cur, False))"

definition boolDec :: "bool decoder" where
  "boolDec v cur = (case v of JNull \<Rightarrow> (cur, True) | JBool b \<Rightarrow> (b, True) | _ \<Rightarrow> (cur, False))"

text \<open>A pointer is set to nil by \<^verbatim>\<open>null\<close>, else what it points to (a zero value if it is nil) is filled.\<close>

definition ptrDec :: "'a \<Rightarrow> 'a decoder \<Rightarrow> 'a option decoder" where
  "ptrDec zero dec v cur =
     (if v = JNull then (None, True)
      else apfst Some (dec v (case cur of None \<Rightarrow> zero | Some x \<Rightarrow> x)))"

lemma strDec_str [dec_simps]: "strDec (JStr s) cur = (s, True)"
  by (simp add: strDec_def)

lemma boolDec_bool [dec_simps]: "boolDec (JBool b) cur = (b, True)"
  by (simp add: boolDec_def)

subsection \<open>Lists and maps\<close>

text \<open>
  A list is refilled from the start; an element that is there already is filled over, as the slice
  is reused. A map keeps its entries and each member stores a fresh element under its name.
\<close>

fun elemsDec :: "'a \<Rightarrow> 'a decoder \<Rightarrow> Json list \<Rightarrow> 'a list \<Rightarrow> 'a list \<times> bool" where
  "elemsDec zero dec [] old = ([], True)"
| "elemsDec zero dec (v # vs) old =
     (let (x, ok) = dec v (case old of [] \<Rightarrow> zero | o1 # _ \<Rightarrow> o1);
          (xs, oks) = elemsDec zero dec vs (tl old)
      in (x # xs, ok \<and> oks))"

definition listDec :: "'a \<Rightarrow> 'a decoder \<Rightarrow> 'a list decoder" where
  "listDec zero dec v cur =
     (case v of JNull \<Rightarrow> ([], True) | JArr vs \<Rightarrow> elemsDec zero dec vs cur | _ \<Rightarrow> (cur, False))"

fun putEntry :: "string \<Rightarrow> 'a \<Rightarrow> (string \<times> 'a) list \<Rightarrow> (string \<times> 'a) list" where
  "putEntry k x [] = [(k, x)]"
| "putEntry k x (e # m) = (if fst e = k then (k, x) # m else e # putEntry k x m)"

definition mapDec :: "'a \<Rightarrow> 'a decoder \<Rightarrow> (string \<times> 'a) list decoder" where
  "mapDec zero dec v cur =
     (case v of
        JNull \<Rightarrow> ([], True)
      | JObj ms \<Rightarrow> fold (\<lambda>(k, w) (m, ok). case dec w zero of (x, ok') \<Rightarrow> (putEntry k x m, ok \<and> ok'))
                     ms (cur, True)
      | _ \<Rightarrow> (cur, False))"

lemma map_of_putEntry: "map_of (putEntry k x m) k' = (if k' = k then Some x else map_of m k')"
  by (induction m) auto

lemma keys_putEntry: "fst ` set (putEntry k x m) = insert k (fst ` set m)"
  by (induction m) auto

lemma distinct_putEntry: "distinct (map fst m) \<Longrightarrow> distinct (map fst (putEntry k x m))"
  by (induction m) (auto simp: keys_putEntry)

lemma entry_putEntry: "e \<in> set (putEntry k x m) \<Longrightarrow> e = (k, x) \<or> e \<in> set m"
  by (induction m) (auto split: if_splits)

lemma putEntry_new: "k \<notin> fst ` set m \<Longrightarrow> putEntry k x m = m @ [(k, x)]"
  by (induction m) auto

lemma elemsDec_map:
  "(\<And>x c. x \<in> set xs \<Longrightarrow> dec (enc x) c = (x, True)) \<Longrightarrow> elemsDec zero dec (map enc xs) old = (xs, True)"
  by (induction xs arbitrary: old) auto

lemma listDec_map:
  "(\<And>x c. x \<in> set xs \<Longrightarrow> dec (enc x) c = (x, True)) \<Longrightarrow> listDec zero dec (JArr (map enc xs)) old = (xs, True)"
  by (simp add: listDec_def elemsDec_map)

subsection \<open>Structs\<close>

text \<open>
  A member is stored in the field whose name it has, upper and lower case alike; the comparison also
  takes the long s (U+017F) for an s and the Kelvin sign (U+212A) for a k. The field names of the
  program are in lower case. Members that name no field are ignored.
\<close>

fun normKey :: "string \<Rightarrow> string" where
  "normKey [] = []"
| "normKey (c # r) =
     (if 65 \<le> (of_char c :: nat) \<and> (of_char c :: nat) \<le> 90 then char_of ((of_char c :: nat) + 32) # normKey r
      else if c = CHR 0xC5 \<and> take 1 r = [CHR 0xBF] then CHR ''s'' # normKey (drop 1 r)
      else if c = CHR 0xE2 \<and> take 2 r = [CHR 0x84, CHR 0xAA] then CHR ''k'' # normKey (drop 2 r)
      else c # normKey r)"

type_synonym 's field = "string \<times> (Json \<Rightarrow> 's \<Rightarrow> 's \<times> bool)"

definition fld :: "string \<Rightarrow> ('s \<Rightarrow> 'a) \<Rightarrow> (('a \<Rightarrow> 'a) \<Rightarrow> 's \<Rightarrow> 's) \<Rightarrow> 'a decoder \<Rightarrow> 's field" where
  "fld name get upd dec = (name, \<lambda>w s. case dec w (get s) of (x, ok) \<Rightarrow> (upd (\<lambda>_. x) s, ok))"

definition storeMember :: "'s field list \<Rightarrow> string \<times> Json \<Rightarrow> 's \<times> bool \<Rightarrow> 's \<times> bool" where
  "storeMember fs m acc =
     (case map_of fs (normKey (fst m)) of
        None \<Rightarrow> acc
      | Some f \<Rightarrow> (case f (snd m) (fst acc) of (s, ok) \<Rightarrow> (s, snd acc \<and> ok)))"

definition structDec :: "'s field list \<Rightarrow> 's decoder" where
  "structDec fs v s =
     (case v of JNull \<Rightarrow> (s, True) | JObj ms \<Rightarrow> fold (storeMember fs) ms (s, True) | _ \<Rightarrow> (s, False))"

definition unmarshal :: "'a \<Rightarrow> 'a decoder \<Rightarrow> string \<Rightarrow> 'a \<times> bool" where
  "unmarshal zero dec b = (case readJson b of None \<Rightarrow> (zero, False) | Some v \<Rightarrow> dec v zero)"

text \<open>\<^verbatim>\<open>omitempty\<close>: a member that is left out when its value is the empty one.\<close>

definition omitEmpty :: "bool \<Rightarrow> string \<Rightarrow> Json \<Rightarrow> (string \<times> Json) list" where
  "omitEmpty isEmpty k v = (if isEmpty then [] else [(k, v)])"

definition plainKey :: "string \<Rightarrow> bool" where
  "plainKey k \<longleftrightarrow> list_all (\<lambda>c. c = CHR ''_'' \<or> 97 \<le> (of_char c :: nat) \<and> (of_char c :: nat) \<le> 122) k"

lemma normKey_plain: "plainKey k \<Longrightarrow> normKey k = k"
proof (induction k)
  case (Cons c r)
  then have "c = CHR ''_'' \<or> 97 \<le> (of_char c :: nat) \<and> (of_char c :: nat) \<le> 122" and r: "plainKey r"
    by (simp_all add: plainKey_def)
  then have "\<not> (65 \<le> (of_char c :: nat) \<and> (of_char c :: nat) \<le> 90) \<and> c \<noteq> CHR 0xC5 \<and> c \<noteq> CHR 0xE2"
    by (elim disjE) auto
  with Cons.IH [OF r] show ?case by auto
qed simp

lemma validUtf8_ascii: "list_all (\<lambda>c. (of_char c :: nat) < 128) s \<Longrightarrow> validUtf8 s"
  unfolding validUtf8_def
proof (induction s)
  case (Cons c r)
  then have "(of_char c :: nat) < 128" "utf8Fix r = r" by simp_all
  then show ?case by (subst utf8Fix.simps) simp
qed (simp add: utf8Fix.simps)

lemma plainKey_valid: "plainKey k \<Longrightarrow> validUtf8 k"
  unfolding plainKey_def by (rule validUtf8_ascii, erule list.pred_mono_strong) auto

lemma wfMembers_append [dec_simps]: "wfMembers d (xs @ ys) \<longleftrightarrow> wfMembers d xs \<and> wfMembers d ys"
  by (induction xs) auto

lemma wfMembers_omit [dec_simps]: "wfMembers d (omitEmpty e k v) \<longleftrightarrow> e \<or> validUtf8 k \<and> wfJson d v"
  by (simp add: omitEmpty_def)

lemma wfElems_list: "wfElems d vs \<longleftrightarrow> (\<forall>v \<in> set vs. wfJson d v)"
  by (induction vs) auto

lemma store_fold_omit:
  "fold (storeMember fs) (omitEmpty e k v) acc = (if e then acc else storeMember fs (k, v) acc)"
  by (simp add: omitEmpty_def)

end
