(* ===== verification/Http.thy ===== *)
theory Http
  imports Unmarshal "HOL-Library.Word"
begin

text \<open>
  What the Docker client, the log followers and the command line use of Go's standard library beside
  JSON: decoding the first document of a response body, path segments of a URL, quoted strings, line
  scanners, big-endian words, standard base64.
\<close>

subsection \<open>Responses\<close>

text \<open>A request that failed, or the status code, the status line and the body.\<close>

datatype httpReply = NoReply string | Reply int string string

text \<open>
  \<^verbatim>\<open>json.NewDecoder(r).Decode(&v)\<close>: the first document of the body is stored; what follows it is
  not read. A body without a complete document stores nothing and is an error.
\<close>

definition decodeFirst :: "'a \<Rightarrow> 'a decoder \<Rightarrow> string \<Rightarrow> 'a \<times> bool" where
  "decodeFirst zero dec b =
     (case readValue (2 * length b + 2) maxDepth b of None \<Rightarrow> (zero, False) | Some (v, r) \<Rightarrow> dec v zero)"

lemma decodeFirst_unmarshal: "readJson b = Some v \<Longrightarrow> decodeFirst zero dec b = unmarshal zero dec b"
  by (simp add: readJson_def decodeFirst_def unmarshal_def split: option.splits prod.splits if_splits)

subsection \<open>Path segments\<close>

text \<open>\<^verbatim>\<open>url.PathEscape\<close>: letters, digits and a few signs stay, every other byte becomes \<^verbatim>\<open>%XX\<close>.\<close>

definition isAlnum :: "char \<Rightarrow> bool" where
  "isAlnum c \<longleftrightarrow> (let n = of_char c :: nat in 48 \<le> n \<and> n \<le> 57 \<or> 65 \<le> n \<and> n \<le> 90 \<or> 97 \<le> n \<and> n \<le> 122)"

definition keptInPath :: "char \<Rightarrow> bool" where
  "keptInPath c \<longleftrightarrow> isAlnum c \<or> c \<in> set ''-_.~$&+=:@''"

definition upperHex :: "nat \<Rightarrow> char" where
  "upperHex n = char_of (if n < 10 then 48 + n else 55 + n)"

definition pathByte :: "char \<Rightarrow> string" where
  "pathByte c = (if keptInPath c then [c]
     else let n = of_char c :: nat in [CHR ''%'', upperHex (n div 16), upperHex (n mod 16)])"

definition pathEscape :: "string \<Rightarrow> string" where
  "pathEscape s = concat (map pathByte s)"

lemma upperHex_alnum: "n < 16 \<Longrightarrow> isAlnum (upperHex n)"
  by (auto simp: upperHex_def isAlnum_def Let_def)

lemma upperHex_inj: "a < 16 \<Longrightarrow> b < 16 \<Longrightarrow> upperHex a = upperHex b \<Longrightarrow> a = b"
proof -
  assume h: "a < 16" "b < 16" "upperHex a = upperHex b"
  have "(of_char (upperHex n) :: nat) = (if n < 10 then 48 + n else 55 + n)" if "n < 16" for n
    using that by (simp add: upperHex_def)
  with h have "(if a < 10 then 48 + a else 55 + a) = (if b < 10 then 48 + b else 55 + b)" by metis
  then show "a = b" by (auto split: if_splits)
qed

lemma char_halves: "(of_char c :: nat) div 16 < 16" "(of_char c :: nat) mod 16 < 16"
  using nat_of_char_less_256 [of c] by (simp_all add: less_mult_imp_div_less)

text \<open>An escaped segment stays one segment: it holds no separator, and different names stay different.\<close>

lemma pathEscape_chars: "c \<in> set (pathEscape s) \<Longrightarrow> keptInPath c \<or> c = CHR ''%''"
  using char_halves upperHex_alnum by (auto simp: pathEscape_def pathByte_def keptInPath_def Let_def split: if_splits)

lemma pathEscape_segment: "c \<in> set ''/?#'' \<Longrightarrow> c \<notin> set (pathEscape s)"
  using pathEscape_chars [of c s] by (auto simp: keptInPath_def isAlnum_def Let_def)

lemma pathByte_free: "pathByte a @ x = pathByte b @ y \<Longrightarrow> a = b \<and> x = y"
proof -
  assume h: "pathByte a @ x = pathByte b @ y"
  have k: "\<not> keptInPath CHR ''%''" by (simp add: keptInPath_def isAlnum_def Let_def)
  show ?thesis
  proof (cases "keptInPath a \<or> keptInPath b")
    case True
    with h k show ?thesis by (auto simp: pathByte_def Let_def split: if_splits)
  next
    case False
    with h have u: "upperHex (of_char a div 16) = upperHex (of_char b div 16)"
      "upperHex (of_char a mod 16) = upperHex (of_char b mod 16)" "x = y"
      by (simp_all add: pathByte_def Let_def)
    then have "(of_char a :: nat) div 16 = of_char b div 16" "(of_char a :: nat) mod 16 = of_char b mod 16"
      using upperHex_inj char_halves by blast+
    then have "(of_char a :: nat) = of_char b" by (metis div_mult_mod_eq)
    with u show ?thesis by simp
  qed
qed

lemma pathByte_nonempty: "pathByte c \<noteq> []"
  by (simp add: pathByte_def Let_def)

lemma pathEscape_inj: "pathEscape a = pathEscape b \<Longrightarrow> a = b"
proof (induction a arbitrary: b)
  case Nil
  then show ?case by (cases b) (simp_all add: pathEscape_def pathByte_nonempty)
next
  case (Cons c a)
  then obtain d b' where b: "b = d # b'" by (cases b) (simp_all add: pathEscape_def pathByte_nonempty)
  with Cons.prems have "pathByte c @ pathEscape a = pathByte d @ pathEscape b'" by (simp add: pathEscape_def)
  from pathByte_free [OF this] Cons.IH b show ?case by blast
qed

subsection \<open>Lines\<close>

text \<open>
  \<^verbatim>\<open>bufio.Scanner\<close> over lines with a buffer of at most \<open>maxToken\<close> bytes: the carriage return before a
  newline is dropped, a last line without a newline counts unless it is empty, and a line that does
  not fit the buffer ends the scan.
\<close>

definition maxToken :: int where
  "maxToken = 1024 * 1024"

definition dropCR :: "string \<Rightarrow> string" where
  "dropCR l = trimSuffix l [CHR 0x0D]"

definition textLines :: "string \<Rightarrow> string list" where
  "textLines s = (let parts = splitOn CHR 0x0A s in if last parts = [] then butlast parts else parts)"

definition scanLines :: "string \<Rightarrow> string list" where
  "scanLines s = map dropCR (takeWhile (\<lambda>l. int (length l) < maxToken) (textLines s))"

subsection \<open>Words and text\<close>

definition be32 :: "string \<Rightarrow> nat" where
  "be32 s = foldl (\<lambda>n c. 256 * n + of_char c) 0 (take 4 s)"

definition be32Enc :: "nat \<Rightarrow> string" where
  "be32Enc n = [char_of (n div 16777216 mod 256), char_of (n div 65536 mod 256), char_of (n div 256 mod 256), char_of (n mod 256)]"

lemma be32_be32Enc: "n < 4294967296 \<Longrightarrow> be32 (be32Enc n @ s) = n"
proof -
  assume n: "n < 4294967296"
  let ?a = "n div 16777216" and ?b = "n div 65536 mod 256" and ?c = "n div 256 mod 256" and ?d = "n mod 256"
  have "?a < 256" using n by (simp add: less_mult_imp_div_less)
  then have "be32 (be32Enc n @ s) = 256 * (256 * (256 * ?a + ?b) + ?c) + ?d"
    by (simp add: be32_def be32Enc_def)
  also have "256 * ?a + ?b = n div 65536"
    using mult_div_mod_eq [of 256 "n div 65536"] by (simp add: div_mult2_eq [symmetric])
  also have "256 * (n div 65536) + ?c = n div 256"
    using mult_div_mod_eq [of 256 "n div 256"] by (simp add: div_mult2_eq [symmetric])
  also have "256 * (n div 256) + ?d = n" by simp
  finally show ?thesis .
qed

lemma length_be32Enc [simp]: "length (be32Enc n) = 4"
  by (simp add: be32Enc_def)

text \<open>An unsigned 64-bit field takes digits only.\<close>

definition u64Dec :: "64 word decoder" where
  "u64Dec v cur =
     (case v of
        JNull \<Rightarrow> (cur, True)
      | JNum l \<Rightarrow> (case (if l = [] then None else digitsVal 0 l) of
            None \<Rightarrow> (cur, False)
          | Some i \<Rightarrow> if i < 2 ^ 64 then (word_of_int i, True) else (cur, False))
      | _ \<Rightarrow> (cur, False))"

text \<open>
  \<^verbatim>\<open>strconv.Quote\<close>, the \<^verbatim>\<open>%q\<close> of error messages. \<open>printable\<close> is the Unicode table for sequences of
  more than one byte.
\<close>

definition runeVal :: "string \<Rightarrow> nat" where
  "runeVal s = (case map of_char s of
      [a, b] \<Rightarrow> 64 * (a mod 32) + b mod 64
    | [a, b, c] \<Rightarrow> 4096 * (a mod 16) + 64 * (b mod 64) + c mod 64
    | [a, b, c, d] \<Rightarrow> 262144 * (a mod 8) + 4096 * (b mod 64) + 64 * (c mod 64) + d mod 64
    | _ \<Rightarrow> 0)"

fun hexPad :: "nat \<Rightarrow> nat \<Rightarrow> string" where
  "hexPad 0 n = []"
| "hexPad (Suc k) n = hexPad k (n div 16) @ [hexDigit (n mod 16)]"

definition quoteASCII :: "char \<Rightarrow> string" where
  "quoteASCII c =
     (let n = of_char c :: nat; bs = CHR 0x5C in
      if c = CHR 0x22 \<or> c = bs then [bs, c]
      else if 32 \<le> n \<and> n < 127 then [c]
      else if n = 7 then [bs, CHR ''a''] else if n = 8 then [bs, CHR ''b''] else if n = 12 then [bs, CHR ''f'']
      else if n = 10 then [bs, CHR ''n''] else if n = 13 then [bs, CHR ''r''] else if n = 9 then [bs, CHR ''t'']
      else if n = 11 then [bs, CHR ''v'']
      else bs # CHR ''x'' # hexPad 2 n)"

function quoteBytes :: "(string \<Rightarrow> bool) \<Rightarrow> string \<Rightarrow> string" where
  "quoteBytes printable [] = []"
| "quoteBytes printable (c # r) =
     (if (of_char c :: nat) < 128 then quoteASCII c @ quoteBytes printable r
      else if runeSize (c # r) = 0 then CHR 0x5C # CHR ''x'' # hexPad 2 (of_char c) @ quoteBytes printable r
      else (let rune = take (runeSize (c # r)) (c # r) in
        (if printable rune then rune
         else if runeVal rune < 65536 then CHR 0x5C # CHR ''u'' # hexPad 4 (runeVal rune)
         else CHR 0x5C # CHR ''U'' # hexPad 8 (runeVal rune))
        @ quoteBytes printable (drop (runeSize (c # r) - 1) r)))"
  by pat_completeness auto
termination by (relation "measure (\<lambda>(p, s). length s)") auto

definition goQuote :: "(string \<Rightarrow> bool) \<Rightarrow> string \<Rightarrow> string" where
  "goQuote printable s = CHR 0x22 # quoteBytes printable s @ [CHR 0x22]"

subsection \<open>Floats\<close>

text \<open>The float64 operations that sampling code uses are a parameter.\<close>

record 'f arith =
  arZero :: 'f
  arAdd :: "'f \<Rightarrow> 'f \<Rightarrow> 'f"
  arSub :: "'f \<Rightarrow> 'f \<Rightarrow> 'f"
  arMul :: "'f \<Rightarrow> 'f \<Rightarrow> 'f"
  arDiv :: "'f \<Rightarrow> 'f \<Rightarrow> 'f"
  arPos :: "'f \<Rightarrow> bool"
  arOfWord :: "64 word \<Rightarrow> 'f"
  arOfInt :: "int \<Rightarrow> 'f"

end
