(* ===== verification/Wire.thy ===== *)
theory Wire
  imports Unmarshal Protocol "HOL-Library.List_Lexorder" "HOL-Library.Char_ord"
begin

text \<open>
  The bytes on the WebSocket: how the payloads of \<^verbatim>\<open>pkg/protocol\<close> are marshalled, how they are
  unmarshalled, and the envelope around them. Each message type has an encoder (the members
  \<^verbatim>\<open>json.Marshal\<close> writes, in the order of the struct, leaving out what \<^verbatim>\<open>omitempty\<close> leaves out) and a
  decoder (the fields of the struct by their names). A type whose two halves agree is a
  \<open>wire_codec\<close>, and lists of, pointers to and documents of such a type follow.
\<close>

subsection \<open>Codecs\<close>

locale wire_codec =
  fixes enc :: "'a \<Rightarrow> Json" and dec :: "'a decoder" and zero :: 'a
    and ok :: "'a \<Rightarrow> bool" and lvl :: int
  assumes dec_enc: "ok x \<Longrightarrow> dec (enc x) zero = (x, True)"
    and wf_enc: "ok x \<Longrightarrow> lvl \<le> d \<Longrightarrow> wfJson d (enc x)"
    and enc_not_null: "enc x \<noteq> JNull"
begin

lemma document: "ok x \<Longrightarrow> lvl \<le> maxDepth \<Longrightarrow> unmarshal zero dec (writeJson (enc x)) = (x, True)"
  unfolding unmarshal_def readJson_writeJson [OF wf_enc] by (simp add: dec_enc)

lemma written_once:
  assumes "ok x" "ok y" "lvl \<le> maxDepth" "writeJson (enc x) = writeJson (enc y)"
  shows "x = y"
proof -
  have "(x, True) = unmarshal zero dec (writeJson (enc y))"
    unfolding assms(4) [symmetric] document [OF assms(1,3)] ..
  also have "\<dots> = (y, True)" by (rule document [OF assms(2,3)])
  finally show ?thesis by simp
qed

lemma pointer: "pred_option ok p \<Longrightarrow>
    ptrDec zero dec (case p of None \<Rightarrow> JNull | Some x \<Rightarrow> enc x) None = (p, True)"
  by (cases p) (simp_all add: ptrDec_def enc_not_null dec_enc)

lemma wf_pointer: "pred_option ok p \<Longrightarrow> lvl \<le> d \<Longrightarrow> wfJson d (case p of None \<Rightarrow> JNull | Some x \<Rightarrow> enc x)"
  by (cases p) (simp_all add: wf_enc)

lemma elements: "list_all ok xs \<Longrightarrow> listDec zero dec (JArr (map enc xs)) [] = (xs, True)"
proof -
  have "list_all ok xs \<Longrightarrow> elemsDec zero dec (map enc xs) [] = (xs, True)"
    by (induction xs) (simp_all add: dec_enc)
  then show "list_all ok xs \<Longrightarrow> ?thesis" by (simp add: listDec_def)
qed

lemma wf_elements: "list_all ok xs \<Longrightarrow> lvl \<le> d \<Longrightarrow> wfElems d (map enc xs)"
  by (induction xs) (simp_all add: wf_enc)

lemma entries:
  assumes "list_all (ok \<circ> snd) m" "distinct (map fst m)"
  shows "mapDec zero dec (JObj (map (\<lambda>e. (fst e, enc (snd e))) m)) [] = (m, True)"
proof -
  let ?f = "\<lambda>(k, w) (m, ok). case dec w zero of (x, ok') \<Rightarrow> (putEntry k x m, ok \<and> ok')"
  have "fold ?f (map (\<lambda>e. (fst e, enc (snd e))) m) (acc, True) = (acc @ m, True)"
    if "list_all (ok \<circ> snd) m" "distinct (map fst (acc @ m))" for acc
    using that
  proof (induction m arbitrary: acc)
    case (Cons e m)
    then have "putEntry (fst e) (snd e) acc = acc @ [e]" by (auto simp: putEntry_new)
    with Cons.prems Cons.IH [of "acc @ [e]"] show ?case by (simp add: dec_enc)
  qed simp
  from this [of "[]"] assms show ?thesis by (simp add: mapDec_def)
qed

lemma wf_entries:
  "list_all (\<lambda>e. validUtf8 (fst e) \<and> ok (snd e)) m \<Longrightarrow> lvl \<le> d \<Longrightarrow>
     wfMembers d (map (\<lambda>e. (fst e, enc (snd e))) m)"
  by (induction m) (simp_all add: wf_enc)

end

interpretation str_codec: wire_codec JStr strDec "''''" validUtf8 0
  by unfold_locales (simp_all add: dec_simps)

interpretation int_codec: wire_codec intJson intDec 0 in64 0
  by unfold_locales (rule intDec_int wf_intJson | assumption | simp add: intJson_def)+

text \<open>A member that is left out leaves the field at its zero value, which is what storing it would do.\<close>

lemma store_omit:
  "(e \<Longrightarrow> storeMember fs (k, v) acc = acc) \<Longrightarrow>
   fold (storeMember fs) (omitEmpty e k v) acc = storeMember fs (k, v) acc"
  by (cases e) (simp_all add: omitEmpty_def)

definition structJson :: "(string \<times> Json) list list \<Rightarrow> Json" where
  "structJson mss = JObj (concat mss)"

lemma structDec_json: "structDec fs (structJson mss) s = fold (\<lambda>ms. fold (storeMember fs) ms) mss (s, True)"
proof -
  have "fold (storeMember fs) (concat mss) acc = fold (\<lambda>ms. fold (storeMember fs) ms) mss acc" for acc
    by (induction mss arbitrary: acc) auto
  then show ?thesis by (simp add: structDec_def structJson_def)
qed

lemma wf_structJson: "wfJson d (structJson mss) \<longleftrightarrow> 0 < d \<and> (\<forall>ms \<in> set mss. wfMembers (d - 1) ms)"
proof -
  have "wfMembers d' (concat mss) \<longleftrightarrow> (\<forall>ms \<in> set mss. wfMembers d' ms)" for d'
    by (induction mss) (simp_all add: wfMembers_append)
  then show ?thesis by (simp add: structJson_def)
qed

lemma storeMember_fld:
  "storeMember ((n, f) # fs) (k, v) acc =
     (if normKey k = n then (case f v (fst acc) of (s, ok) \<Rightarrow> (s, snd acc \<and> ok)) else storeMember fs (k, v) acc)"
  by (simp add: storeMember_def)

lemmas codec_simps = normKey_plain structDec_json store_omit storeMember_fld fld_def strDec_str boolDec_bool intDec_int

lemmas wf_codec = wf_structJson wfMembers_omit wf_intJson plainKey_valid

subsection \<open>Parts of a definition\<close>

definition healthFields :: "HealthCheck field list" where
  "healthFields = [fld ''url'' hcURL hcURL_update strDec, fld ''timeout_s'' hcTimeoutS hcTimeoutS_update intDec]"

definition encHealth :: "HealthCheck \<Rightarrow> Json" where
  "encHealth hc = structJson
     [[(''url'', JStr (hcURL hc))],
      omitEmpty (hcTimeoutS hc = 0) ''timeout_s'' (intJson (hcTimeoutS hc))]"

definition zeroHealth :: HealthCheck where
  "zeroHealth = \<lparr>hcURL = '''', hcTimeoutS = 0\<rparr>"

definition okHealth :: "HealthCheck \<Rightarrow> bool" where
  "okHealth hc \<longleftrightarrow> validUtf8 (hcURL hc) \<and> in64 (hcTimeoutS hc)"

text \<open>The member names of the protocol are lower-case ASCII.\<close>

lemma wire_keys: "list_all plainKey
    [''url'', ''timeout_s'', ''command'', ''signal'', ''max_restarts'', ''min_uptime_s'',
     ''backoff_max_s'', ''schema_version'', ''name'', ''kind'', ''cmd'', ''args'',
     ''cwd'', ''env'', ''ports'', ''health_check'', ''stop'', ''restart_policy'',
     ''container_id'', ''compose_project'', ''compose_file'', ''id'', ''definition'', ''definition_hash'',
     ''desired_state'', ''token_tracking'', ''cmd_id'', ''app_id'', ''verb'', ''ok'',
     ''error'', ''detail'', ''status'', ''pid'', ''exit_code'', ''restart_count'',
     ''proto'', ''port'', ''approval'', ''stream_id'', ''lines'', ''eof'',
     ''tail_n'', ''dedup_key'', ''source'', ''model'', ''input_tokens'', ''output_tokens'',
     ''cache_creation_tokens'', ''cache_read_tokens'', ''session_id'', ''occurred_at_ms'', ''rows'', ''local_ref'',
     ''agent_version'', ''protocol_version'', ''os'', ''arch'', ''hostname'', ''capabilities'',
     ''apps'', ''server_time_ms'', ''min_supported_protocol'', ''v'', ''t'', ''ts'',
     ''d'']"
  by (simp add: plainKey_def)

lemmas plain_keys = wire_keys [unfolded list.pred_inject]

lemma in64_0 [simp]: "in64 0"
  by (simp add: in64_def)

interpretation health_codec: wire_codec encHealth "structDec healthFields" zeroHealth okHealth 1
proof
  fix x d
  show "okHealth x \<Longrightarrow> structDec healthFields (encHealth x) zeroHealth = (x, True)"
    by (simp add: encHealth_def healthFields_def zeroHealth_def okHealth_def codec_simps plain_keys)
  show "okHealth x \<Longrightarrow> 1 \<le> d \<Longrightarrow> wfJson d (encHealth x)"
    by (simp add: encHealth_def okHealth_def wf_codec plain_keys)
  show "encHealth x \<noteq> JNull" by (simp add: encHealth_def structJson_def)
qed

definition stopFields :: "StopSpec field list" where
  "stopFields =
     [fld ''command'' ssCommand ssCommand_update strDec, fld ''signal'' ssSignal ssSignal_update strDec,
      fld ''timeout_s'' ssTimeoutS ssTimeoutS_update intDec]"

definition encStop :: "StopSpec \<Rightarrow> Json" where
  "encStop st = structJson
     [omitEmpty (ssCommand st = '''') ''command'' (JStr (ssCommand st)),
      omitEmpty (ssSignal st = '''') ''signal'' (JStr (ssSignal st)),
      omitEmpty (ssTimeoutS st = 0) ''timeout_s'' (intJson (ssTimeoutS st))]"

definition zeroStop :: StopSpec where
  "zeroStop = \<lparr>ssCommand = '''', ssSignal = '''', ssTimeoutS = 0\<rparr>"

definition okStop :: "StopSpec \<Rightarrow> bool" where
  "okStop st \<longleftrightarrow> validUtf8 (ssCommand st) \<and> validUtf8 (ssSignal st) \<and> in64 (ssTimeoutS st)"

interpretation stop_codec: wire_codec encStop "structDec stopFields" zeroStop okStop 1
proof
  fix x d
  show "okStop x \<Longrightarrow> structDec stopFields (encStop x) zeroStop = (x, True)"
    by (simp add: encStop_def stopFields_def zeroStop_def okStop_def codec_simps plain_keys)
  show "okStop x \<Longrightarrow> 1 \<le> d \<Longrightarrow> wfJson d (encStop x)"
    by (simp add: encStop_def okStop_def wf_codec plain_keys)
  show "encStop x \<noteq> JNull" by (simp add: encStop_def structJson_def)
qed

definition policyFields :: "RestartPolicy field list" where
  "policyFields =
     [fld ''max_restarts'' rpMaxRestarts rpMaxRestarts_update intDec,
      fld ''min_uptime_s'' rpMinUptimeS rpMinUptimeS_update intDec,
      fld ''backoff_max_s'' rpBackoffMaxS rpBackoffMaxS_update intDec]"

definition encPolicy :: "RestartPolicy \<Rightarrow> Json" where
  "encPolicy rp = structJson
     [omitEmpty (rpMaxRestarts rp = 0) ''max_restarts'' (intJson (rpMaxRestarts rp)),
      omitEmpty (rpMinUptimeS rp = 0) ''min_uptime_s'' (intJson (rpMinUptimeS rp)),
      omitEmpty (rpBackoffMaxS rp = 0) ''backoff_max_s'' (intJson (rpBackoffMaxS rp))]"

definition zeroPolicy :: RestartPolicy where
  "zeroPolicy = \<lparr>rpMaxRestarts = 0, rpMinUptimeS = 0, rpBackoffMaxS = 0\<rparr>"

definition okPolicy :: "RestartPolicy \<Rightarrow> bool" where
  "okPolicy rp \<longleftrightarrow> in64 (rpMaxRestarts rp) \<and> in64 (rpMinUptimeS rp) \<and> in64 (rpBackoffMaxS rp)"

interpretation policy_codec: wire_codec encPolicy "structDec policyFields" zeroPolicy okPolicy 1
proof
  fix x d
  show "okPolicy x \<Longrightarrow> structDec policyFields (encPolicy x) zeroPolicy = (x, True)"
    by (simp add: encPolicy_def policyFields_def zeroPolicy_def okPolicy_def codec_simps plain_keys)
  show "okPolicy x \<Longrightarrow> 1 \<le> d \<Longrightarrow> wfJson d (encPolicy x)"
    by (simp add: encPolicy_def okPolicy_def wf_codec plain_keys)
  show "encPolicy x \<noteq> JNull" by (simp add: encPolicy_def structJson_def)
qed

subsection \<open>Enumerations\<close>

text \<open>A string-typed constant is its string; a string that is no declared constant is kept.\<close>

definition enumDec :: "(string \<Rightarrow> 'a) \<Rightarrow> ('a \<Rightarrow> string) \<Rightarrow> 'a decoder" where
  "enumDec rd sh v cur = (case strDec v (sh cur) of (s, ok) \<Rightarrow> (rd s, ok))"

definition okEnum :: "(string \<Rightarrow> 'a) \<Rightarrow> ('a \<Rightarrow> string) \<Rightarrow> 'a \<Rightarrow> bool" where
  "okEnum rd sh x \<longleftrightarrow> rd (sh x) = x \<and> validUtf8 (sh x)"

lemma enumDec_str: "okEnum rd sh x \<Longrightarrow> enumDec rd sh (JStr (sh x)) cur = (x, True)"
  by (simp add: enumDec_def strDec_str okEnum_def)

fun kindStr :: "AppKind \<Rightarrow> string" where
  "kindStr KindProcess = ''process''"
| "kindStr KindDocker = ''docker''"
| "kindStr KindCompose = ''compose''"
| "kindStr (OtherKind s) = s"

definition kindOf :: "string \<Rightarrow> AppKind" where
  "kindOf s = (if s = ''process'' then KindProcess else if s = ''docker'' then KindDocker
     else if s = ''compose'' then KindCompose else OtherKind s)"

fun statusStr :: "AppStatus \<Rightarrow> string" where
  "statusStr StatusRunning = ''running''"
| "statusStr StatusStopped = ''stopped''"
| "statusStr StatusStarting = ''starting''"
| "statusStr StatusBackoff = ''backoff''"
| "statusStr StatusErrored = ''errored''"
| "statusStr StatusUnknown = ''unknown''"
| "statusStr (OtherStatus s) = s"

definition statusOf :: "string \<Rightarrow> AppStatus" where
  "statusOf s = (if s = ''running'' then StatusRunning else if s = ''stopped'' then StatusStopped
     else if s = ''starting'' then StatusStarting else if s = ''backoff'' then StatusBackoff
     else if s = ''errored'' then StatusErrored else if s = ''unknown'' then StatusUnknown
     else OtherStatus s)"

fun desiredStr :: "DesiredState \<Rightarrow> string" where
  "desiredStr DesiredRunning = ''running''"
| "desiredStr DesiredStopped = ''stopped''"
| "desiredStr (OtherDesired s) = s"

definition desiredOf :: "string \<Rightarrow> DesiredState" where
  "desiredOf s = (if s = ''running'' then DesiredRunning else if s = ''stopped'' then DesiredStopped else OtherDesired s)"

fun approvalStr :: "Approval \<Rightarrow> string" where
  "approvalStr ApprovalPending = ''pending''"
| "approvalStr ApprovalApproved = ''approved''"
| "approvalStr ApprovalRejected = ''rejected''"
| "approvalStr (OtherApproval s) = s"

definition approvalOf :: "string \<Rightarrow> Approval" where
  "approvalOf s = (if s = ''pending'' then ApprovalPending else if s = ''approved'' then ApprovalApproved
     else if s = ''rejected'' then ApprovalRejected else OtherApproval s)"

subsection \<open>Application definitions\<close>

text \<open>The entries of \<^verbatim>\<open>env\<close> are written in the order of their names.\<close>

definition encDefinition :: "AppDefinition \<Rightarrow> Json" where
  "encDefinition d = structJson
     [[(''schema_version'', intJson (defSchemaVersion d)), (''name'', JStr (defName d)),
       (''kind'', JStr (kindStr (defKind d)))],
      omitEmpty (defCmd d = '''') ''cmd'' (JStr (defCmd d)),
      omitEmpty (defArgs d = []) ''args'' (JArr (map JStr (defArgs d))),
      omitEmpty (defCwd d = '''') ''cwd'' (JStr (defCwd d)),
      omitEmpty (defEnv d = []) ''env'' (JObj (map (\<lambda>e. (fst e, JStr (snd e))) (sort_key fst (defEnv d)))),
      omitEmpty (defPorts d = []) ''ports'' (JArr (map intJson (defPorts d))),
      omitEmpty (defHealthCheck d = None) ''health_check''
        (case defHealthCheck d of None \<Rightarrow> JNull | Some hc \<Rightarrow> encHealth hc),
      omitEmpty (defStop d = None) ''stop'' (case defStop d of None \<Rightarrow> JNull | Some st \<Rightarrow> encStop st),
      omitEmpty (defRestartPolicy d = None) ''restart_policy''
        (case defRestartPolicy d of None \<Rightarrow> JNull | Some rp \<Rightarrow> encPolicy rp),
      omitEmpty (defContainerID d = '''') ''container_id'' (JStr (defContainerID d)),
      omitEmpty (defComposeProject d = '''') ''compose_project'' (JStr (defComposeProject d)),
      omitEmpty (defComposeFile d = '''') ''compose_file'' (JStr (defComposeFile d))]"

definition definitionFields :: "AppDefinition field list" where
  "definitionFields =
     [fld ''schema_version'' defSchemaVersion defSchemaVersion_update intDec,
      fld ''name'' defName defName_update strDec,
      fld ''kind'' defKind defKind_update (enumDec kindOf kindStr),
      fld ''cmd'' defCmd defCmd_update strDec,
      fld ''args'' defArgs defArgs_update (listDec '''' strDec),
      fld ''cwd'' defCwd defCwd_update strDec,
      fld ''env'' defEnv defEnv_update (mapDec '''' strDec),
      fld ''ports'' defPorts defPorts_update (listDec 0 intDec),
      fld ''health_check'' defHealthCheck defHealthCheck_update (ptrDec zeroHealth (structDec healthFields)),
      fld ''stop'' defStop defStop_update (ptrDec zeroStop (structDec stopFields)),
      fld ''restart_policy'' defRestartPolicy defRestartPolicy_update (ptrDec zeroPolicy (structDec policyFields)),
      fld ''container_id'' defContainerID defContainerID_update strDec,
      fld ''compose_project'' defComposeProject defComposeProject_update strDec,
      fld ''compose_file'' defComposeFile defComposeFile_update strDec]"

definition zeroDefinition :: AppDefinition where
  "zeroDefinition = \<lparr>defSchemaVersion = 0, defName = '''', defKind = OtherKind '''', defCmd = '''',
     defArgs = [], defCwd = '''', defEnv = [], defPorts = [], defHealthCheck = None, defStop = None,
     defRestartPolicy = None, defContainerID = '''', defComposeProject = '''', defComposeFile = ''''\<rparr>"

definition okDefinition :: "AppDefinition \<Rightarrow> bool" where
  "okDefinition d \<longleftrightarrow>
     in64 (defSchemaVersion d) \<and> validUtf8 (defName d) \<and> okEnum kindOf kindStr (defKind d)
     \<and> validUtf8 (defCmd d) \<and> list_all validUtf8 (defArgs d) \<and> validUtf8 (defCwd d)
     \<and> sorted (map fst (defEnv d)) \<and> distinct (map fst (defEnv d))
     \<and> list_all (\<lambda>e. validUtf8 (fst e) \<and> validUtf8 (snd e)) (defEnv d)
     \<and> list_all in64 (defPorts d) \<and> pred_option okHealth (defHealthCheck d)
     \<and> pred_option okStop (defStop d) \<and> pred_option okPolicy (defRestartPolicy d)
     \<and> validUtf8 (defContainerID d) \<and> validUtf8 (defComposeProject d) \<and> validUtf8 (defComposeFile d)"

lemma okEnum_valid: "okEnum rd sh x \<Longrightarrow> validUtf8 (sh x)"
  by (simp add: okEnum_def)

lemma okDefinition_env:
  assumes "okDefinition d"
  shows "sort_key fst (defEnv d) = defEnv d" "list_all (validUtf8 \<circ> snd) (defEnv d)" "distinct (map fst (defEnv d))"
  using assms by (auto simp: okDefinition_def sort_key_id_if_sorted list_all_iff)

lemma empty_parts:
  "listDec zero dec (JArr []) cur = ([], True)" "mapDec zero dec (JObj []) m = (m, True)"
  "ptrDec zero dec JNull p = (None, True)"
  by (simp_all add: listDec_def mapDec_def ptrDec_def)

lemmas parts = empty_parts enumDec_str str_codec.elements int_codec.elements str_codec.entries
  health_codec.pointer stop_codec.pointer policy_codec.pointer

lemma definition_lookup:
  "map_of definitionFields ''schema_version'' = Some (\<lambda>w s. case intDec w (defSchemaVersion s) of (x, ok) \<Rightarrow> (defSchemaVersion_update (\<lambda>_. x) s, ok))"
  "map_of definitionFields ''name'' = Some (\<lambda>w s. case strDec w (defName s) of (x, ok) \<Rightarrow> (defName_update (\<lambda>_. x) s, ok))"
  "map_of definitionFields ''kind'' = Some (\<lambda>w s. case (enumDec kindOf kindStr) w (defKind s) of (x, ok) \<Rightarrow> (defKind_update (\<lambda>_. x) s, ok))"
  "map_of definitionFields ''cmd'' = Some (\<lambda>w s. case strDec w (defCmd s) of (x, ok) \<Rightarrow> (defCmd_update (\<lambda>_. x) s, ok))"
  "map_of definitionFields ''args'' = Some (\<lambda>w s. case (listDec '''' strDec) w (defArgs s) of (x, ok) \<Rightarrow> (defArgs_update (\<lambda>_. x) s, ok))"
  "map_of definitionFields ''cwd'' = Some (\<lambda>w s. case strDec w (defCwd s) of (x, ok) \<Rightarrow> (defCwd_update (\<lambda>_. x) s, ok))"
  "map_of definitionFields ''env'' = Some (\<lambda>w s. case (mapDec '''' strDec) w (defEnv s) of (x, ok) \<Rightarrow> (defEnv_update (\<lambda>_. x) s, ok))"
  "map_of definitionFields ''ports'' = Some (\<lambda>w s. case (listDec 0 intDec) w (defPorts s) of (x, ok) \<Rightarrow> (defPorts_update (\<lambda>_. x) s, ok))"
  "map_of definitionFields ''health_check'' = Some (\<lambda>w s. case (ptrDec zeroHealth (structDec healthFields)) w (defHealthCheck s) of (x, ok) \<Rightarrow> (defHealthCheck_update (\<lambda>_. x) s, ok))"
  "map_of definitionFields ''stop'' = Some (\<lambda>w s. case (ptrDec zeroStop (structDec stopFields)) w (defStop s) of (x, ok) \<Rightarrow> (defStop_update (\<lambda>_. x) s, ok))"
  "map_of definitionFields ''restart_policy'' = Some (\<lambda>w s. case (ptrDec zeroPolicy (structDec policyFields)) w (defRestartPolicy s) of (x, ok) \<Rightarrow> (defRestartPolicy_update (\<lambda>_. x) s, ok))"
  "map_of definitionFields ''container_id'' = Some (\<lambda>w s. case strDec w (defContainerID s) of (x, ok) \<Rightarrow> (defContainerID_update (\<lambda>_. x) s, ok))"
  "map_of definitionFields ''compose_project'' = Some (\<lambda>w s. case strDec w (defComposeProject s) of (x, ok) \<Rightarrow> (defComposeProject_update (\<lambda>_. x) s, ok))"
  "map_of definitionFields ''compose_file'' = Some (\<lambda>w s. case strDec w (defComposeFile s) of (x, ok) \<Rightarrow> (defComposeFile_update (\<lambda>_. x) s, ok))"
  by (simp_all add: definitionFields_def fld_def)

interpretation definition_codec: wire_codec encDefinition "structDec definitionFields" zeroDefinition okDefinition 2
proof
  fix x d
  show "okDefinition x \<Longrightarrow> structDec definitionFields (encDefinition x) zeroDefinition = (x, True)"
    using okDefinition_env [of x]
    by (simp add: encDefinition_def zeroDefinition_def okDefinition_def structDec_json store_omit storeMember_def
        definition_lookup normKey_plain plain_keys strDec_str intDec_int parts)
  show "okDefinition x \<Longrightarrow> 2 \<le> d \<Longrightarrow> wfJson d (encDefinition x)"
    using okDefinition_env [of x]
    by (simp add: encDefinition_def okDefinition_def wf_codec plain_keys okEnum_def
        str_codec.wf_elements int_codec.wf_elements str_codec.wf_entries
        health_codec.wf_pointer stop_codec.wf_pointer policy_codec.wf_pointer)
  show "encDefinition x \<noteq> JNull" by (simp add: encDefinition_def structJson_def)
qed

subsection \<open>From the hub to the agent\<close>

definition specFields :: "AppSpec field list" where
  "specFields =
     [fld ''id'' spID spID_update strDec,
      fld ''definition'' spDefinition spDefinition_update (structDec definitionFields),
      fld ''definition_hash'' spDefinitionHash spDefinitionHash_update strDec,
      fld ''desired_state'' spDesiredState spDesiredState_update (enumDec desiredOf desiredStr),
      fld ''token_tracking'' spTokenTracking spTokenTracking_update strDec]"

definition encSpec :: "AppSpec \<Rightarrow> Json" where
  "encSpec sp = structJson
     [[(''id'', JStr (spID sp)), (''definition'', encDefinition (spDefinition sp)),
       (''definition_hash'', JStr (spDefinitionHash sp)),
       (''desired_state'', JStr (desiredStr (spDesiredState sp)))],
      omitEmpty (spTokenTracking sp = '''') ''token_tracking'' (JStr (spTokenTracking sp))]"

definition zeroSpec :: AppSpec where
  "zeroSpec = \<lparr>spID = '''', spDefinition = zeroDefinition, spDefinitionHash = '''',
     spDesiredState = OtherDesired '''', spTokenTracking = ''''\<rparr>"

definition okSpec :: "AppSpec \<Rightarrow> bool" where
  "okSpec sp \<longleftrightarrow> validUtf8 (spID sp) \<and> okDefinition (spDefinition sp) \<and> validUtf8 (spDefinitionHash sp)
     \<and> okEnum desiredOf desiredStr (spDesiredState sp) \<and> validUtf8 (spTokenTracking sp)"

interpretation spec_codec: wire_codec encSpec "structDec specFields" zeroSpec okSpec 3
proof
  fix x d
  show "okSpec x \<Longrightarrow> structDec specFields (encSpec x) zeroSpec = (x, True)"
    by (simp add: encSpec_def specFields_def zeroSpec_def okSpec_def codec_simps plain_keys enumDec_str
        definition_codec.dec_enc)
  show "okSpec x \<Longrightarrow> 3 \<le> d \<Longrightarrow> wfJson d (encSpec x)"
    by (simp add: encSpec_def okSpec_def wf_codec plain_keys okEnum_def definition_codec.wf_enc)
  show "encSpec x \<noteq> JNull" by (simp add: encSpec_def structJson_def)
qed

text \<open>
  \<^verbatim>\<open>AppSync\<close> has the list as its only field. A nil list would be written as \<^verbatim>\<open>null\<close>, which is read as
  the empty list too.
\<close>

definition syncFields :: "AppSpec list field list" where
  "syncFields = [fld ''apps'' (\<lambda>s. s) (\<lambda>f. f) (listDec zeroSpec (structDec specFields))]"

definition encSync :: "AppSpec list \<Rightarrow> Json" where
  "encSync sps = structJson [[(''apps'', JArr (map encSpec sps))]]"

interpretation sync_codec: wire_codec encSync "structDec syncFields" "[]" "list_all okSpec" 5
proof
  fix x d
  show "list_all okSpec x \<Longrightarrow> structDec syncFields (encSync x) [] = (x, True)"
    by (simp add: encSync_def syncFields_def codec_simps plain_keys spec_codec.elements)
  show "list_all okSpec x \<Longrightarrow> 5 \<le> d \<Longrightarrow> wfJson d (encSync x)"
    by (simp add: encSync_def wf_codec plain_keys spec_codec.wf_elements)
  show "encSync x \<noteq> JNull" by (simp add: encSync_def structJson_def)
qed

definition cmdFields :: "Cmd field list" where
  "cmdFields =
     [fld ''cmd_id'' cmdID cmdID_update strDec, fld ''app_id'' cmdAppID cmdAppID_update strDec,
      fld ''verb'' cmdVerb cmdVerb_update (enumDec verbOf verbStr),
      fld ''definition_hash'' cmdDefinitionHash cmdDefinitionHash_update strDec]"

definition encCmd :: "Cmd \<Rightarrow> Json" where
  "encCmd c = structJson
     [[(''cmd_id'', JStr (cmdID c)), (''app_id'', JStr (cmdAppID c)), (''verb'', JStr (verbStr (cmdVerb c))),
       (''definition_hash'', JStr (cmdDefinitionHash c))]]"

definition zeroCmd :: Cmd where
  "zeroCmd = \<lparr>cmdID = '''', cmdAppID = '''', cmdVerb = OtherVerb '''', cmdDefinitionHash = ''''\<rparr>"

definition okCmd :: "Cmd \<Rightarrow> bool" where
  "okCmd c \<longleftrightarrow> validUtf8 (cmdID c) \<and> validUtf8 (cmdAppID c) \<and> okEnum verbOf verbStr (cmdVerb c)
     \<and> validUtf8 (cmdDefinitionHash c)"

interpretation cmd_codec: wire_codec encCmd "structDec cmdFields" zeroCmd okCmd 1
proof
  fix x d
  show "okCmd x \<Longrightarrow> structDec cmdFields (encCmd x) zeroCmd = (x, True)"
    by (simp add: encCmd_def cmdFields_def zeroCmd_def okCmd_def codec_simps plain_keys enumDec_str)
  show "okCmd x \<Longrightarrow> 1 \<le> d \<Longrightarrow> wfJson d (encCmd x)"
    by (simp add: encCmd_def okCmd_def wf_codec plain_keys okEnum_def)
  show "encCmd x \<noteq> JNull" by (simp add: encCmd_def structJson_def)
qed

text \<open>A request for a log stream: the stream, the app and the number of lines.\<close>

type_synonym LogFollow = "string \<times> string \<times> int"

definition followFields :: "LogFollow field list" where
  "followFields =
     [fld ''stream_id'' fst apfst strDec, fld ''app_id'' (fst \<circ> snd) (apsnd \<circ> apfst) strDec,
      fld ''tail_n'' (snd \<circ> snd) (apsnd \<circ> apsnd) intDec]"

definition encFollow :: "LogFollow \<Rightarrow> Json" where
  "encFollow r = structJson
     [[(''stream_id'', JStr (fst r)), (''app_id'', JStr (fst (snd r))), (''tail_n'', intJson (snd (snd r)))]]"

definition okFollow :: "LogFollow \<Rightarrow> bool" where
  "okFollow r \<longleftrightarrow> validUtf8 (fst r) \<and> validUtf8 (fst (snd r)) \<and> in64 (snd (snd r))"

interpretation follow_codec: wire_codec encFollow "structDec followFields" "('''', '''', 0)" okFollow 1
proof
  fix x :: LogFollow and d
  show "okFollow x \<Longrightarrow> structDec followFields (encFollow x) ('''', '''', 0) = (x, True)"
    by (cases x) (simp add: encFollow_def followFields_def okFollow_def codec_simps plain_keys)
  show "okFollow x \<Longrightarrow> 1 \<le> d \<Longrightarrow> wfJson d (encFollow x)"
    by (simp add: encFollow_def okFollow_def wf_codec plain_keys)
  show "encFollow x \<noteq> JNull" by (simp add: encFollow_def structJson_def)
qed

text \<open>A message of one string: \<^verbatim>\<open>LogCancel\<close> and \<^verbatim>\<open>CmdAck\<close>.\<close>

definition oneFields :: "string \<Rightarrow> string field list" where
  "oneFields k = [fld k (\<lambda>s. s) (\<lambda>f. f) strDec]"

definition encOne :: "string \<Rightarrow> string \<Rightarrow> Json" where
  "encOne k s = structJson [[(k, JStr s)]]"

lemma one_codec: "plainKey k \<Longrightarrow> wire_codec (encOne k) (structDec (oneFields k)) '''' validUtf8 1"
proof
  fix x d
  assume k: "plainKey k"
  show "validUtf8 x \<Longrightarrow> structDec (oneFields k) (encOne k x) '''' = (x, True)"
    by (simp add: encOne_def oneFields_def codec_simps k)
  show "validUtf8 x \<Longrightarrow> 1 \<le> d \<Longrightarrow> wfJson d (encOne k x)"
    by (simp add: encOne_def wf_codec k)
  show "encOne k x \<noteq> JNull" by (simp add: encOne_def structJson_def)
qed

interpretation cancel_codec: wire_codec "encOne ''stream_id''" "structDec (oneFields ''stream_id'')" "''''" validUtf8 1
  by (rule one_codec) (simp add: plain_keys)

interpretation ack_codec: wire_codec "encOne ''cmd_id''" "structDec (oneFields ''cmd_id'')" "''''" validUtf8 1
  by (rule one_codec) (simp add: plain_keys)

subsection \<open>From the agent to the hub\<close>

text \<open>\<^verbatim>\<open>detail\<close> is never set by the agent and never read by the hub.\<close>

definition resultFields :: "CmdResult field list" where
  "resultFields =
     [fld ''cmd_id'' crCmdID crCmdID_update strDec, fld ''ok'' crOK crOK_update boolDec,
      fld ''error'' crError crError_update strDec,
      fld ''detail'' (\<lambda>_. '''') (\<lambda>_ s. s) strDec]"

definition encResult :: "CmdResult \<Rightarrow> Json" where
  "encResult r = structJson
     [[(''cmd_id'', JStr (crCmdID r)), (''ok'', JBool (crOK r))],
      omitEmpty (crError r = '''') ''error'' (JStr (crError r))]"

definition zeroResult :: CmdResult where
  "zeroResult = \<lparr>crCmdID = '''', crOK = False, crError = ''''\<rparr>"

definition okResult :: "CmdResult \<Rightarrow> bool" where
  "okResult r \<longleftrightarrow> validUtf8 (crCmdID r) \<and> validUtf8 (crError r)"

interpretation result_codec: wire_codec encResult "structDec resultFields" zeroResult okResult 1
proof
  fix x d
  show "okResult x \<Longrightarrow> structDec resultFields (encResult x) zeroResult = (x, True)"
    by (simp add: encResult_def resultFields_def zeroResult_def okResult_def codec_simps plain_keys)
  show "okResult x \<Longrightarrow> 1 \<le> d \<Longrightarrow> wfJson d (encResult x)"
    by (simp add: encResult_def okResult_def wf_codec plain_keys)
  show "encResult x \<noteq> JNull" by (simp add: encResult_def structJson_def)
qed

definition portFields :: "Port field list" where
  "portFields = [fld ''proto'' poProto poProto_update strDec, fld ''port'' poPort poPort_update intDec]"

definition encPort :: "Port \<Rightarrow> Json" where
  "encPort p = structJson [[(''proto'', JStr (poProto p)), (''port'', intJson (poPort p))]]"

definition zeroPort :: Port where
  "zeroPort = \<lparr>poProto = '''', poPort = 0\<rparr>"

definition okPort :: "Port \<Rightarrow> bool" where
  "okPort p \<longleftrightarrow> validUtf8 (poProto p) \<and> in64 (poPort p)"

interpretation port_codec: wire_codec encPort "structDec portFields" zeroPort okPort 1
proof
  fix x d
  show "okPort x \<Longrightarrow> structDec portFields (encPort x) zeroPort = (x, True)"
    by (simp add: encPort_def portFields_def zeroPort_def okPort_def codec_simps plain_keys)
  show "okPort x \<Longrightarrow> 1 \<le> d \<Longrightarrow> wfJson d (encPort x)"
    by (simp add: encPort_def okPort_def wf_codec plain_keys)
  show "encPort x \<noteq> JNull" by (simp add: encPort_def structJson_def)
qed

definition eventFields :: "AppEvent field list" where
  "eventFields =
     [fld ''app_id'' aeAppID aeAppID_update strDec,
      fld ''status'' aeStatus aeStatus_update (enumDec statusOf statusStr),
      fld ''pid'' aePID aePID_update intDec, fld ''exit_code'' aeExitCode aeExitCode_update (ptrDec 0 intDec),
      fld ''restart_count'' aeRestartCount aeRestartCount_update intDec,
      fld ''ports'' aePorts aePorts_update (listDec zeroPort (structDec portFields))]"

definition encEvent :: "AppEvent \<Rightarrow> Json" where
  "encEvent ev = structJson
     [[(''app_id'', JStr (aeAppID ev)), (''status'', JStr (statusStr (aeStatus ev)))],
      omitEmpty (aePID ev = 0) ''pid'' (intJson (aePID ev)),
      omitEmpty (aeExitCode ev = None) ''exit_code'' (case aeExitCode ev of None \<Rightarrow> JNull | Some c \<Rightarrow> intJson c),
      omitEmpty (aeRestartCount ev = 0) ''restart_count'' (intJson (aeRestartCount ev)),
      omitEmpty (aePorts ev = []) ''ports'' (JArr (map encPort (aePorts ev)))]"

definition zeroEvent :: AppEvent where
  "zeroEvent = \<lparr>aeAppID = '''', aeStatus = OtherStatus '''', aePID = 0, aeExitCode = None,
     aeRestartCount = 0, aePorts = []\<rparr>"

definition okEvent :: "AppEvent \<Rightarrow> bool" where
  "okEvent ev \<longleftrightarrow> validUtf8 (aeAppID ev) \<and> okEnum statusOf statusStr (aeStatus ev) \<and> in64 (aePID ev)
     \<and> pred_option in64 (aeExitCode ev) \<and> in64 (aeRestartCount ev) \<and> list_all okPort (aePorts ev)"

interpretation event_codec: wire_codec encEvent "structDec eventFields" zeroEvent okEvent 3
proof
  fix x d
  show "okEvent x \<Longrightarrow> structDec eventFields (encEvent x) zeroEvent = (x, True)"
    by (simp add: encEvent_def eventFields_def zeroEvent_def okEvent_def codec_simps plain_keys enumDec_str
        empty_parts int_codec.pointer port_codec.elements)
  show "okEvent x \<Longrightarrow> 3 \<le> d \<Longrightarrow> wfJson d (encEvent x)"
    by (simp add: encEvent_def okEvent_def wf_codec plain_keys okEnum_def int_codec.wf_pointer port_codec.wf_elements)
  show "encEvent x \<noteq> JNull" by (simp add: encEvent_def structJson_def)
qed

definition approvalFields :: "ApprovalEvent field list" where
  "approvalFields =
     [fld ''app_id'' apAppID apAppID_update strDec,
      fld ''approval'' apApproval apApproval_update (enumDec approvalOf approvalStr),
      fld ''definition_hash'' apDefinitionHash apDefinitionHash_update strDec]"

definition encApproval :: "ApprovalEvent \<Rightarrow> Json" where
  "encApproval ev = structJson
     [[(''app_id'', JStr (apAppID ev)), (''approval'', JStr (approvalStr (apApproval ev))),
       (''definition_hash'', JStr (apDefinitionHash ev))]]"

definition zeroApproval :: ApprovalEvent where
  "zeroApproval = \<lparr>apAppID = '''', apApproval = OtherApproval '''', apDefinitionHash = ''''\<rparr>"

definition okApproval :: "ApprovalEvent \<Rightarrow> bool" where
  "okApproval ev \<longleftrightarrow> validUtf8 (apAppID ev) \<and> okEnum approvalOf approvalStr (apApproval ev)
     \<and> validUtf8 (apDefinitionHash ev)"

interpretation approval_codec: wire_codec encApproval "structDec approvalFields" zeroApproval okApproval 1
proof
  fix x d
  show "okApproval x \<Longrightarrow> structDec approvalFields (encApproval x) zeroApproval = (x, True)"
    by (simp add: encApproval_def approvalFields_def zeroApproval_def okApproval_def codec_simps plain_keys enumDec_str)
  show "okApproval x \<Longrightarrow> 1 \<le> d \<Longrightarrow> wfJson d (encApproval x)"
    by (simp add: encApproval_def okApproval_def wf_codec plain_keys okEnum_def)
  show "encApproval x \<noteq> JNull" by (simp add: encApproval_def structJson_def)
qed

definition digestFields :: "AppDigest field list" where
  "digestFields =
     [fld ''status'' adStatus adStatus_update (enumDec statusOf statusStr),
      fld ''definition_hash'' adDefinitionHash adDefinitionHash_update strDec,
      fld ''approval'' adApproval adApproval_update (enumDec approvalOf approvalStr),
      fld ''pid'' adPID adPID_update intDec]"

definition encDigest :: "AppDigest \<Rightarrow> Json" where
  "encDigest dg = structJson
     [[(''status'', JStr (statusStr (adStatus dg))), (''definition_hash'', JStr (adDefinitionHash dg)),
       (''approval'', JStr (approvalStr (adApproval dg)))],
      omitEmpty (adPID dg = 0) ''pid'' (intJson (adPID dg))]"

definition zeroDigest :: AppDigest where
  "zeroDigest = \<lparr>adStatus = OtherStatus '''', adDefinitionHash = '''', adApproval = OtherApproval '''', adPID = 0\<rparr>"

definition okDigest :: "AppDigest \<Rightarrow> bool" where
  "okDigest dg \<longleftrightarrow> okEnum statusOf statusStr (adStatus dg) \<and> validUtf8 (adDefinitionHash dg)
     \<and> okEnum approvalOf approvalStr (adApproval dg) \<and> in64 (adPID dg)"

interpretation digest_codec: wire_codec encDigest "structDec digestFields" zeroDigest okDigest 1
proof
  fix x d
  show "okDigest x \<Longrightarrow> structDec digestFields (encDigest x) zeroDigest = (x, True)"
    by (simp add: encDigest_def digestFields_def zeroDigest_def okDigest_def codec_simps plain_keys enumDec_str)
  show "okDigest x \<Longrightarrow> 1 \<le> d \<Longrightarrow> wfJson d (encDigest x)"
    by (simp add: encDigest_def okDigest_def wf_codec plain_keys okEnum_def)
  show "encDigest x \<noteq> JNull" by (simp add: encDigest_def structJson_def)
qed

text \<open>The hello carries the digests of the apps as a map, written in the order of the ids.\<close>

record Hello =
  heVersion :: string
  heProtocol :: int
  heOS :: string
  heArch :: string
  heHostname :: string
  heCapabilities :: "string list"
  heApps :: "(string \<times> AppDigest) list"

definition helloFields :: "Hello field list" where
  "helloFields =
     [fld ''agent_version'' heVersion heVersion_update strDec,
      fld ''protocol_version'' heProtocol heProtocol_update intDec,
      fld ''os'' heOS heOS_update strDec, fld ''arch'' heArch heArch_update strDec,
      fld ''hostname'' heHostname heHostname_update strDec,
      fld ''capabilities'' heCapabilities heCapabilities_update (listDec '''' strDec),
      fld ''apps'' heApps heApps_update (mapDec zeroDigest (structDec digestFields))]"

definition encHello :: "Hello \<Rightarrow> Json" where
  "encHello he = structJson
     [[(''agent_version'', JStr (heVersion he)), (''protocol_version'', intJson (heProtocol he)),
       (''os'', JStr (heOS he)), (''arch'', JStr (heArch he)), (''hostname'', JStr (heHostname he)),
       (''capabilities'', JArr (map JStr (heCapabilities he))),
       (''apps'', JObj (map (\<lambda>e. (fst e, encDigest (snd e))) (sort_key fst (heApps he))))]]"

definition zeroHello :: Hello where
  "zeroHello = \<lparr>heVersion = '''', heProtocol = 0, heOS = '''', heArch = '''', heHostname = '''',
     heCapabilities = [], heApps = []\<rparr>"

definition okHello :: "Hello \<Rightarrow> bool" where
  "okHello he \<longleftrightarrow> validUtf8 (heVersion he) \<and> in64 (heProtocol he) \<and> validUtf8 (heOS he)
     \<and> validUtf8 (heArch he) \<and> validUtf8 (heHostname he) \<and> list_all validUtf8 (heCapabilities he)
     \<and> sorted (map fst (heApps he)) \<and> distinct (map fst (heApps he))
     \<and> list_all (\<lambda>e. validUtf8 (fst e) \<and> okDigest (snd e)) (heApps he)"

lemma okHello_apps:
  assumes "okHello he"
  shows "sort_key fst (heApps he) = heApps he" "list_all (okDigest \<circ> snd) (heApps he)"
  using assms by (auto simp: okHello_def sort_key_id_if_sorted list_all_iff)

interpretation hello_codec: wire_codec encHello "structDec helloFields" zeroHello okHello 3
proof
  fix x d
  show "okHello x \<Longrightarrow> structDec helloFields (encHello x) zeroHello = (x, True)"
    using okHello_apps [of x]
    by (simp add: encHello_def helloFields_def zeroHello_def okHello_def codec_simps plain_keys
        str_codec.elements digest_codec.entries)
  show "okHello x \<Longrightarrow> 3 \<le> d \<Longrightarrow> wfJson d (encHello x)"
    using okHello_apps [of x]
    by (simp add: encHello_def okHello_def wf_codec plain_keys str_codec.wf_elements digest_codec.wf_entries)
  show "encHello x \<noteq> JNull" by (simp add: encHello_def structJson_def)
qed

definition chunkFields :: "LogChunk field list" where
  "chunkFields =
     [fld ''stream_id'' lcStreamID lcStreamID_update strDec,
      fld ''lines'' lcLines lcLines_update (listDec '''' strDec), fld ''eof'' lcEOF lcEOF_update boolDec]"

definition encChunk :: "LogChunk \<Rightarrow> Json" where
  "encChunk c = structJson
     [[(''stream_id'', JStr (lcStreamID c)), (''lines'', JArr (map JStr (lcLines c)))],
      omitEmpty (\<not> lcEOF c) ''eof'' (JBool (lcEOF c))]"

definition zeroChunk :: LogChunk where
  "zeroChunk = \<lparr>lcStreamID = '''', lcLines = [], lcEOF = False\<rparr>"

definition okChunk :: "LogChunk \<Rightarrow> bool" where
  "okChunk c \<longleftrightarrow> validUtf8 (lcStreamID c) \<and> list_all validUtf8 (lcLines c)"

interpretation chunk_codec: wire_codec encChunk "structDec chunkFields" zeroChunk okChunk 2
proof
  fix x d
  show "okChunk x \<Longrightarrow> structDec chunkFields (encChunk x) zeroChunk = (x, True)"
    by (simp add: encChunk_def chunkFields_def zeroChunk_def okChunk_def codec_simps plain_keys str_codec.elements)
  show "okChunk x \<Longrightarrow> 2 \<le> d \<Longrightarrow> wfJson d (encChunk x)"
    by (simp add: encChunk_def okChunk_def wf_codec plain_keys str_codec.wf_elements)
  show "encChunk x \<noteq> JNull" by (simp add: encChunk_def structJson_def)
qed

definition rowFields :: "TokenUsageRow field list" where
  "rowFields =
     [fld ''dedup_key'' turDedupKey turDedupKey_update strDec, fld ''app_id'' turAppID turAppID_update strDec,
      fld ''source'' turSource turSource_update strDec, fld ''model'' turModel turModel_update strDec,
      fld ''input_tokens'' turInputTokens turInputTokens_update intDec,
      fld ''output_tokens'' turOutputTokens turOutputTokens_update intDec,
      fld ''cache_creation_tokens'' turCacheCreationTokens turCacheCreationTokens_update intDec,
      fld ''cache_read_tokens'' turCacheReadTokens turCacheReadTokens_update intDec,
      fld ''session_id'' turSessionID turSessionID_update strDec,
      fld ''occurred_at_ms'' turOccurredAtMS turOccurredAtMS_update intDec]"

definition encRow :: "TokenUsageRow \<Rightarrow> Json" where
  "encRow r = structJson
     [[(''dedup_key'', JStr (turDedupKey r))],
      omitEmpty (turAppID r = '''') ''app_id'' (JStr (turAppID r)),
      [(''source'', JStr (turSource r)), (''model'', JStr (turModel r)),
       (''input_tokens'', intJson (turInputTokens r)), (''output_tokens'', intJson (turOutputTokens r)),
       (''cache_creation_tokens'', intJson (turCacheCreationTokens r)),
       (''cache_read_tokens'', intJson (turCacheReadTokens r))],
      omitEmpty (turSessionID r = '''') ''session_id'' (JStr (turSessionID r)),
      [(''occurred_at_ms'', intJson (turOccurredAtMS r))]]"

definition zeroRow :: TokenUsageRow where
  "zeroRow = \<lparr>turDedupKey = '''', turAppID = '''', turSource = '''', turModel = '''', turInputTokens = 0,
     turOutputTokens = 0, turCacheCreationTokens = 0, turCacheReadTokens = 0, turSessionID = '''',
     turOccurredAtMS = 0\<rparr>"

definition okRow :: "TokenUsageRow \<Rightarrow> bool" where
  "okRow r \<longleftrightarrow> validUtf8 (turDedupKey r) \<and> validUtf8 (turAppID r) \<and> validUtf8 (turSource r)
     \<and> validUtf8 (turModel r) \<and> in64 (turInputTokens r) \<and> in64 (turOutputTokens r)
     \<and> in64 (turCacheCreationTokens r) \<and> in64 (turCacheReadTokens r) \<and> validUtf8 (turSessionID r)
     \<and> in64 (turOccurredAtMS r)"

interpretation row_codec: wire_codec encRow "structDec rowFields" zeroRow okRow 1
proof
  fix x d
  show "okRow x \<Longrightarrow> structDec rowFields (encRow x) zeroRow = (x, True)"
    by (simp add: encRow_def rowFields_def zeroRow_def okRow_def codec_simps plain_keys)
  show "okRow x \<Longrightarrow> 1 \<le> d \<Longrightarrow> wfJson d (encRow x)"
    by (simp add: encRow_def okRow_def wf_codec plain_keys)
  show "encRow x \<noteq> JNull" by (simp add: encRow_def structJson_def)
qed

definition batchFields :: "TokenUsageRow list field list" where
  "batchFields = [fld ''rows'' (\<lambda>s. s) (\<lambda>f. f) (listDec zeroRow (structDec rowFields))]"

definition encBatch :: "TokenUsageRow list \<Rightarrow> Json" where
  "encBatch rs = structJson [[(''rows'', JArr (map encRow rs))]]"

interpretation batch_codec: wire_codec encBatch "structDec batchFields" "[]" "list_all okRow" 3
proof
  fix x d
  show "list_all okRow x \<Longrightarrow> structDec batchFields (encBatch x) [] = (x, True)"
    by (simp add: encBatch_def batchFields_def codec_simps plain_keys row_codec.elements)
  show "list_all okRow x \<Longrightarrow> 3 \<le> d \<Longrightarrow> wfJson d (encBatch x)"
    by (simp add: encBatch_def wf_codec plain_keys row_codec.wf_elements)
  show "encBatch x \<noteq> JNull" by (simp add: encBatch_def structJson_def)
qed

text \<open>\<^verbatim>\<open>AppRegister\<close>: the definition and a local reference, which neither side uses.\<close>

definition registerFields :: "AppDefinition field list" where
  "registerFields =
     [fld ''definition'' (\<lambda>s. s) (\<lambda>f. f) (structDec definitionFields),
      fld ''local_ref'' (\<lambda>_. '''') (\<lambda>_ s. s) strDec]"

definition encRegister :: "AppDefinition \<Rightarrow> Json" where
  "encRegister d = structJson [[(''definition'', encDefinition d)]]"

interpretation register_codec: wire_codec encRegister "structDec registerFields" zeroDefinition okDefinition 3
proof
  fix x d
  show "okDefinition x \<Longrightarrow> structDec registerFields (encRegister x) zeroDefinition = (x, True)"
    by (simp add: encRegister_def registerFields_def codec_simps plain_keys definition_codec.dec_enc)
  show "okDefinition x \<Longrightarrow> 3 \<le> d \<Longrightarrow> wfJson d (encRegister x)"
    by (simp add: encRegister_def wf_codec plain_keys definition_codec.wf_enc)
  show "encRegister x \<noteq> JNull" by (simp add: encRegister_def structJson_def)
qed

subsection \<open>The envelope\<close>

text \<open>
  The payload is a raw document: it is written as it is and kept as it is, \<^verbatim>\<open>null\<close> included, and no
  payload is \<open>None\<close>. Unmarshalling an absent payload is an error.
\<close>

record Envelope =
  envV :: int
  envT :: string
  envID :: string
  envTS :: int
  envD :: "Json option"

definition rawDec :: "Json option decoder" where
  "rawDec v cur = (Some v, True)"

definition envelopeFields :: "Envelope field list" where
  "envelopeFields =
     [fld ''v'' envV envV_update intDec, fld ''t'' envT envT_update strDec, fld ''id'' envID envID_update strDec,
      fld ''ts'' envTS envTS_update intDec, fld ''d'' envD envD_update rawDec]"

definition encEnvelope :: "Envelope \<Rightarrow> Json" where
  "encEnvelope e = structJson
     [[(''v'', intJson (envV e)), (''t'', JStr (envT e))],
      omitEmpty (envID e = '''') ''id'' (JStr (envID e)),
      [(''ts'', intJson (envTS e))],
      (case envD e of None \<Rightarrow> [] | Some d \<Rightarrow> [(''d'', d)])]"

definition zeroEnvelope :: Envelope where
  "zeroEnvelope = \<lparr>envV = 0, envT = '''', envID = '''', envTS = 0, envD = None\<rparr>"

definition okEnvelope :: "Envelope \<Rightarrow> bool" where
  "okEnvelope e \<longleftrightarrow> in64 (envV e) \<and> validUtf8 (envT e) \<and> validUtf8 (envID e) \<and> in64 (envTS e)
     \<and> pred_option (wfJson 9) (envD e)"

lemma wf_deeper:
  "wfJson d v \<Longrightarrow> d \<le> d' \<Longrightarrow> wfJson d' v" "wfElems d vs \<Longrightarrow> d \<le> d' \<Longrightarrow> wfElems d' vs"
  "wfMembers d ms \<Longrightarrow> d \<le> d' \<Longrightarrow> wfMembers d' ms"
  by (induction d v and d vs and d ms arbitrary: d' and d' and d' rule: wfJson_wfElems_wfMembers.induct) auto

interpretation envelope_codec: wire_codec encEnvelope "structDec envelopeFields" zeroEnvelope okEnvelope 10
proof
  fix x d
  show "okEnvelope x \<Longrightarrow> structDec envelopeFields (encEnvelope x) zeroEnvelope = (x, True)"
    by (cases "envD x") (simp_all add: encEnvelope_def envelopeFields_def zeroEnvelope_def okEnvelope_def codec_simps
        plain_keys rawDec_def)
  show "okEnvelope x \<Longrightarrow> 10 \<le> d \<Longrightarrow> wfJson d (encEnvelope x)"
    by (cases "envD x") (auto simp: encEnvelope_def okEnvelope_def wf_codec plain_keys intro: wf_deeper(1))
  show "encEnvelope x \<noteq> JNull" by (simp add: encEnvelope_def structJson_def)
qed

text \<open>What \<^verbatim>\<open>Send\<close> puts on the wire, and the payload a handler unmarshals.\<close>

definition Version :: int where
  "Version = 1"

definition frameBytes :: "int \<Rightarrow> string \<Rightarrow> Json \<Rightarrow> string" where
  "frameBytes ts t payload =
     writeJson (encEnvelope \<lparr>envV = Version, envT = t, envID = '''', envTS = ts, envD = Some payload\<rparr>)"

definition readEnvelope :: "string \<Rightarrow> Envelope option" where
  "readEnvelope b =
     (let (e, ok) = unmarshal zeroEnvelope (structDec envelopeFields) b in if ok then Some e else None)"

definition readPayload :: "'a \<Rightarrow> 'a decoder \<Rightarrow> Json option \<Rightarrow> 'a option" where
  "readPayload zero dec p =
     (case p of None \<Rightarrow> None | Some v \<Rightarrow> (let (x, ok) = dec v zero in if ok then Some x else None))"

lemma readEnvelope_frameBytes:
  assumes "in64 ts" "validUtf8 t" "wfJson 9 p"
  shows "readEnvelope (frameBytes ts t p)
     = Some \<lparr>envV = Version, envT = t, envID = '''', envTS = ts, envD = Some p\<rparr>"
proof -
  have "validUtf8 ''''" by (simp add: validUtf8_def utf8Fix.simps)
  with assms have "okEnvelope \<lparr>envV = Version, envT = t, envID = '''', envTS = ts, envD = Some p\<rparr>"
    by (simp add: okEnvelope_def Version_def in64_def)
  from envelope_codec.document [OF this] show ?thesis
    by (simp add: readEnvelope_def frameBytes_def maxDepth_def)
qed

context wire_codec
begin

lemma payload: "ok x \<Longrightarrow> readPayload zero dec (Some (enc x)) = Some x"
  by (simp add: readPayload_def dec_enc)

end

subsection \<open>The hash of a definition\<close>

text \<open>
  \<open>sha256\<close> is the digest function on byte strings. The hash the host approves is the digest of the
  canonical encoding, in lower-case hexadecimal.
\<close>

definition hexEncode :: "string \<Rightarrow> string" where
  "hexEncode s = concat (map (\<lambda>c. let n = of_char c :: nat in [hexDigit (n div 16), hexDigit (n mod 16)]) s)"

definition Hash :: "(string \<Rightarrow> string) \<Rightarrow> AppDefinition \<Rightarrow> string" where
  "Hash sha256 d = ''sha256:'' @ hexEncode (sha256 (writeJson (encDefinition d)))"

lemma hexDigit_inj: "a < 16 \<Longrightarrow> b < 16 \<Longrightarrow> hexDigit a = hexDigit b \<longleftrightarrow> a = b"
  using hexVal_hexDigit by (metis option.inject)

lemma hexEncode_inj: "hexEncode a = hexEncode b \<Longrightarrow> a = b"
proof (induction a arbitrary: b)
  case Nil
  then show ?case by (cases b) (simp_all add: hexEncode_def Let_def)
next
  case (Cons c a)
  then obtain e b' where b: "b = e # b'" by (cases b) (simp_all add: hexEncode_def Let_def)
  let ?m = "of_char c :: nat" and ?n = "of_char e :: nat"
  have lt: "?m div 16 < 16" "?m mod 16 < 16" "?n div 16 < 16" "?n mod 16 < 16"
    using nat_of_char_less_256 [of c] nat_of_char_less_256 [of e] by (simp_all add: less_mult_imp_div_less)
  from Cons.prems b have "?m div 16 = ?n div 16" "?m mod 16 = ?n mod 16" "hexEncode a = hexEncode b'"
    using lt by (auto simp: hexEncode_def Let_def hexDigit_inj)
  then have "?m = ?n" by (metis div_mult_mod_eq)
  then have "c = e" by simp
  with Cons.IH b \<open>hexEncode a = hexEncode b'\<close> show ?case by blast
qed

text \<open>C19: The hash pins the definition. Two definitions with the same hash are the same definition,
  field by field, or their canonical encodings are two different byte strings with the same digest.
  Nothing a definition says is left out of its hash.\<close>

theorem hash_pins_definition:
  assumes "okDefinition d1" "okDefinition d2" "Hash sha256 d1 = Hash sha256 d2"
  shows "d1 = d2
    \<or> (writeJson (encDefinition d1) \<noteq> writeJson (encDefinition d2)
       \<and> sha256 (writeJson (encDefinition d1)) = sha256 (writeJson (encDefinition d2)))"
proof -
  have "sha256 (writeJson (encDefinition d1)) = sha256 (writeJson (encDefinition d2))"
    using assms(3) by (simp add: Hash_def hexEncode_inj)
  moreover have "writeJson (encDefinition d1) = writeJson (encDefinition d2) \<Longrightarrow> d1 = d2"
    using definition_codec.written_once [OF assms(1,2)] by (simp add: maxDepth_def)
  ultimately show ?thesis by blast
qed

definition hashedDef :: AppDefinition where
  "hashedDef = zeroDefinition\<lparr>defSchemaVersion := 1, defName := ''web'', defKind := KindProcess, defCmd := ''node''\<rparr>"

text \<open>With the identity as the digest function, two definitions that differ in an argument have different hashes.\<close>

theorem hash_pins_definition_witness:
  "okDefinition hashedDef \<and> okDefinition (hashedDef\<lparr>defArgs := [''x'']\<rparr>)
   \<and> Hash (\<lambda>b. b) hashedDef \<noteq> Hash (\<lambda>b. b) (hashedDef\<lparr>defArgs := [''x'']\<rparr>)"
proof -
  have v: "validUtf8 ''''" "validUtf8 ''web''" "validUtf8 ''node''" "validUtf8 ''x''" by code_simp+
  have a: "okDefinition hashedDef" "okDefinition (hashedDef\<lparr>defArgs := [''x'']\<rparr>)"
    by (simp_all add: okDefinition_def hashedDef_def zeroDefinition_def okEnum_def kindOf_def in64_def v plainKey_valid
        wire_keys [unfolded list.pred_inject] validUtf8_ascii)
  have "hashedDef \<noteq> hashedDef\<lparr>defArgs := [''x'']\<rparr>" by (simp add: hashedDef_def zeroDefinition_def)
  with hash_pins_definition [OF a, of "\<lambda>b. b"] a show ?thesis by blast
qed

end
