(* ===== verification/HubServices.thy ===== *)
theory HubServices
  imports HubTokens HubApi Http Wire
begin

text \<open>
  The hub's smaller services: the refresh of the pricing table (\<^verbatim>\<open>hub/internal/tokens/pricing.go\<close>), the
  settings record the migrations make (\<^verbatim>\<open>hub/migrations\<close>), the spend alert with its lock dropped, the texts of the
  alerts and the test notification (\<^verbatim>\<open>hub/internal/notify\<close>), and the path under which the embedded web client is served
  (\<^verbatim>\<open>hub/internal/webassets\<close>).
\<close>

subsection \<open>Refreshing the prices\<close>

definition maxPricingBody :: nat where
  "maxPricingBody = 20 * 1024 * 1024"

text \<open>
  \<open>decode\<close> is \<^verbatim>\<open>json.Unmarshal\<close> into the price list, \<open>writeErr\<close> what writing the override file
  reports. The answer is the error or the number of models; the table in use and the file follow.
\<close>

definition refreshPricing :: "'f floatOps \<Rightarrow> (string \<Rightarrow> (string \<times> 'f modelPrice) list option) \<Rightarrow> httpReply \<Rightarrow> string option
    \<Rightarrow> 'f pricing \<times> string option \<Rightarrow> (string + nat) \<times> 'f pricing \<times> string option" where
  "refreshPricing fo decode reply writeErr st =
     (case st of (t, file) \<Rightarrow>
        (case reply of
           NoReply e \<Rightarrow> (Inl e, t, file)
         | Reply code status body \<Rightarrow>
             if code \<noteq> 200 then (Inl (''pricing source returned '' @ status), t, file)
             else (let b = take maxPricingBody body
               in case parsePricing fo (decode b) t of
                    (Some e, t1) \<Rightarrow> (Inl e, t1, file)
                  | (None, t1) \<Rightarrow>
                      (case writeErr of
                         Some e \<Rightarrow> (Inl e, t1, file)
                       | None \<Rightarrow> (Inr (length (filter (\<lambda>k. t1 k \<noteq> None)
                            (remdups (map fst (case decode b of None \<Rightarrow> [] | Some es \<Rightarrow> es))))), t1, Some b)))))"

text \<open>
  A refresh never leaves the hub without prices, whatever the source answers; and what it stores is
  what a restart loads again.
\<close>

lemma parse_keeps_prices:
  assumes "parsePricing fo raw t = (e, t1)"
  shows "(e \<noteq> None \<longrightarrow> t1 = t) \<and> (e = None \<longrightarrow> (\<exists>k. t1 k \<noteq> None))"
  using assms
  by (auto simp: parsePricing_def Let_def list_all_iff split: option.splits if_splits)

lemma refresh_keeps_prices:
  assumes "refreshPricing fo decode reply writeErr (t, file) = (res, t1, file1)" "t k \<noteq> None"
  shows "\<exists>k'. t1 k' \<noteq> None"
proof (cases reply)
  case (NoReply e)
  with assms show ?thesis by (auto simp: refreshPricing_def)
next
  case (Reply code status body)
  let ?b = "take maxPricingBody body"
  obtain e t2 where p: "parsePricing fo (decode ?b) t = (e, t2)" by (cases "parsePricing fo (decode ?b) t")
  with assms(1) Reply have "t1 = t \<or> t1 = t2"
    by (auto simp: refreshPricing_def Let_def split: if_splits option.splits)
  with parse_keeps_prices [OF p] assms(2) show ?thesis by (cases e) auto
qed

lemma parse_any_table:
  assumes "parsePricing fo raw t = (None, t1)"
  shows "parsePricing fo raw t' = (None, t1)"
  using assms by (auto simp: parsePricing_def Let_def split: option.splits if_splits)

lemma refresh_survives_restart:
  assumes "refreshPricing fo decode reply writeErr (t, file) = (Inr n, t1, file1)"
  shows "\<exists>b. file1 = Some b \<and> loadPricing fo (Some (decode b)) embedded = t1"
proof (cases reply)
  case (NoReply e)
  with assms show ?thesis by (simp add: refreshPricing_def)
next
  case (Reply code status body)
  let ?b = "take maxPricingBody body"
  obtain e t2 where p: "parsePricing fo (decode ?b) t = (e, t2)" by (cases "parsePricing fo (decode ?b) t")
  with assms Reply have r: "e = None" "t1 = t2" "file1 = Some ?b"
    by (auto simp: refreshPricing_def Let_def split: if_splits option.splits)
  with parse_any_table [of fo "decode ?b" t t2 Map.empty] p show ?thesis by (simp add: loadPricing_def)
qed

text \<open>A refresh whose file cannot be written is reported as failed, although its prices are in use.\<close>

lemma failed_refresh_changes_prices:
  assumes "parsePricing fo (decode (take maxPricingBody body)) t = (None, t1)"
  shows "refreshPricing fo decode (Reply 200 status body) (Some e) (t, file) = (Inl e, t1, file)"
  using assms by (simp add: refreshPricing_def Let_def)

definition refreshRoute :: "(string + nat) \<times> 'f pricing \<times> string option \<Rightarrow> apiError + nat" where
  "refreshRoute res = (case fst res of Inl e \<Rightarrow> Inl (BadRequest (''pricing refresh failed: '' @ e)) | Inr n \<Rightarrow> Inr n)"

subsection \<open>The settings record\<close>

text \<open>The second migration makes the only record; the third turns spend alerts on, with no threshold.\<close>

definition createSettings :: "'f floatOps \<Rightarrow> string \<Rightarrow> 'f Settings table \<Rightarrow> 'f Settings table" where
  "createSettings fo newID t =
     saveRecord newID \<lparr>seEndpoint = [], seAppErrors = True, seSystemOffline = True, seSpend = False, seThreshold = fZero fo\<rparr> t"

definition addSpendSettings :: "'f floatOps \<Rightarrow> 'f Settings table \<Rightarrow> 'f Settings table" where
  "addSpendSettings fo t =
     (case t of
        [] \<Rightarrow> t
      | (i, r) # _ \<Rightarrow> saveRecord i (r\<lparr>seSpend := True, seThreshold := fZero fo\<rparr>) t)"

definition currentSettings :: "'f Settings table \<Rightarrow> 'f Settings option" where
  "currentSettings t = (case t of [] \<Rightarrow> None | (i, r) # _ \<Rightarrow> Some r)"

lemma fresh_settings:
  "currentSettings (addSpendSettings fo (createSettings fo i [])) =
     Some \<lparr>seEndpoint = [], seAppErrors = True, seSystemOffline = True, seSpend = True, seThreshold = fZero fo\<rparr>"
  by (simp add: currentSettings_def addSpendSettings_def createSettings_def)

text \<open>The settings page of a client: an update of the record under the collection's rule.\<close>

definition patchSettings :: "requester \<Rightarrow> ('f Settings \<Rightarrow> 'f Settings) \<Rightarrow> 'f Settings table \<Rightarrow> 'f Settings table" where
  "patchSettings who change t =
     (if \<not> admits settingsUpdateRule who then t
      else case t of [] \<Rightarrow> t | (i, r) # _ \<Rightarrow> saveRecord i (change r) t)"

lemma signed_in_configures:
  "signedIn who \<Longrightarrow> currentSettings (patchSettings who change t) = map_option change (currentSettings t)"
  by (cases t) (auto simp: patchSettings_def admits_def settingsUpdateRule_def currentSettings_def)

text \<open>Who is not signed in writes nothing through the record API.\<close>

lemma visitors_write_nothing:
  "patchSettings Visitor change t = t" "\<not> admits commandsCreateRule Visitor" "snd (patchApp env Visitor i f h) = h"
  by (simp_all add: patchSettings_def admits_def settingsUpdateRule_def commandsCreateRule_def signedIn_def patchApp_user)

subsection \<open>The spend alert, step by step\<close>

text \<open>
  \<^verbatim>\<open>checkSpendThreshold\<close> drops its lock between the test of the day and setting it. \<open>spendDue\<close> is what it
  has decided by then, \<open>spendAlert\<close> the rest; run one after the other they are the whole.
\<close>

definition spendDue :: "'f floatOps \<Rightarrow> 'f Settings option \<Rightarrow> int \<Rightarrow> 'f tokenService \<Rightarrow> bool" where
  "spendDue fo s nowMS ts =
     (case s of
        None \<Rightarrow> False
      | Some st \<Rightarrow>
          (let today = nowMS div msPerDay in
           fLess fo (fZero fo) (seThreshold st) \<and> seSpend st \<and> toLastAlertDay ts \<noteq> Some today
           \<and> \<not> fLess fo (fSum fo (map (usCost \<circ> snd) (filter (\<lambda>(_, u). today * msPerDay \<le> usOccurred u) (toUsage ts))))
                 (seThreshold st)))"

definition spendAlert :: "'f Settings option \<Rightarrow> (string + int) \<Rightarrow> int \<Rightarrow> 'f tokenService \<times> notifier
    \<Rightarrow> 'f tokenService \<times> notifier" where
  "spendAlert s post nowMS st =
     ((fst st)\<lparr>toLastAlertDay := Some (nowMS div msPerDay)\<rparr>, snd (ntfySend s post (nowMS * 1000000) [] SpendCrossed (snd st)))"

lemma checkSpendThreshold_steps:
  "checkSpendThreshold fo s post nowMS st = (if spendDue fo s nowMS (fst st) then spendAlert s post nowMS st else st)"
  by (cases st) (simp add: checkSpendThreshold_def spendDue_def spendAlert_def Let_def split: option.split)

text \<open>
  Two batches whose checks overlap both find the alert due before either has set the day, and two
  alerts go out.
\<close>

lemma spend_race_alerts_twice:
  assumes "spendDue fo (Some se) now (fst st)" "trimSpace (seEndpoint se) \<noteq> []"
  shows "alertDays (snd (spendAlert (Some se) (Inr c1) now (spendAlert (Some se) (Inr c2) now st)))
     = alertDays (snd st) @ [now div msPerDay, now div msPerDay]"
  using assms(2) by (simp add: spendAlert_def ntfySend_def alertDays_def msPerDay_def)

text \<open>An alert that could not be delivered counts as sent: the rest of the day is silent.\<close>

lemma failed_alert_silences_day:
  assumes "now' div msPerDay = now div msPerDay"
  shows "\<not> spendDue fo s now' (fst (spendAlert s (Inl e) now st))"
  using assms by (simp add: spendDue_def spendAlert_def Let_def split: option.split)

subsection \<open>What is sent to ntfy\<close>

definition systemName :: "string \<Rightarrow> SystemRec table \<Rightarrow> string" where
  "systemName i t = (case findRecord i t of None \<Rightarrow> ''unknown system'' | Some r \<Rightarrow> syName r)"

text \<open>
  The sentences; \<open>printable\<close> is the classification of runes behind \<^verbatim>\<open>%q\<close>, \<open>money\<close> prints a float64 with
  \<^verbatim>\<open>%.2f\<close>.
\<close>

record 'f alertFacts =
  afSystem :: string
  afStatus :: AppStatus
  afTotal :: 'f
  afThreshold :: 'f

definition appBody :: "(string \<Rightarrow> bool) \<Rightarrow> 'f alertFacts \<Rightarrow> string \<Rightarrow> string" where
  "appBody printable x name =
     ''App '' @ goQuote printable name @ '' on '' @ afSystem x @ '' entered status '' @ statusStr (afStatus x) @ ''.''"

fun alertBody :: "(string \<Rightarrow> bool) \<Rightarrow> ('f \<Rightarrow> string) \<Rightarrow> 'f alertFacts \<Rightarrow> alert \<Rightarrow> string" where
  "alertBody printable money x (CrashLooping name) = appBody printable x name"
| "alertBody printable money x (AppFailed name) = appBody printable x name"
| "alertBody printable money x (BackOnline name) = ''System '' @ goQuote printable name @ '' reconnected to the hub.''"
| "alertBody printable money x (WentOffline name) =
     ''System '' @ goQuote printable name @ '' has been unreachable for 2m0s.''"
| "alertBody printable money x SpendCrossed =
     ''Today'' @ [CHR 0x27] @ ''s LLM spend is $'' @ money (afTotal x) @ '' (threshold $'' @ money (afThreshold x) @ '').''"
| "alertBody printable money x TestAlert = ''Notifications are working '' @ [CHR 0xF0, CHR 0x9F, CHR 0x8E, CHR 0x89]"

record ntfyPost =
  npURL :: string
  npTitle :: string
  npPriority :: string
  npTags :: string
  npBody :: string

definition ntfyRequest :: "(string \<Rightarrow> bool) \<Rightarrow> ('f \<Rightarrow> string) \<Rightarrow> 'f Settings option \<Rightarrow> 'f alertFacts \<Rightarrow> alert
    \<Rightarrow> string + ntfyPost" where
  "ntfyRequest printable money s x a =
     (case s of
        None \<Rightarrow> Inl ''settings record missing''
      | Some s \<Rightarrow>
          (let endpoint = trimSpace (seEndpoint s) in
           if endpoint = [] then Inl ''no ntfy endpoint configured''
           else Inr \<lparr>npURL = endpoint, npTitle = alertTitle a, npPriority = alertPriority a, npTags = alertTags a,
                     npBody = alertBody printable money x a\<rparr>))"

lemma ntfySend_request:
  "ntfyRequest printable money s x a = Inl e \<Longrightarrow> ntfySend s post now subject a n = (Some e, n)"
  by (auto simp: ntfyRequest_def ntfySend_def Let_def split: option.splits if_splits)

subsection \<open>The test notification\<close>

definition testRoute :: "bool \<Rightarrow> 'f Settings option \<Rightarrow> (string + int) \<Rightarrow> int \<Rightarrow> notifier \<Rightarrow> apiError option \<times> notifier" where
  "testRoute authed s post now n =
     (if \<not> authed then (Some (Unauthorized ''authentication required''), n)
      else (case ntfySend s post now [] TestAlert n of
          (Some e, n1) \<Rightarrow> (Some (BadRequest e), n1)
        | (None, n1) \<Rightarrow> (None, n1)))"

subsection \<open>The state of the setup\<close>

text \<open>What the client asks first; \<open>users\<close> is the outcome of the count.\<close>

definition needsSetup :: "string + nat \<Rightarrow> apiError + bool" where
  "needsSetup users = (case users of Inl _ \<Rightarrow> Inl (InternalError []) | Inr n \<Rightarrow> Inr (n = 0))"

subsection \<open>The web client\<close>

text \<open>A path that names an embedded file is served as it is; any other is the client's own route.\<close>

definition servedPath :: "(string \<Rightarrow> bool) \<Rightarrow> string \<Rightarrow> string" where
  "servedPath exists path =
     (let p = trimPrefix path ''/'' in if p \<noteq> [] \<and> exists p then path else ''/'')"

end
