(* ===== verification/HubProps.thy ===== *)
theory HubProps
  imports HubApi
begin

text \<open>
  The hub as a state machine over its events, and the properties of its control plane: who may
  approve, what is dispatched, and that the status of a system follows its connection.
\<close>

datatype 'f hubEvent =
    HConnect "string \<Rightarrow> string \<Rightarrow> string \<Rightarrow> bool" nat string string string
  | HClose nat
  | HFrame nat "'f agentMsg"
  | HCommand "string option" string string
  | HSweep
  | HSaveApp bool string string AppDefinition
  | HPatchApp "string option" string "AppRec \<Rightarrow> AppRec"

fun hubStep :: "'f hubEnv \<Rightarrow> 'f hubEvent \<Rightarrow> 'f hub \<Rightarrow> 'f hub" where
  "hubStep env (HConnect verify c sysID ts sig) h =
     (case serveAuth verify (enNow env) sysID ts sig h of
        Inl _ \<Rightarrow> h | Inr sys \<Rightarrow> connOpen env c sysID sys h)"
| "hubStep env (HClose c) h = connClose env c h"
| "hubStep env (HFrame c m) h = serveFrame env c m h"
| "hubStep env (HCommand user appID verbText) h = snd (requestCommand env user appID verbText h)"
| "hubStep env HSweep h = sweep env h"
| "hubStep env (HSaveApp authed sysID appID def) h = snd (saveApp env authed sysID appID def h)"
| "hubStep env (HPatchApp user appID change) h = snd (patchApp env (clientOf user) appID change h)"

subsection \<open>What the operations leave alone\<close>

lemma connSend_frame [simp, frame_simps]:
  "huApps (snd (connSend env c f h)) = huApps h"
  "huSystems (snd (connSend env c f h)) = huSystems h"
  "huCommands (snd (connSend env c f h)) = huCommands h"
  "huConns (snd (connSend env c f h)) = huConns h"
  "huLive (snd (connSend env c f h)) = huLive h"
  "huCancelled (snd (connSend env c f h)) = huCancelled h"
  by (simp_all add: connSend_def)

lemma sendAppSync_frame [simp, frame_simps]:
  "huApps (snd (sendAppSync env i c h)) = huApps h"
  "huSystems (snd (sendAppSync env i c h)) = huSystems h"
  "huCommands (snd (sendAppSync env i c h)) = huCommands h"
  "huConns (snd (sendAppSync env i c h)) = huConns h"
  "huLive (snd (sendAppSync env i c h)) = huLive h"
  "huCancelled (snd (sendAppSync env i c h)) = huCancelled h"
  by (simp_all add: sendAppSync_def)

lemma SyncSystem_frame [simp, frame_simps]:
  "huApps (SyncSystem env i h) = huApps h"
  "huSystems (SyncSystem env i h) = huSystems h"
  "huCommands (SyncSystem env i h) = huCommands h"
  "huConns (SyncSystem env i h) = huConns h"
  "huLive (SyncSystem env i h) = huLive h"
  "huCancelled (SyncSystem env i h) = huCancelled h"
  by (simp_all add: SyncSystem_def split: option.split)

lemma updateApp_frame [simp, frame_simps]:
  "huSystems (snd (updateApp env i r h)) = huSystems h"
  "huCommands (snd (updateApp env i r h)) = huCommands h"
  "huConns (snd (updateApp env i r h)) = huConns h"
  "huLive (snd (updateApp env i r h)) = huLive h"
  "huCancelled (snd (updateApp env i r h)) = huCancelled h"
  "huWire (snd (updateApp env i r h)) = huWire h"
  by (simp_all add: updateApp_def)

lemma updateSystem_frame [simp, frame_simps]:
  "huApps (snd (updateSystem env i s h)) = huApps h"
  "huCommands (snd (updateSystem env i s h)) = huCommands h"
  "huConns (snd (updateSystem env i s h)) = huConns h"
  "huLive (snd (updateSystem env i s h)) = huLive h"
  "huCancelled (snd (updateSystem env i s h)) = huCancelled h"
  "huWire (snd (updateSystem env i s h)) = huWire h"
  by (simp_all add: updateSystem_def)

lemma updateCommand_frame [simp, frame_simps]:
  "huApps (snd (updateCommand env i q h)) = huApps h"
  "huSystems (snd (updateCommand env i q h)) = huSystems h"
  "huConns (snd (updateCommand env i q h)) = huConns h"
  "huLive (snd (updateCommand env i q h)) = huLive h"
  "huCancelled (snd (updateCommand env i q h)) = huCancelled h"
  "huWire (snd (updateCommand env i q h)) = huWire h"
  by (simp_all add: updateCommand_def)

lemma setSystemStatus_frame [simp, frame_simps]:
  "huApps (setSystemStatus env i st h) = huApps h"
  "huCommands (setSystemStatus env i st h) = huCommands h"
  "huConns (setSystemStatus env i st h) = huConns h"
  "huLive (setSystemStatus env i st h) = huLive h"
  "huCancelled (setSystemStatus env i st h) = huCancelled h"
  "huWire (setSystemStatus env i st h) = huWire h"
  by (simp_all add: setSystemStatus_def split: option.split)

lemma regAdd_frame [simp, frame_simps]:
  "huApps (regAdd i c h) = huApps h"
  "huSystems (regAdd i c h) = huSystems h"
  "huCommands (regAdd i c h) = huCommands h"
  "huLive (regAdd i c h) = huLive h"
  "huWire (regAdd i c h) = huWire h"
  by (simp_all add: regAdd_def Let_def split: option.split)

lemma connOpen_frame [simp, frame_simps]:
  "huApps (connOpen env c i s h) = huApps h"
  "huCommands (connOpen env c i s h) = huCommands h"
  "huWire (connOpen env c i s h) = huWire h"
  by (simp_all add: connOpen_def connRegister_def)

lemma connClose_frame [simp, frame_simps]:
  "huApps (connClose env c h) = huApps h"
  "huCommands (connClose env c h) = huCommands h"
  "huWire (connClose env c h) = huWire h"
  by (simp_all add: connClose_def connUnregister_def regRemove_def Let_def split: option.split prod.split)

lemma Dispatch_frame [simp, frame_simps]:
  "huApps (snd (Dispatch env i q h)) = huApps h"
  "huSystems (snd (Dispatch env i q h)) = huSystems h"
  "huConns (snd (Dispatch env i q h)) = huConns h"
  "huLive (snd (Dispatch env i q h)) = huLive h"
  "huCancelled (snd (Dispatch env i q h)) = huCancelled h"
  by (simp_all add: Dispatch_def split: option.split)

lemma saveDispatched_frame [simp, frame_simps]:
  "huApps (saveDispatched env cid r e h) = huApps h"
  "huSystems (saveDispatched env cid r e h) = huSystems h"
  "huConns (saveDispatched env cid r e h) = huConns h"
  "huLive (saveDispatched env cid r e h) = huLive h"
  "huCancelled (saveDispatched env cid r e h) = huCancelled h"
  "huWire (saveDispatched env cid r e h) = huWire h"
  by (simp_all add: saveDispatched_def split: option.split)

lemma afterCreate_frame [simp, frame_simps]:
  "huApps (afterCreate env cid h) = huApps h"
  "huSystems (afterCreate env cid h) = huSystems h"
  "huConns (afterCreate env cid h) = huConns h"
  "huLive (afterCreate env cid h) = huLive h"
  "huCancelled (afterCreate env cid h) = huCancelled h"
  by (simp_all add: afterCreate_def dispatchCommand_def Let_def split: option.split)

lemma sweepOnes_frame:
  "huApps (fold (sweepOne env) xs h) = huApps h \<and> huWire (fold (sweepOne env) xs h) = huWire h
   \<and> huConns (fold (sweepOne env) xs h) = huConns h \<and> huSystems (fold (sweepOne env) xs h) = huSystems h
   \<and> huLive (fold (sweepOne env) xs h) = huLive h \<and> huCancelled (fold (sweepOne env) xs h) = huCancelled h"
  by (induction xs arbitrary: h) (auto simp: sweepOne_def)

lemma sweep_frame [simp, frame_simps]:
  "huApps (sweep env h) = huApps h"
  "huSystems (sweep env h) = huSystems h"
  "huConns (sweep env h) = huConns h"
  "huLive (sweep env h) = huLive h"
  "huCancelled (sweep env h) = huCancelled h"
  "huWire (sweep env h) = huWire h"
  using sweepOnes_frame by (auto simp: sweep_def)

subsection \<open>Approval comes from the host\<close>

definition approvedHash :: "'f hub \<Rightarrow> string \<Rightarrow> string option" where
  "approvedHash h i =
     (case findRecord i (huApps h) of
        None \<Rightarrow> None | Some r \<Rightarrow> if arApproval r = ApprovalApproved then Some (arHash r) else None)"

text \<open>An agent reports the approval of this hash, or registers a definition imported on its host.\<close>

fun hostApproves :: "'f hubEnv \<Rightarrow> 'f hubEvent \<Rightarrow> string \<Rightarrow> string \<Rightarrow> bool" where
  "hostApproves env (HFrame c (AFrame (FApprovalEvent ev))) i hash \<longleftrightarrow>
     apAppID ev = i \<and> apApproval ev = ApprovalApproved \<and> apDefinitionHash ev = hash"
| "hostApproves env (HFrame c (AFrame (FAppRegister def))) i hash \<longleftrightarrow>
     i = enNewID env \<and> enHash env def = hash \<and> Validate def = []"
| "hostApproves env e i hash \<longleftrightarrow> False"

lemma updateApp_find:
  "findRecord i (huApps (snd (updateApp env k r h))) =
     (if enSave env k \<and> i = k then Some r else findRecord i (huApps h))"
  by (simp add: updateApp_def coll.find_save)

lemma createApp_find:
  "findRecord i (huApps (snd (createApp env r h))) =
     (if enSave env (enNewID env) \<and> findRecord (enNewID env) (huApps h) = None \<and> i = enNewID env
      then Some r else findRecord i (huApps h))"
  by (simp add: createApp_def coll.find_save)

lemma approvedHash_cong: "huApps h = huApps h' \<Longrightarrow> approvedHash h i = approvedHash h' i"
  by (simp add: approvedHash_def)

lemma updateApp_approved:
  assumes "findRecord k (huApps h) = Some r0" "arApproval r = arApproval r0" "arHash r = arHash r0"
  shows "approvedHash (snd (updateApp env k r h)) i = approvedHash h i"
  using assms by (simp add: approvedHash_def updateApp_find)

lemma onAppEvent_approved: "approvedHash (snd (onAppEvent env ev h)) i = approvedHash h i"
  by (auto simp: onAppEvent_def updateApp_approved split: option.split)

lemma onApprovalEvent_approved:
  "approvedHash (snd (onApprovalEvent env ev h)) i = Some hash \<Longrightarrow>
     approvedHash h i = Some hash
     \<or> apAppID ev = i \<and> apApproval ev = ApprovalApproved \<and> apDefinitionHash ev = hash"
  by (auto simp: onApprovalEvent_def approvedHash_def updateApp_find split: option.splits if_splits)

lemma onAppRegister_approved:
  "approvedHash (snd (onAppRegister env c sysID def h)) i = Some hash \<Longrightarrow>
     approvedHash h i = Some hash \<or> i = enNewID env \<and> enHash env def = hash \<and> Validate def = []"
proof -
  assume a: "approvedHash (snd (onAppRegister env c sysID def h)) i = Some hash"
  let ?cr = "createApp env (registeredApp env sysID def) h"
  have apps: "huApps (snd (onAppRegister env c sysID def h)) = huApps h
      \<or> Validate def = [] \<and> huApps (snd (onAppRegister env c sysID def h)) = huApps (snd ?cr)"
    by (cases ?cr; cases "fst ?cr") (auto simp: onAppRegister_def)
  show ?thesis
  proof (cases "huApps (snd (onAppRegister env c sysID def h)) = huApps h")
    case True
    with a show ?thesis by (simp add: approvedHash_def)
  next
    case False
    with apps have v: "Validate def = []"
      and "huApps (snd (onAppRegister env c sysID def h)) = huApps (snd ?cr)" by blast+
    with a have "approvedHash (snd ?cr) i = Some hash" by (simp add: approvedHash_def)
    with v show ?thesis
      by (auto simp: approvedHash_def createApp_find registeredApp_def split: if_splits)
  qed
qed

lemma onHello_apps: "huApps (snd (onHello env c caps h)) = huApps h"
proof (cases "huLive h c")
  case (Some lv)
  then show ?thesis
    by (auto simp: onHello_def Let_def connSend_def sendAppSync_def split: option.split prod.split)
qed (simp add: onHello_def)

lemma onCmd_apps [simp]:
  "huApps (snd (onCmdAck env cid h)) = huApps h" "huApps (snd (onCmdResult env res h)) = huApps h"
  by (simp_all add: onCmdAck_def onCmdResult_def split: option.split)

lemma ingest_apps [simp]:
  "huApps (snd (ingestMetrics env s b h)) = huApps h" "huApps (snd (ingestTokens env s rows h)) = huApps h"
  "huApps (deliverLog chunk h) = huApps h"
  by (simp_all add: ingestMetrics_def ingestTokens_def deliverLog_def Let_def split: option.split prod.split)

lemma handleAgentFrame_approved:
  assumes "approvedHash (snd (handleAgentFrame env c sysID m h)) i = Some hash"
  shows "approvedHash h i = Some hash \<or> hostApproves env (HFrame c m) i hash"
proof (cases m)
  case (AFrame f)
  show ?thesis
  proof (cases f)
    case (FAppEvent ev)
    with AFrame assms onAppEvent_approved show ?thesis by (metis handleAgentFrame.simps(3))
  next
    case (FApprovalEvent ev)
    with AFrame assms onApprovalEvent_approved show ?thesis by fastforce
  next
    case (FAppRegister def)
    with AFrame assms onAppRegister_approved show ?thesis by fastforce
  qed (use AFrame assms in \<open>simp_all add: approvedHash_def onHello_apps\<close>)
qed (use assms in \<open>simp_all add: approvedHash_def\<close>)

lemma afterSave_frame [simp, frame_simps]:
  "huApps (snd (afterSave env i k res)) = huApps (snd res)"
  "huSystems (snd (afterSave env i k res)) = huSystems (snd res)"
  "huConns (snd (afterSave env i k res)) = huConns (snd res)"
  "huLive (snd (afterSave env i k res)) = huLive (snd res)"
  "huCancelled (snd (afterSave env i k res)) = huCancelled (snd res)"
  by (simp_all add: afterSave_def split: option.split)

lemma saveApp_apps:
  "huApps (snd (saveApp env authed sysID appID def h)) = huApps h
   \<or> (\<exists>r. findRecord appID (huApps h) = Some r \<and> huApps (snd (saveApp env authed sysID appID def h))
         = huApps (snd (updateApp env appID (editedApp env (withDefaults def) r) h)))
   \<or> huApps (snd (saveApp env authed sysID appID def h)) = huApps (snd (createApp env
       (withDefinition (withDefaults def) (enHash env (withDefaults def)) (freshApp (enNow env) sysID)) h))"
  by (cases "findRecord appID (huApps h)") (simp_all add: saveApp_def Let_def)

lemma saveApp_approved:
  assumes "approvedHash (snd (saveApp env authed sysID appID def h)) i = Some hash"
  shows "approvedHash h i = Some hash"
  using saveApp_apps [of env authed sysID appID def h]
proof (elim disjE exE conjE)
  assume "huApps (snd (saveApp env authed sysID appID def h)) = huApps h"
  with assms show ?thesis by (simp add: approvedHash_def)
next
  fix r
  assume f: "findRecord appID (huApps h) = Some r"
    and a: "huApps (snd (saveApp env authed sysID appID def h))
      = huApps (snd (updateApp env appID (editedApp env (withDefaults def) r) h))"
  have "arApproval (editedApp env d r) = ApprovalApproved
      \<Longrightarrow> arApproval r = ApprovalApproved \<and> arHash (editedApp env d r) = arHash r" for d
    by (auto simp: editedApp_def withDefinition_def split: if_splits)
  with assms f show ?thesis
    unfolding approvedHash_def a updateApp_find by (auto split: if_splits option.splits)
next
  assume "huApps (snd (saveApp env authed sysID appID def h)) = huApps (snd (createApp env
       (withDefinition (withDefaults def) (enHash env (withDefaults def)) (freshApp (enNow env) sysID)) h))"
  with assms show ?thesis
    by (simp add: approvedHash_def createApp_find withDefinition_def freshApp_def split: if_splits)
qed

lemma withDesired_approved:
  assumes "findRecord appID (huApps h) = Some r"
  shows "approvedHash (withDesired env appID v r h) i = approvedHash h i"
  using assms by (cases v) (simp_all add: withDesired_def updateApp_approved)

lemma createCommand_approved: "approvedHash (snd (createCommand env user appID t h)) i = approvedHash h i"
proof (cases "findRecord appID (huApps h)")
  case (Some r)
  have "huApps (snd (createCommand env user appID t h)) = huApps h
    \<or> huApps (snd (createCommand env user appID t h)) = huApps (withDesired env appID (verbOf t) r h)"
    by (simp add: createCommand_def Let_def Some)
  then show ?thesis
  proof (elim disjE)
    assume "huApps (snd (createCommand env user appID t h)) = huApps (withDesired env appID (verbOf t) r h)"
    then have "approvedHash (snd (createCommand env user appID t h)) i
        = approvedHash (withDesired env appID (verbOf t) r h) i" by (rule approvedHash_cong)
    with withDesired_approved [OF Some] show ?thesis by simp
  qed (rule approvedHash_cong)
qed (simp add: createCommand_def Let_def)

lemma requestCommand_result:
  "snd (requestCommand env user appID t h) =
     (case fst (createCommand env user appID t h) of
        Inl _ \<Rightarrow> snd (createCommand env user appID t h)
      | Inr cid \<Rightarrow> afterCreate env cid (snd (createCommand env user appID t h)))"
  by (simp add: requestCommand_def split: prod.split sum.split)

lemma hubStep_approved:
  assumes "approvedHash (hubStep env e h) i = Some hash"
  shows "approvedHash h i = Some hash \<or> hostApproves env e i hash"
proof (cases e)
  case (HConnect verify c sysID ts sig)
  with assms show ?thesis by (auto simp: approvedHash_def split: sum.splits)
next
  case (HFrame c m)
  show ?thesis
  proof (cases "huLive h c")
    case (Some lv)
    show ?thesis
    proof (cases "c \<in> set (huCancelled h)")
      case False
      with assms HFrame Some
      have "approvedHash (snd (handleAgentFrame env c (lvSystem lv) m h)) i = Some hash"
        by (simp add: serveFrame_def)
      from handleAgentFrame_approved [OF this] HFrame show ?thesis by simp
    qed (use assms HFrame Some in \<open>simp add: serveFrame_def\<close>)
  qed (use assms HFrame in \<open>simp add: serveFrame_def\<close>)
next
  case (HCommand user appID t)
  have "huApps (snd (requestCommand env user appID t h)) = huApps (snd (createCommand env user appID t h))"
    by (simp add: requestCommand_result split: sum.split)
  with createCommand_approved [of env user appID t h i] assms HCommand show ?thesis
    by (simp add: approvedHash_def)
next
  case (HSaveApp authed sysID appID def)
  with assms saveApp_approved show ?thesis by simp blast
qed (use assms in \<open>simp_all add: approvedHash_def\<close>)

definition runHub :: "('f hubEnv \<times> 'f hubEvent) list \<Rightarrow> 'f hub \<Rightarrow> 'f hub" where
  "runHub es h = fold (\<lambda>(env, e). hubStep env e) es h"

text \<open>C36: Approval is the host's alone. Whatever the hub's clients and agents do, in any history, an
  application record that is approved with a definition hash has been approved by an agent's
  report of exactly this hash, or was registered from a host's own import of a valid definition
  with this hash; no client request ever approves anything.\<close>

theorem approval_comes_from_host:
  assumes "huApps h0 = []" "approvedHash (runHub es h0) i = Some hash"
  shows "\<exists>(env, e) \<in> set es. hostApproves env e i hash"
  using assms(2)
proof (induction es rule: rev_induct)
  case Nil
  with assms(1) show ?case by (simp add: runHub_def approvedHash_def findRecord_def)
next
  case (snoc x es)
  obtain env e where x: "x = (env, e)" by force
  with snoc.prems have "approvedHash (hubStep env e (runHub es h0)) i = Some hash"
    by (simp add: runHub_def)
  from hubStep_approved [OF this] snoc.IH x show ?case by auto
qed

subsection \<open>Samples\<close>

definition emptyHub :: "int hub" where
  "emptyHub = \<lparr>huSystems = [], huApps = [], huCommands = [], huSettings = Some sampleSettings,
     huConns = Map.empty, huCancelled = [], huWire = [], huLive = Map.empty, huNotify = emptyNotifier,
     huTokens = sampleService, huSystemMetrics = [], huAppMetrics = [], huLogs = Map.empty\<rparr>"

definition sampleEnv :: "int \<Rightarrow> string \<Rightarrow> int hubEnv" where
  "sampleEnv now new = \<lparr>enNow = now, enSave = (\<lambda>_. True), enWrite = (\<lambda>_. True), enPost = Inr 200,
     enHash = defName, enNewID = new,
     enHost = \<lparr>hiVersion = ''1'', hiOS = ''linux'', hiArch = ''arm64'', hiHostname = ''pi''\<rparr>,
     enUsageOK = (\<lambda>_. True), enMetricOK = (\<lambda>_. True), enFloat = intOps,
     enMergeSystem = (\<lambda>_ c _. c), enMergeCommand = (\<lambda>_ c _. c)\<rparr>"

definition sampleSystem :: SystemRec where
  "sampleSystem = \<lparr>syName = ''pi'', syOS = [], syArch = [], syHostname = [], syVersion = [],
     syPublicKey = ''key'', syStatus = ''offline'', syLastSeen = 0, syCapabilities = []\<rparr>"

definition webDef :: AppDefinition where
  "webDef = \<lparr>defSchemaVersion = 1, defName = ''web'', defKind = KindProcess, defCmd = ''/bin/web'',
     defArgs = [], defCwd = [], defEnv = [], defPorts = [8080], defHealthCheck = None, defStop = None,
     defRestartPolicy = None, defContainerID = [], defComposeProject = [], defComposeFile = []\<rparr>"

text \<open>System s1 is known, connected on connection 1 and has no application yet.\<close>

definition sampleHub :: "int hub" where
  "sampleHub = connOpen (sampleEnv 5 ''x'') 1 ''s1'' sampleSystem
     (emptyHub\<lparr>huSystems := [(''s1'', sampleSystem)]\<rparr>)"

lemmas hub_samples = emptyHub_def sampleEnv_def sampleSystem_def sampleHub_def

theorem approval_comes_from_host_witness:
  "let es = [(sampleEnv 7 ''a1'', HFrame 1 (AFrame (FAppRegister webDef)))]
   in approvedHash (runHub es sampleHub) ''a1'' = Some ''web''
      \<and> (\<exists>(env, e) \<in> set es. hostApproves env e ''a1'' ''web'')"
proof -
  let ?es = "[(sampleEnv 7 ''a1'', HFrame 1 (AFrame (FAppRegister webDef)))]"
  have h0: "huApps sampleHub = []" by (simp add: hub_samples)
  have a: "approvedHash (runHub ?es sampleHub) ''a1'' = Some ''web''" by code_simp
  from a approval_comes_from_host [OF h0 a] show ?thesis unfolding Let_def by blast
qed

end
