(* ===== verification/AgentStore.thy ===== *)
theory AgentStore
  imports Protocol "HOL-Library.List_Lexorder" "HOL-Library.Char_ord"
begin

text \<open>
  The agent's local state and its persistence (\<^verbatim>\<open>agent/internal/appconfig/store.go\<close>): the
  application states, atomic saves by write-and-rename, and the spool directory through which
  command-line invocations hand operations to the running daemon.

  A file system is a map from paths to contents. \<^verbatim>\<open>encoding/json\<close> on a whole state or
  operation is a pair of functions \<open>enc\<close> and \<open>dec\<close>; what the code relies on is that decoding
  an encoded value gives it back.
\<close>

subsection \<open>Application states\<close>

record AppState =
  asDefinition :: AppDefinition
  asHash :: string
  asApproval :: Approval
  asDesiredState :: DesiredState
  asTokenTracking :: string
  asLastPID :: int
  asLastCmdBase :: string

record State =
  stHubURL :: string
  stSystemID :: string
  stApps :: "string \<rightharpoonup> AppState"

subsection \<open>Files and crashes\<close>

type_synonym fs = "string \<rightharpoonup> string"

datatype fsOp = WriteFile string string | Rename string string | RemoveFile string

fun applyOp :: "fsOp \<Rightarrow> fs \<Rightarrow> fs" where
  "applyOp (WriteFile p c) f = f(p \<mapsto> c)"
| "applyOp (Rename a b) f = (case f a of None \<Rightarrow> f | Some c \<Rightarrow> (f(a := None))(b \<mapsto> c))"
| "applyOp (RemoveFile p) f = f(p := None)"

text \<open>
  What a crash can leave of a sequence of operations: any prefix of it, the last write of
  which may be torn. A rename is atomic.
\<close>

inductive crash :: "fs \<Rightarrow> fsOp list \<Rightarrow> fs \<Rightarrow> bool" where
  crash_here: "crash f ops f"
| crash_torn: "crash f (WriteFile p c # ops) (f(p \<mapsto> c'))"
| crash_later: "crash (applyOp o1 f) ops f' \<Longrightarrow> crash f (o1 # ops) f'"

inductive_cases crash_NilE: "crash f [] f'"
inductive_cases crash_WriteE: "crash f (WriteFile p c # ops) f'"
inductive_cases crash_RenameE: "crash f (Rename a b # ops) f'"

text \<open>
  A writer that goes through a temporary file. Its clients rely on the target holding, at
  every instant, either what it held before or the whole new content.
\<close>

locale atomic_writer =
  fixes ops :: "'v \<Rightarrow> fsOp list"
    and encode :: "'v \<Rightarrow> string"
    and tmp :: string
    and target :: string
  assumes ops_eq: "ops v = [WriteFile tmp (encode v), Rename tmp target]"
    and tmp_target: "tmp \<noteq> target"
begin

lemma crash_atomic:
  assumes "crash f (ops v) f'"
  shows "f' target = f target \<or> f' target = Some (encode v)"
  using assms tmp_target unfolding ops_eq
  by (auto elim!: crash_WriteE crash_RenameE crash_NilE split: if_splits)

lemma completed: "fold applyOp (ops v) f target = Some (encode v)"
  using tmp_target by (simp add: ops_eq)

lemma others_untouched: "p \<noteq> tmp \<Longrightarrow> p \<noteq> target \<Longrightarrow> crash f (ops v) f' \<Longrightarrow> f' p = f p"
  unfolding ops_eq
  by (auto elim!: crash_WriteE crash_RenameE crash_NilE split: if_splits)

end

definition statePath :: "string \<Rightarrow> string" where
  "statePath dir = dir @ ''/state.json''"

definition SaveOps :: "(State \<Rightarrow> string) \<Rightarrow> string \<Rightarrow> State \<Rightarrow> fsOp list" where
  "SaveOps enc dir st =
     [WriteFile (statePath dir @ ''.tmp'') (enc st), Rename (statePath dir @ ''.tmp'') (statePath dir)]"

definition Save :: "(State \<Rightarrow> string) \<Rightarrow> string \<Rightarrow> State \<Rightarrow> fs \<Rightarrow> fs" where
  "Save enc dir st f = fold applyOp (SaveOps enc dir st) f"

definition emptyState :: State where
  "emptyState = \<lparr>stHubURL = '''', stSystemID = '''', stApps = Map.empty\<rparr>"

definition Load :: "(string \<Rightarrow> State option) \<Rightarrow> string \<Rightarrow> fs \<Rightarrow> State go_result" where
  "Load dec dir f =
     (case f (statePath dir) of
        None \<Rightarrow> Inr emptyState
      | Some b \<Rightarrow> (case dec b of
            None \<Rightarrow> Inl (''corrupt state file '' @ statePath dir)
          | Some st \<Rightarrow> Inr st))"

interpretation state_file: atomic_writer "SaveOps enc dir" enc "statePath dir @ ''.tmp''" "statePath dir"
  for enc dir
  by unfold_locales (simp_all add: SaveOps_def)

lemma Load_Save:
  "dec (enc st) = Some st \<Longrightarrow> Load dec dir (Save enc dir st f) = Inr st"
  using state_file.completed [of enc dir st f] by (simp add: Load_def Save_def)

text \<open>C2: The agent's state file is written atomically: at whatever point a crash interrupts a
  save (between its file operations or in the middle of a write), loading afterwards gives
  either what it gave before the save or exactly the saved state, never a torn file.\<close>

theorem state_save_atomic:
  assumes "crash f (SaveOps enc dir st) f'" "dec (enc st) = Some st"
  shows "Load dec dir f' = Load dec dir f \<or> Load dec dir f' = Inr st"
  using state_file.crash_atomic [OF assms(1)] assms(2) by (auto simp: Load_def)

theorem state_save_atomic_witness:
  "let st = \<lparr>stHubURL = ''http://hub'', stSystemID = ''sys1'', stApps = Map.empty\<rparr>;
       dec = (\<lambda>b. if b = ''v1'' then Some st else None); enc = (\<lambda>_. ''v1'');
       f' = Map.empty (''/d/state.json.tmp'' \<mapsto> ''v'')
   in crash Map.empty (SaveOps enc ''/d'' st) f'
      \<and> (Load dec ''/d'' f' = Load dec ''/d'' Map.empty \<or> Load dec ''/d'' f' = Inr st)"
proof -
  let ?st = "\<lparr>stHubURL = ''http://hub'', stSystemID = ''sys1'', stApps = Map.empty\<rparr>"
  have c: "crash Map.empty (SaveOps (\<lambda>_. ''v1'') ''/d'' ?st) (Map.empty (''/d/state.json.tmp'' \<mapsto> ''v''))"
    by (simp add: SaveOps_def statePath_def crash_torn)
  show ?thesis
    using c state_save_atomic [OF c, of "\<lambda>b. if b = ''v1'' then Some ?st else None"]
    by (simp add: Let_def)
qed

subsection \<open>The spool\<close>

record SpoolOp =
  soOp :: string
  soAppID :: string
  soDefinition :: "AppDefinition option"
  soQueuedAt :: int

datatype SpoolEntry = SpoolDir | SpoolUnreadable | SpoolFile string

type_synonym spool = "(string \<times> SpoolEntry) list"

definition spoolName :: "nat \<Rightarrow> SpoolOp \<Rightarrow> string" where
  "spoolName nanos op = showNat nanos @ ''-'' @ soOp op @ ''.json''"

text \<open>
  \<^verbatim>\<open>Enqueue\<close>: the hidden temporary file is renamed to its final name, which replaces a file
  of that name.
\<close>

definition Enqueue :: "(SpoolOp \<Rightarrow> string) \<Rightarrow> nat \<Rightarrow> SpoolOp \<Rightarrow> spool \<Rightarrow> spool" where
  "Enqueue enc nanos op dir =
     (let op' = op\<lparr>soQueuedAt := int nanos\<rparr>; name = spoolName nanos op
      in filter (\<lambda>(n, _). n \<noteq> name) dir @ [(name, SpoolFile (enc op'))])"

definition drainable :: "string \<times> SpoolEntry \<Rightarrow> bool" where
  "drainable e = (snd e \<noteq> SpoolDir \<and> \<not> hasPrefix (fst e) ''.'')"

text \<open>The loop of \<^verbatim>\<open>Drain\<close> over the sorted names: unreadable files stay, the others go.\<close>

fun drainNames :: "(string \<Rightarrow> SpoolOp option) \<Rightarrow> string list \<Rightarrow> spool \<Rightarrow> SpoolOp list \<times> spool" where
  "drainNames dec [] dir = ([], dir)"
| "drainNames dec (n # ns) dir =
     (case map_of dir n of
        Some (SpoolFile b) \<Rightarrow>
          (let (ops, rest) = drainNames dec ns (filter (\<lambda>(m, _). m \<noteq> n) dir)
           in (case dec b of Some op \<Rightarrow> op # ops | None \<Rightarrow> ops, rest))
      | _ \<Rightarrow> drainNames dec ns dir)"

definition Drain :: "(string \<Rightarrow> SpoolOp option) \<Rightarrow> spool \<Rightarrow> SpoolOp list \<times> spool" where
  "Drain dec dir = drainNames dec (sort (map fst (filter drainable dir))) dir"

subsubsection \<open>Names sort as their time stamps do\<close>

lemma list_less_append_same_length:
  fixes a b c d :: "'a::linorder list"
  assumes "length a = length b" "a < b"
  shows "a @ c < b @ d"
  using assms
proof (induction a b rule: list_induct2)
  case (Cons x xs y ys)
  then show ?case by (auto simp: list_less_def)
qed simp

lemma list_less_snoc:
  fixes a b :: "'a::linorder list"
  assumes "length a = length b" "a < b \<or> (a = b \<and> x < y)"
  shows "a @ [x] < b @ [y]"
  using assms(2)
proof
  assume "a < b"
  with assms(1) show ?thesis by (rule list_less_append_same_length)
next
  assume "a = b \<and> x < y"
  then show ?thesis by (auto simp: list_less_def lexord_same_pref_if_irrefl irrefl_def intro: lexord_append_leftI)
qed

lemma length_showNat_div: "\<not> n < 10 \<Longrightarrow> length (showNat n) = Suc (length (showNat (n div 10)))"
  by (subst showNat.simps) simp

lemma length_showNat_pos [simp]: "0 < length (showNat n)"
  by (subst showNat.simps) simp

lemma digit_char_less: "i < j \<Longrightarrow> j < 10 \<Longrightarrow> (char_of (48 + i) :: char) < char_of (48 + (j::nat))"
  by (simp add: less_char_def)

lemma showNat_less:
  "m < n \<Longrightarrow> length (showNat m) = length (showNat n) \<Longrightarrow> showNat m < showNat n"
proof (induction n arbitrary: m rule: less_induct)
  case (less n)
  show ?case
  proof (cases "n < 10")
    case True
    with less.prems show ?thesis
      by (subst (1 2) showNat.simps) (simp add: digit_char_less less_char_def)
  next
    case n: False
    with less.prems have m: "\<not> m < 10"
      using length_showNat_div [OF n] length_showNat_pos [of "n div 10"] by (auto simp: showNat.simps [of m])
    have len: "length (showNat (m div 10)) = length (showNat (n div 10))"
      using less.prems(2) length_showNat_div [OF n] length_showNat_div [OF m] by simp
    have "m div 10 < n div 10 \<or> (m div 10 = n div 10 \<and> m mod 10 < n mod 10)"
      using div_le_mono [of m n 10] less.prems(1) mult_div_mod_eq [of 10 m] mult_div_mod_eq [of 10 n]
      by linarith
    then have "showNat (m div 10) < showNat (n div 10)
        \<or> (showNat (m div 10) = showNat (n div 10)
           \<and> (char_of (48 + m mod 10) :: char) < char_of (48 + n mod 10))"
    proof
      assume "m div 10 < n div 10"
      with less.IH [of "n div 10" "m div 10"] n len show ?thesis by simp
    next
      assume "m div 10 = n div 10 \<and> m mod 10 < n mod 10"
      then show ?thesis using digit_char_less [of "m mod 10" "n mod 10"] by simp
    qed
    with len have "showNat (m div 10) @ [char_of (48 + m mod 10)]
        < showNat (n div 10) @ [char_of (48 + n mod 10)]"
      by (intro list_less_snoc) auto
    with m n show ?thesis by (simp add: showNat.simps [of m] showNat.simps [of n])
  qed
qed

lemma length_showNat: "10 ^ k \<le> n \<Longrightarrow> n < 10 ^ Suc k \<Longrightarrow> length (showNat n) = Suc k"
proof (induction k arbitrary: n)
  case 0
  then show ?case by (simp add: showNat.simps)
next
  case (Suc k)
  have "10 ^ k \<le> n div 10" "n div 10 < 10 ^ Suc k"
    using Suc.prems by (auto simp: less_mult_imp_div_less)
  moreover have "\<not> n < 10"
  proof -
    have "(10::nat) \<le> 10 ^ Suc k" by simp
    with Suc.prems(1) show ?thesis by linarith
  qed
  ultimately show ?case using Suc.IH by (simp add: length_showNat_div)
qed

text \<open>
  Between September 2001 and the year 2286 a UnixNano time stamp has 19 digits, so the names
  order as the time stamps.
\<close>

definition nanoEra :: "nat \<Rightarrow> bool" where
  "nanoEra t \<longleftrightarrow> 10 ^ 18 \<le> t \<and> t < 10 ^ 19"

lemma spoolName_less:
  assumes "nanoEra s" "nanoEra t" "s < t"
  shows "spoolName s op < spoolName t op'"
proof -
  have "length (showNat s) = length (showNat t)"
    using assms length_showNat [of 18 s] length_showNat [of 18 t]
    by (simp add: nanoEra_def)
  then show ?thesis
    using showNat_less [OF assms(3)] unfolding spoolName_def
    by (intro list_less_append_same_length) auto
qed

lemma showNat_digits: "c \<in> set (showNat n) \<Longrightarrow> \<exists>d < (10::nat). c = char_of (48 + d)"
proof (induction n rule: showNat.induct)
  case (1 n)
  show ?case
  proof (cases "n < 10")
    case True
    with 1(2) show ?thesis by (auto simp: showNat.simps [of n])
  next
    case False
    with 1(2) have "c \<in> set (showNat (n div 10)) \<or> c = char_of (48 + n mod 10)"
      by (auto simp: showNat.simps [of n])
    moreover have "n mod 10 < 10" by simp
    ultimately show ?thesis using 1(1) [OF False] by blast
  qed
qed

lemma showNat_not_Nil [simp]: "showNat n \<noteq> []"
  using length_showNat_pos [of n] by (metis length_0_conv less_numeral_extra(3))

lemma spoolName_visible: "\<not> hasPrefix (spoolName t op) ''.''"
proof -
  have "hd (showNat t) \<noteq> CHR ''.''"
  proof
    assume *: "hd (showNat t) = CHR ''.''"
    have "hd (showNat t) \<in> set (showNat t)" by simp
    then obtain d :: nat where "d < 10" "hd (showNat t) = char_of (48 + d)" using showNat_digits by blast
    with * have "of_char (char_of (48 + d)) = (of_char CHR ''.'' :: nat)" by simp
    with \<open>d < 10\<close> show False by simp
  qed
  then show ?thesis by (cases "showNat t") (auto simp: spoolName_def hasPrefix_def)
qed

text \<open>Several invocations, one after the other, into an empty spool.\<close>

definition enqueueAll :: "(SpoolOp \<Rightarrow> string) \<Rightarrow> (nat \<times> SpoolOp) list \<Rightarrow> spool \<Rightarrow> spool" where
  "enqueueAll enc qs dir = fold (\<lambda>(t, op). Enqueue enc t op) qs dir"

definition spooled :: "(SpoolOp \<Rightarrow> string) \<Rightarrow> nat \<times> SpoolOp \<Rightarrow> string \<times> SpoolEntry" where
  "spooled enc q = (spoolName (fst q) (snd q), SpoolFile (enc ((snd q)\<lparr>soQueuedAt := int (fst q)\<rparr>)))"

lemma enqueueAll_snoc:
  "enqueueAll enc (qs @ [q]) dir = Enqueue enc (fst q) (snd q) (enqueueAll enc qs dir)"
  by (simp add: enqueueAll_def split: prod.split)

lemma enqueueAll_spooled:
  assumes "sorted_wrt (<) (map fst qs)" "\<forall>q \<in> set qs. nanoEra (fst q)"
  shows "enqueueAll enc qs [] = map (spooled enc) qs"
  using assms
proof (induction qs rule: rev_induct)
  case Nil
  then show ?case by (simp add: enqueueAll_def)
next
  case (snoc q qs)
  have "spoolName (fst p) (snd p) \<noteq> spoolName (fst q) (snd q)" if "p \<in> set qs" for p
    using snoc.prems that spoolName_less [of "fst p" "fst q" "snd p" "snd q"]
    by (force simp: sorted_wrt_append)
  then have "filter (\<lambda>(n, _). n \<noteq> spoolName (fst q) (snd q)) (map (spooled enc) qs) = map (spooled enc) qs"
    by (auto simp: filter_id_conv spooled_def)
  with snoc show ?case
    by (simp add: enqueueAll_snoc Enqueue_def sorted_wrt_append spooled_def [of enc q] Let_def)
qed

lemma drainNames_spooled:
  assumes "distinct (map (fst \<circ> spooled enc) qs)"
  shows "drainNames dec (map (fst \<circ> spooled enc) qs) (map (spooled enc) qs)
     = (List.map_filter (\<lambda>q. dec (enc ((snd q)\<lparr>soQueuedAt := int (fst q)\<rparr>))) qs, [])"
  using assms
proof (induction qs)
  case (Cons q qs)
  have keep: "filter (\<lambda>(m, _). m \<noteq> spoolName (fst q) (snd q)) (map (spooled enc) qs) = map (spooled enc) qs"
    using Cons.prems unfolding filter_id_conv by (force simp: spooled_def)
  from Cons show ?case
    by (cases "dec (enc ((snd q)\<lparr>soQueuedAt := int (fst q)\<rparr>))")
      (simp_all add: keep spooled_def [of enc q] List.map_filter_def)
qed (simp add: List.map_filter_def)

lemma spool_names_sorted:
  assumes "sorted_wrt (<) (map fst qs)" "\<forall>q \<in> set qs. nanoEra (fst q)"
  shows "sorted_wrt (<) (map (fst \<circ> spooled enc) qs)"
  using assms by (induction qs) (auto simp: spooled_def intro: spoolName_less)


definition sampleOp :: "string \<Rightarrow> SpoolOp" where
  "sampleOp op = \<lparr>soOp = op, soAppID = op, soDefinition = None, soQueuedAt = 0\<rparr>"


end
