(* ===== verification/Supervisor.thy ===== *)
theory Supervisor
  imports Protocol
begin

text \<open>
  Process supervision (\<^verbatim>\<open>agent/internal/supervisor\<close>, unix build): starting a definition,
  counting the live members of a process group from the output of \<^verbatim>\<open>ps\<close>, waiting for a tree
  to go, the graceful stop with its escalation to SIGKILL, and the reaping of orphans.

  The operating system is an \<open>osTrace\<close>: the answers of the successive liveness probes and the
  successive readings of the clock, in the order in which the code asks for them.
\<close>

subsection \<open>Starting\<close>

record Proc =
  prID :: nat
  prPID :: int
  prDef :: AppDefinition

text \<open>
  \<^verbatim>\<open>StartProc\<close>: the environment of the child is the agent's, then the definition's, then the
  injected entries; \<open>spawn\<close> is what \<^verbatim>\<open>cmd.Start\<close> reports, an error or the new process id.
\<close>

definition procEnv :: "string list \<Rightarrow> AppDefinition \<Rightarrow> string list \<Rightarrow> string list" where
  "procEnv environ d extraEnv = environ @ map (\<lambda>(k, v). k @ ''='' @ v) (defEnv d) @ extraEnv"

definition StartProc :: "nat \<Rightarrow> AppDefinition \<Rightarrow> string + int \<Rightarrow> string + Proc" where
  "StartProc uid d spawn =
     (if defCmd d = [] then Inl ''empty cmd''
      else case spawn of Inl e \<Rightarrow> Inl e | Inr pid \<Rightarrow> Inr \<lparr>prID = uid, prPID = pid, prDef = d\<rparr>)"

lemma StartProc_Inr:
  "StartProc uid d spawn = Inr p \<longleftrightarrow>
     defCmd d \<noteq> [] \<and> (\<exists>pid. spawn = Inr pid \<and> p = \<lparr>prID = uid, prPID = pid, prDef = d\<rparr>)"
  by (auto simp: StartProc_def split: sum.splits)

text \<open>
  \<^verbatim>\<open>exec.Cmd\<close> uses the last entry of a duplicated variable: the value a child sees for \<open>key\<close>.
\<close>

definition childSees :: "string list \<Rightarrow> string \<Rightarrow> string option" where
  "childSees env key =
     map_option (\<lambda>e. drop (length key + 1) e) (find (\<lambda>e. hasPrefix e (key @ ''='')) (rev env))"

lemma find_append: "find P (xs @ ys) = (case find P xs of None \<Rightarrow> find P ys | Some x \<Rightarrow> Some x)"
  by (induction xs) auto

lemma childSees_extra:
  assumes "key @ ''='' @ v \<in> set extra"
    and "\<forall>e \<in> set extra. hasPrefix e (key @ ''='') \<longrightarrow> e = key @ ''='' @ v"
  shows "childSees (procEnv environ d extra) key = Some v"
proof -
  let ?P = "\<lambda>e. hasPrefix e (key @ ''='')"
  have "find ?P (rev extra) = Some (key @ ''='' @ v)"
  proof (cases "find ?P (rev extra)")
    case None
    with assms(1) show ?thesis by (auto simp: find_None_iff str_simps)
  next
    case (Some e)
    with assms(2) find_SomeD [OF Some] show ?thesis by auto
  qed
  then show ?thesis by (simp add: childSees_def procEnv_def find_append)
qed

subsection \<open>Liveness\<close>

text \<open>\<^verbatim>\<open>strings.Fields\<close> on the ASCII output of \<^verbatim>\<open>ps\<close>.\<close>

definition isBlank :: "char \<Rightarrow> bool" where
  "isBlank c \<longleftrightarrow> c \<in> set [CHR 0x09, CHR 0x0A, CHR 0x0B, CHR 0x0C, CHR 0x0D, CHR 0x20]"

fun fieldsAux :: "string \<Rightarrow> string \<Rightarrow> string list" where
  "fieldsAux acc [] = (if acc = [] then [] else [rev acc])"
| "fieldsAux acc (c # cs) =
     (if isBlank c then (if acc = [] then fieldsAux [] cs else rev acc # fieldsAux [] cs)
      else fieldsAux (c # acc) cs)"

definition fields :: "string \<Rightarrow> string list" where
  "fields s = fieldsAux [] s"

definition countsLive :: "int \<Rightarrow> string \<Rightarrow> bool" where
  "countsLive pgid line =
     (case fields line of
        g # st # _ \<Rightarrow> atoi g = Some pgid \<and> \<not> hasPrefix st ''Z''
      | _ \<Rightarrow> False)"

definition liveGroupMembers :: "int \<Rightarrow> (string + string) \<Rightarrow> nat" where
  "liveGroupMembers pgid psOut =
     (case psOut of Inl _ \<Rightarrow> 1
      | Inr out \<Rightarrow> length (filter (countsLive pgid) (splitOn CHR 0x0A out)))"

definition processGroupAlive :: "bool \<Rightarrow> int \<Rightarrow> (string + string) \<Rightarrow> bool" where
  "processGroupAlive killZeroOK pid psOut = (killZeroOK \<and> liveGroupMembers pid psOut > 0)"

text \<open>
  When \<^verbatim>\<open>ps\<close> cannot be run the group counts as alive; otherwise it is alive exactly when some
  line names the group with a state that is not a zombie's.
\<close>

lemma processGroupAlive_iff:
  "processGroupAlive k pid (Inr out) \<longleftrightarrow>
     k \<and> (\<exists>line \<in> set (splitOn CHR 0x0A out). countsLive pid line)"
  by (auto simp: processGroupAlive_def liveGroupMembers_def filter_empty_conv)

lemma processGroupAlive_ps_failed: "processGroupAlive True pid (Inl e)"
  by (simp add: processGroupAlive_def liveGroupMembers_def)

subsection \<open>Waiting for a tree to go\<close>

record osTrace =
  trProbe :: "nat \<Rightarrow> bool"
  trClock :: "nat \<Rightarrow> int"

text \<open>
  The cursor says how many probes and clock readings have been used and how often the loop has
  slept. The clock of the trace is the time that passes outside the sleeps, so a reading adds
  the 20 ms of every sleep so far; \<open>ticks\<close> says that it never runs backwards. \<open>fuel\<close> bounds the
  polls and \<open>waitTreeGone_returns\<close> says how much is enough.
\<close>

record cursor =
  cuProbe :: nat
  cuClock :: nat
  cuSleeps :: nat

definition pollInterval :: int where
  "pollInterval = 20000000"

definition probe :: "osTrace \<Rightarrow> cursor \<Rightarrow> bool \<times> cursor" where
  "probe tr c = (trProbe tr (cuProbe c), c\<lparr>cuProbe := Suc (cuProbe c)\<rparr>)"

definition timeAt :: "osTrace \<Rightarrow> cursor \<Rightarrow> int" where
  "timeAt tr c = trClock tr (cuClock c) + pollInterval * int (cuSleeps c)"

definition readClock :: "osTrace \<Rightarrow> cursor \<Rightarrow> int \<times> cursor" where
  "readClock tr c = (timeAt tr c, c\<lparr>cuClock := Suc (cuClock c)\<rparr>)"

definition sleepPoll :: "cursor \<Rightarrow> cursor" where
  "sleepPoll c = c\<lparr>cuSleeps := Suc (cuSleeps c)\<rparr>"

fun pollUntil :: "nat \<Rightarrow> osTrace \<Rightarrow> int \<Rightarrow> cursor \<Rightarrow> (bool \<times> cursor) option" where
  "pollUntil 0 tr deadline c = None"
| "pollUntil (Suc fuel) tr deadline c =
     (case readClock tr c of (now, c1) \<Rightarrow>
        if now < deadline then
          (case probe tr c1 of (alive, c2) \<Rightarrow>
             if \<not> alive then Some (True, c2)
             else pollUntil fuel tr deadline (sleepPoll c2))
        else (case probe tr c1 of (alive, c2) \<Rightarrow> Some (\<not> alive, c2)))"

definition waitTreeGone :: "nat \<Rightarrow> osTrace \<Rightarrow> int \<Rightarrow> cursor \<Rightarrow> (bool \<times> cursor) option" where
  "waitTreeGone fuel tr timeout c =
     (case readClock tr c of (now, c1) \<Rightarrow> pollUntil fuel tr (now + timeout) c1)"

definition ticks :: "osTrace \<Rightarrow> bool" where
  "ticks tr \<longleftrightarrow> (\<forall>i. trClock tr i \<le> trClock tr (Suc i))"

lemma ticks_Suc: "ticks tr \<Longrightarrow> trClock tr i \<le> trClock tr (Suc i)"
  by (simp add: ticks_def)

lemma pollUntil_returns:
  assumes "ticks tr" "deadline \<le> timeAt tr c + pollInterval * int fuel"
  shows "\<exists>r. pollUntil (Suc fuel) tr deadline c = Some r"
  using assms(2)
proof (induction fuel arbitrary: c)
  case 0
  then show ?case by (simp add: readClock_def probe_def)
next
  case (Suc fuel)
  let ?c = "sleepPoll (c\<lparr>cuClock := Suc (cuClock c), cuProbe := Suc (cuProbe c)\<rparr>)"
  have "deadline \<le> timeAt tr ?c + pollInterval * int fuel"
    using Suc.prems ticks_Suc [OF assms(1), of "cuClock c"]
    by (simp add: algebra_simps timeAt_def sleepPoll_def)
  from Suc.IH [OF this] show ?case
    by (subst pollUntil.simps) (auto simp: readClock_def probe_def)
qed

text \<open>The answer is the answer of the last probe: \<^verbatim>\<open>true\<close> means the tree was seen gone.\<close>

lemma pollUntil_last_probe:
  "pollUntil fuel tr deadline c = Some (r, c') \<Longrightarrow>
     cuProbe c < cuProbe c' \<and> r = (\<not> trProbe tr (cuProbe c' - 1))"
proof (induction fuel arbitrary: c)
  case (Suc fuel)
  then show ?case
    by (auto simp: readClock_def probe_def sleepPoll_def split: if_splits) fastforce+
qed simp

text \<open>Time only moves on, and \<^verbatim>\<open>false\<close> is answered only once the deadline has passed.\<close>

lemma pollUntil_time:
  assumes "ticks tr"
  shows "pollUntil fuel tr deadline c = Some (r, c') \<Longrightarrow>
     timeAt tr c \<le> timeAt tr c' \<and> (\<not> r \<longrightarrow> deadline \<le> timeAt tr c')"
proof (induction fuel arbitrary: c)
  case (Suc fuel)
  let ?c = "c\<lparr>cuClock := Suc (cuClock c), cuProbe := Suc (cuProbe c)\<rparr>"
  have "timeAt tr c \<le> timeAt tr ?c" "timeAt tr ?c \<le> timeAt tr (sleepPoll ?c)"
    using ticks_Suc [OF assms, of "cuClock c"]
    by (simp_all add: timeAt_def sleepPoll_def pollInterval_def)
  with Suc.prems Suc.IH [of "sleepPoll ?c"] show ?case
    by (auto simp: readClock_def probe_def split: if_splits)
qed simp

lemma waitTreeGone_last_probe:
  "waitTreeGone fuel tr timeout c = Some (r, c') \<Longrightarrow>
     cuProbe c < cuProbe c' \<and> r = (\<not> trProbe tr (cuProbe c' - 1))"
  unfolding waitTreeGone_def
  by (auto simp: readClock_def dest: pollUntil_last_probe)

subsection \<open>Stopping\<close>

definition stopSignal :: "string \<Rightarrow> string" where
  "stopSignal name =
     (if name = ''SIGINT'' then ''SIGINT'' else if name = ''SIGQUIT'' then ''SIGQUIT''
      else if name = ''SIGHUP'' then ''SIGHUP'' else ''SIGTERM'')"

definition defaultStopTimeout :: int where
  "defaultStopTimeout = 10 * second"

definition stopParams :: "AppDefinition \<Rightarrow> int \<times> string" where
  "stopParams d =
     (case defStop d of None \<Rightarrow> (defaultStopTimeout, '''')
      | Some s \<Rightarrow> (if ssTimeoutS s > 0 then wrap64 (ssTimeoutS s * second) else defaultStopTimeout,
                   ssSignal s))"

text \<open>
  \<^verbatim>\<open>Proc.Stop\<close>. \<open>sigErr\<close> and \<open>killErr\<close> are what \<^verbatim>\<open>kill(2)\<close> reports for the two signals. The
  result is the error, if any, the signals sent, each with the cursor at which it was sent, and
  the cursor at the end; the outer option is the fuel of the two waits.
\<close>

type_synonym sentSignal = "string \<times> cursor"

definition stopTail :: "nat \<Rightarrow> osTrace \<Rightarrow> int \<Rightarrow> string option \<Rightarrow> sentSignal list \<Rightarrow> cursor
    \<Rightarrow> (string option \<times> sentSignal list \<times> cursor) option" where
  "stopTail fuel tr pid killErr sigs c =
     (let sigs' = sigs @ [(''SIGKILL'', c)];
          wait = (\<lambda>c. case waitTreeGone fuel tr (5 * second) c of
                    None \<Rightarrow> None
                  | Some (True, c') \<Rightarrow> Some (None, sigs', c')
                  | Some (False, c') \<Rightarrow>
                      Some (Some (''process group '' @ showInt pid @ '' survived SIGKILL''), sigs', c'))
      in case killErr of
           None \<Rightarrow> wait c
         | Some e \<Rightarrow> (case probe tr c of (alive, c1) \<Rightarrow>
             if alive then Some (Some (''SIGKILL escalation failed: '' @ e), sigs', c1) else wait c1))"

definition Stop :: "nat \<Rightarrow> osTrace \<Rightarrow> string option \<Rightarrow> string option \<Rightarrow> Proc \<Rightarrow> cursor
    \<Rightarrow> (string option \<times> sentSignal list \<times> cursor) option" where
  "Stop fuel tr sigErr killErr p c =
     (let (timeout, sigName) = stopParams (prDef p); sigs = [(stopSignal sigName, c)]
      in case sigErr of
           Some e \<Rightarrow> (case probe tr c of (alive, c1) \<Rightarrow>
             if \<not> alive then Some (None, sigs, c1) else Some (Some e, sigs, c1))
         | None \<Rightarrow> (case waitTreeGone fuel tr timeout c of
             None \<Rightarrow> None
           | Some (True, c1) \<Rightarrow> Some (None, sigs, c1)
           | Some (False, c1) \<Rightarrow> stopTail fuel tr (prPID p) killErr sigs c1))"

lemma stopTail_nil_gone:
  "stopTail fuel tr pid killErr sigs c = Some (None, out, c') \<Longrightarrow>
     0 < cuProbe c' \<and> \<not> trProbe tr (cuProbe c' - 1)"
  by (auto simp: stopTail_def Let_def probe_def dest!: waitTreeGone_last_probe
      split: option.splits bool.splits if_splits)

text \<open>A stop that reports success has seen the whole tree gone.\<close>

lemma Stop_nil_gone:
  assumes "Stop fuel tr sigErr killErr p c = Some (None, out, c')"
  shows "0 < cuProbe c' \<and> \<not> trProbe tr (cuProbe c' - 1)"
  using assms
  by (auto simp: Stop_def Let_def probe_def dest!: waitTreeGone_last_probe stopTail_nil_gone
      split: prod.splits option.splits bool.splits if_splits)

text \<open>SIGKILL is sent only after the grace period of the definition has passed.\<close>

lemma waitTreeGone_time:
  assumes "ticks tr" "waitTreeGone fuel tr timeout c = Some (r, c')"
  shows "\<not> r \<Longrightarrow> timeAt tr c + timeout \<le> timeAt tr c'"
  using assms(2) pollUntil_time [OF assms(1)] unfolding waitTreeGone_def
  by (auto simp: readClock_def)

lemma stopSignal_not_KILL: "stopSignal s \<noteq> ''SIGKILL''"
  by (simp add: stopSignal_def)

lemma stopTail_sigs:
  "stopTail fuel tr pid killErr sigs c = Some (e, out, c') \<Longrightarrow> out = sigs @ [(''SIGKILL'', c)]"
  by (auto simp: stopTail_def Let_def split: option.splits bool.splits prod.splits if_splits)

lemma Stop_kill_after_grace:
  assumes "ticks tr" "Stop fuel tr sigErr killErr p c = Some (e, out, c')" "(''SIGKILL'', k) \<in> set out"
  shows "timeAt tr c + fst (stopParams (prDef p)) \<le> timeAt tr k"
  using assms(2,3) waitTreeGone_time [OF assms(1)]
  by (auto simp: Stop_def Let_def probe_def stopSignal_not_KILL stopSignal_not_KILL [symmetric]
      dest!: stopTail_sigs split: prod.splits option.splits bool.splits if_splits)

lemma waitTreeGone_returns:
  assumes "ticks tr" "timeout \<le> pollInterval * int fuel"
  shows "\<exists>r. waitTreeGone (Suc fuel) tr timeout c = Some r"
proof -
  let ?c = "c\<lparr>cuClock := Suc (cuClock c)\<rparr>"
  have "timeAt tr c + timeout \<le> timeAt tr ?c + pollInterval * int fuel"
    using assms(2) ticks_Suc [OF assms(1), of "cuClock c"] by (simp add: timeAt_def)
  then show ?thesis
    using pollUntil_returns [OF assms(1), of _ ?c fuel]
    by (simp add: waitTreeGone_def readClock_def del: pollUntil.simps)
qed

lemma stopTail_returns:
  assumes "ticks tr" "5 * second \<le> pollInterval * int fuel"
  shows "\<exists>r. stopTail (Suc fuel) tr pid killErr sigs c = Some r"
proof -
  have w: "\<exists>b c'. waitTreeGone (Suc fuel) tr (5 * second) c0 = Some (b, c')" for c0
    using waitTreeGone_returns [OF assms, of c0] by auto
  show ?thesis
    using w [of c] w [of "snd (probe tr c)"]
    by (auto simp: stopTail_def Let_def split: option.split prod.split bool.split)
qed

text \<open>
  Termination of a stop: with a ticking clock, as many polls as fit into the longer of the
  grace period and the five seconds after SIGKILL are enough.
\<close>

lemma Stop_returns:
  assumes "ticks tr" "5 * second \<le> pollInterval * int fuel"
    and "fst (stopParams (prDef p)) \<le> pollInterval * int fuel"
  shows "\<exists>r. Stop (Suc fuel) tr sigErr killErr p c = Some r"
proof (cases sigErr)
  case None
  obtain t s where ts: "stopParams (prDef p) = (t, s)" by force
  with assms(3) obtain b c1 where "waitTreeGone (Suc fuel) tr t c = Some (b, c1)"
    using waitTreeGone_returns [OF assms(1), of t fuel c] by auto
  with None ts show ?thesis
    using stopTail_returns [OF assms(1,2), of "prPID p" killErr "[(stopSignal s, c)]" c1]
    by (cases b) (simp_all add: Stop_def)
qed (auto simp: Stop_def probe_def Let_def split: prod.splits)

text \<open>C8: With a clock that never runs backwards, stopping a process tree always ends: it answers
  either an error or success, a success only after a probe has seen the whole tree gone, and
  SIGKILL is never sent before the grace period of the definition (ten seconds by default) has
  passed.\<close>

theorem stop_ends_tree:
  assumes "ticks tr" "5 * second \<le> pollInterval * int fuel"
    and "fst (stopParams (prDef p)) \<le> pollInterval * int fuel"
  shows "\<exists>e out c'. Stop (Suc fuel) tr sigErr killErr p c = Some (e, out, c')
    \<and> (e = None \<longrightarrow> \<not> trProbe tr (cuProbe c' - 1))
    \<and> (\<forall>k. (''SIGKILL'', k) \<in> set out \<longrightarrow> timeAt tr c + fst (stopParams (prDef p)) \<le> timeAt tr k)"
proof -
  obtain e out c' where *: "Stop (Suc fuel) tr sigErr killErr p c = Some (e, out, c')"
    using Stop_returns [OF assms, of sigErr killErr c] by auto
  show ?thesis
    using * Stop_nil_gone [of "Suc fuel" tr sigErr killErr p c out c']
      Stop_kill_after_grace [OF assms(1) *] by blast
qed

definition stubbornTrace :: osTrace where
  "stubbornTrace = \<lparr>trProbe = \<lambda>i. i < 3, trClock = \<lambda>i. int i\<rparr>"

definition sampleProc :: Proc where
  "sampleProc = \<lparr>prID = 1, prPID = 42, prDef =
     \<lparr>defSchemaVersion = 1, defName = ''web'', defKind = KindProcess, defCmd = ''node'', defArgs = [],
      defCwd = [], defEnv = [], defPorts = [], defHealthCheck = None,
      defStop = Some \<lparr>ssCommand = [], ssSignal = ''SIGINT'', ssTimeoutS = 2\<rparr>,
      defRestartPolicy = None, defContainerID = [], defComposeProject = [], defComposeFile = []\<rparr>\<rparr>"

theorem stop_ends_tree_witness:
  "\<exists>e out c'. Stop (Suc 250) stubbornTrace None None sampleProc \<lparr>cuProbe = 0, cuClock = 0, cuSleeps = 0\<rparr>
      = Some (e, out, c')
    \<and> (e = None \<longrightarrow> \<not> trProbe stubbornTrace (cuProbe c' - 1))
    \<and> (\<forall>k. (''SIGKILL'', k) \<in> set out \<longrightarrow>
         timeAt stubbornTrace \<lparr>cuProbe = 0, cuClock = 0, cuSleeps = 0\<rparr> + fst (stopParams (prDef sampleProc))
           \<le> timeAt stubbornTrace k)"
  by (rule stop_ends_tree)
    (simp_all add: ticks_def stubbornTrace_def sampleProc_def stopParams_def second_def
      pollInterval_def wrap64_def)

subsection \<open>Reaping orphans\<close>

text \<open>
  \<^verbatim>\<open>ReapOrphan\<close> force-kills a tree left over from an earlier run. \<open>nameMatches\<close> is what the
  process library says of the executable's base name. The result is the answer and whether
  the tree was killed.
\<close>

definition ReapOrphan :: "nat \<Rightarrow> osTrace \<Rightarrow> (int \<Rightarrow> string \<Rightarrow> bool) \<Rightarrow> int \<Rightarrow> string \<Rightarrow> cursor
    \<Rightarrow> (bool \<times> bool \<times> cursor) option" where
  "ReapOrphan fuel tr nameMatches pid expectCmdBase c =
     (if pid \<le> 0 then Some (False, False, c)
      else case probe tr c of (alive, c1) \<Rightarrow>
        if \<not> alive then Some (False, False, c1)
        else if expectCmdBase \<noteq> [] \<and> \<not> nameMatches pid expectCmdBase then Some (False, False, c1)
        else map_option (\<lambda>(r, c2). (r, True, c2)) (waitTreeGone fuel tr (5 * second) c1))"

lemma ReapOrphan_kills_only_matching:
  "ReapOrphan fuel tr nm pid base c = Some (r, True, c') \<Longrightarrow>
     0 < pid \<and> (base = [] \<or> nm pid base)"
  by (auto simp: ReapOrphan_def split: if_splits prod.splits)

end
