(* ===== verification/AgentDaemon.thy ===== *)
theory AgentDaemon
  imports AgentStore Supervisor
begin

text \<open>
  The agent's core (\<^verbatim>\<open>agent/internal/daemon\<close>: \<^verbatim>\<open>daemon.go\<close>, \<^verbatim>\<open>apps.go\<close>, \<^verbatim>\<open>restart.go\<close>,
  \<^verbatim>\<open>docker.go\<close> and the spool part of \<^verbatim>\<open>loops.go\<close>): the state under \<^verbatim>\<open>d.mu\<close>, starting and
  stopping applications, crash restarts, the reconciliation with the hub, the execution of hub
  commands and the host-side approvals. Every function is one operation of the source run to
  its end; what the host answers to it (spawn results, engine errors, the time) is the
  \<open>hostReply\<close> it is given.
\<close>

subsection \<open>State\<close>

datatype timer = TimerPending int | TimerFired

record restartState =
  rsCount :: int
  rsTimer :: "timer option"

record exec =
  exApp :: string
  exHash :: string
  exDef :: AppDefinition
  exEnv :: "string list"

datatype hostCall =
    CallSpawn exec
  | CallStopTree nat
  | CallDockerStart string
  | CallDockerStop string int
  | CallComposeStart string
  | CallComposeStop string

text \<open>
  The fields up to \<open>dDockerStatus\<close> are those of the \<^verbatim>\<open>Daemon\<close> struct (\<open>dConn\<close>: a connection
  exists; \<open>dProxy\<close>: the port of the metering proxy). \<open>dDisk\<close> is the \<^verbatim>\<open>apps\<close> map of the saved
  state, \<open>dDiskOK\<close> whether saving succeeds, \<open>dLive\<close> which process trees have a live member,
  \<open>dNextProc\<close> the identity of the next \<^verbatim>\<open>*supervisor.Proc\<close>; \<open>dSent\<close> and \<open>dCalls\<close> are the
  frames handed to the connection and the calls made to the host so far. \<open>dApproved\<close> and
  \<open>dImported\<close> record the host-side decisions (what was approved, and which hashes were
  imported), which the security property refers to.
\<close>

record daemon =
  dApps :: "string \<rightharpoonup> AppState"
  dProcs :: "string \<rightharpoonup> Proc"
  dStartTimes :: "string \<rightharpoonup> int"
  dRestarts :: "string \<rightharpoonup> restartState"
  dConn :: bool
  dPreApproved :: "string list"
  dDocker :: bool
  dProxy :: "int option"
  dDockerStatus :: "string \<rightharpoonup> AppStatus"
  dDisk :: "string \<rightharpoonup> AppState"
  dDiskOK :: bool
  dLive :: "nat \<Rightarrow> bool"
  dNextProc :: nat
  dSent :: "AgentFrame list"
  dCalls :: "hostCall list"
  dApproved :: "(string \<times> string \<times> AppDefinition) list"
  dImported :: "string list"

record ContainerState =
  csRunning :: bool
  csPID :: int
  csExitCode :: int

record hostReply =
  hrNow :: int
  hrLog :: "string option"
  hrSpawn :: "string + int"
  hrPorts :: "Port list"
  hrStop :: "string option"
  hrDockerStart :: "string option"
  hrDockerStop :: "string option"
  hrInspect :: "string + ContainerState"
  hrComposeStart :: "string option"
  hrComposeStop :: "string option"

definition isDockerKind :: "AppKind \<Rightarrow> bool" where
  "isDockerKind k = (k = KindDocker \<or> k = KindCompose)"

definition procAlive :: "daemon \<Rightarrow> string \<Rightarrow> bool" where
  "procAlive d appID = (case dProcs d appID of None \<Rightarrow> False | Some p \<Rightarrow> dLive d (prID p))"

subsection \<open>Sending and saving\<close>

definition sendF :: "AgentFrame \<Rightarrow> daemon \<Rightarrow> daemon" where
  "sendF f d = (if dConn d then d\<lparr>dSent := dSent d @ [f]\<rparr> else d)"

definition sendEvent :: "Port list \<Rightarrow> string \<Rightarrow> AppStatus \<Rightarrow> int \<Rightarrow> int option \<Rightarrow> daemon \<Rightarrow> daemon" where
  "sendEvent ports appID status pid exitCode d =
     sendF (FAppEvent \<lparr>aeAppID = appID, aeStatus = status, aePID = pid, aeExitCode = exitCode,
        aeRestartCount = 0,
        aePorts = (if status = StatusRunning \<and> pid \<noteq> 0 then ports else [])\<rparr>) d"

definition sendEventWithRestarts :: "string \<Rightarrow> AppStatus \<Rightarrow> int \<Rightarrow> int option \<Rightarrow> int \<Rightarrow> daemon \<Rightarrow> daemon" where
  "sendEventWithRestarts appID status pid exitCode restarts d =
     sendF (FAppEvent \<lparr>aeAppID = appID, aeStatus = status, aePID = pid, aeExitCode = exitCode,
        aeRestartCount = restarts, aePorts = []\<rparr>) d"

definition persist :: "daemon \<Rightarrow> daemon" where
  "persist d = (if dDiskOK d then d\<lparr>dDisk := dApps d\<rparr> else d)"

definition call :: "hostCall \<Rightarrow> daemon \<Rightarrow> daemon" where
  "call c d = d\<lparr>dCalls := dCalls d @ [c]\<rparr>"

definition putApp :: "string \<Rightarrow> AppState \<Rightarrow> daemon \<Rightarrow> daemon" where
  "putApp appID app d = d\<lparr>dApps := (dApps d)(appID \<mapsto> app)\<rparr>"

subsection \<open>Container applications\<close>

definition setDockerStatus :: "string \<Rightarrow> AppStatus \<Rightarrow> daemon \<Rightarrow> daemon" where
  "setDockerStatus appID s d = d\<lparr>dDockerStatus := (dDockerStatus d)(appID \<mapsto> s)\<rparr>"

definition stopTimeoutS :: "AppDefinition \<Rightarrow> int" where
  "stopTimeoutS def = (case defStop def of None \<Rightarrow> 10
     | Some s \<Rightarrow> if ssTimeoutS s > 0 then ssTimeoutS s else 10)"

definition startDockerApp :: "hostReply \<Rightarrow> string \<Rightarrow> AppDefinition \<Rightarrow> daemon \<Rightarrow> daemon \<times> string option" where
  "startDockerApp h appID def d =
     (if \<not> dDocker d then (d, Some ''docker is not available on this host'')
      else case defKind def of
        KindDocker \<Rightarrow>
          (let d1 = call (CallDockerStart (defContainerID def)) d
           in case hrDockerStart h of
                Some e \<Rightarrow> (sendEvent [] appID StatusErrored 0 None d1, Some e)
              | None \<Rightarrow>
                  (let pid = (case hrInspect h of Inl _ \<Rightarrow> 0 | Inr cs \<Rightarrow> csPID cs)
                   in (sendEvent (hrPorts h) appID StatusRunning pid None
                         (setDockerStatus appID StatusRunning d1), None)))
      | KindCompose \<Rightarrow>
          (let d1 = call (CallComposeStart (defComposeProject def)) d
           in case hrComposeStart h of
                Some e \<Rightarrow> (sendEvent [] appID StatusErrored 0 None d1, Some e)
              | None \<Rightarrow>
                  (sendEvent [] appID StatusRunning 0 None (setDockerStatus appID StatusRunning d1), None))
      | _ \<Rightarrow> (d, None))"

definition stopDockerApp :: "hostReply \<Rightarrow> string \<Rightarrow> AppDefinition \<Rightarrow> daemon \<Rightarrow> daemon \<times> string option" where
  "stopDockerApp h appID def d =
     (if \<not> dDocker d then (d, Some ''docker is not available on this host'')
      else
        let (d1, err) =
          (case defKind def of
             KindDocker \<Rightarrow> (call (CallDockerStop (defContainerID def) (stopTimeoutS def)) d, hrDockerStop h)
           | KindCompose \<Rightarrow> (call (CallComposeStop (defComposeProject def)) d, hrComposeStop h)
           | _ \<Rightarrow> (d, None))
        in case err of
             Some e \<Rightarrow> (sendEvent [] appID StatusErrored 0 None d1, Some e)
           | None \<Rightarrow> (sendEvent [] appID StatusStopped 0 None (setDockerStatus appID StatusStopped d1), None))"

subsection \<open>Starting and stopping\<close>

definition EnvFor :: "int \<Rightarrow> string \<Rightarrow> string list" where
  "EnvFor port appID =
     (let base = ''http://127.0.0.1:'' @ showInt port @ ''/t/'' @ appID
      in [''ANTHROPIC_BASE_URL='' @ base @ ''/anthropic'', ''OPENAI_BASE_URL='' @ base @ ''/openai/v1''])"

definition meteringEnv :: "AppState \<Rightarrow> int option \<Rightarrow> string \<Rightarrow> string list" where
  "meteringEnv app proxy appID =
     (if asTokenTracking app = ''runtime''
      then (case proxy of None \<Rightarrow> [] | Some port \<Rightarrow> EnvFor port appID) else [])"

text \<open>The second critical section of \<^verbatim>\<open>startApp\<close>: the process exists, now it is recorded.\<close>

definition recordStart :: "int \<Rightarrow> string \<Rightarrow> AppDefinition \<Rightarrow> Proc \<Rightarrow> daemon \<Rightarrow> daemon" where
  "recordStart now appID def p d =
     (let d1 = d\<lparr>dProcs := (dProcs d)(appID \<mapsto> p), dStartTimes := (dStartTimes d)(appID \<mapsto> now)\<rparr>
      in case dApps d1 appID of
           None \<Rightarrow> d1
         | Some a \<Rightarrow> persist (putApp appID (a\<lparr>asLastPID := prPID p, asLastCmdBase := defCmd def\<rparr>) d1))"

definition launch :: "hostReply \<Rightarrow> string \<Rightarrow> AppState \<Rightarrow> daemon \<Rightarrow> daemon \<times> string option" where
  "launch h appID app d =
     (let def = asDefinition app; env = meteringEnv app (dProxy d) appID
      in case StartProc (dNextProc d) def (hrSpawn h) of
           Inl e \<Rightarrow> (sendEvent [] appID StatusErrored 0 None d, Some e)
         | Inr p \<Rightarrow>
             (let d1 = (call (CallSpawn \<lparr>exApp = appID, exHash = asHash app, exDef = def, exEnv = env\<rparr>) d)
                         \<lparr>dNextProc := Suc (dNextProc d), dLive := (dLive d)(prID p := True)\<rparr>
              in (sendEvent (hrPorts h) appID StatusRunning (prPID p) None
                    (recordStart (hrNow h) appID def p d1), None)))"

definition startApp :: "hostReply \<Rightarrow> string \<Rightarrow> daemon \<Rightarrow> daemon \<times> string option" where
  "startApp h appID d =
     (case dApps d appID of
        None \<Rightarrow> (d, Some (''unknown app '' @ appID))
      | Some app \<Rightarrow>
          if procAlive d appID then (d, None)
          else if asApproval app \<noteq> ApprovalApproved then (d, Some ''app not approved on this host'')
          else if isDockerKind (defKind (asDefinition app)) then startDockerApp h appID (asDefinition app) d
          else case hrLog h of
              Some e \<Rightarrow> (d, Some e)
            | None \<Rightarrow> launch h appID app (sendEvent [] appID StatusStarting 0 None d))"

definition cancelRestart :: "string \<Rightarrow> daemon \<Rightarrow> daemon" where
  "cancelRestart appID d = d\<lparr>dRestarts := (dRestarts d)(appID := None)\<rparr>"

text \<open>\<open>hrStop\<close> is the answer of \<^verbatim>\<open>p.Stop()\<close>; \<open>Stop_nil_gone\<close> says what a success means.\<close>

definition stopApp :: "hostReply \<Rightarrow> string \<Rightarrow> daemon \<Rightarrow> daemon \<times> string option" where
  "stopApp h appID d0 =
     (let d = cancelRestart appID d0; app = dApps d appID; p = dProcs d appID;
          d1 = d\<lparr>dProcs := (dProcs d)(appID := None), dStartTimes := (dStartTimes d)(appID := None)\<rparr>
      in if (case app of None \<Rightarrow> False | Some a \<Rightarrow> isDockerKind (defKind (asDefinition a)))
         then stopDockerApp h appID (asDefinition (the app)) d1
         else case p of
             None \<Rightarrow> (d1, None)
           | Some pr \<Rightarrow>
               (let d2 = call (CallStopTree (prID pr)) d1
                in case hrStop h of
                     Some e \<Rightarrow> (sendEvent [] appID StatusErrored 0 None d2, Some e)
                   | None \<Rightarrow>
                       (let d3 = d2\<lparr>dLive := (dLive d2)(prID pr := False)\<rparr>;
                            d4 = (case dApps d3 appID of
                                    Some a \<Rightarrow> if asLastPID a \<noteq> 0
                                      then persist (putApp appID (a\<lparr>asLastPID := 0, asLastCmdBase := ''''\<rparr>) d3)
                                      else d3
                                  | None \<Rightarrow> d3)
                        in (sendEvent [] appID StatusStopped 0 None d4, None))))"

subsection \<open>Crash restarts\<close>

definition defaultMaxRestarts :: int where "defaultMaxRestarts = 15"
definition defaultMinUptime :: int where "defaultMinUptime = 1 * second"
definition defaultBackoffMax :: int where "defaultBackoffMax = 60 * second"

definition policyFor :: "AppDefinition \<Rightarrow> int \<times> int \<times> int" where
  "policyFor def =
     (case defRestartPolicy def of
        None \<Rightarrow> (defaultMaxRestarts, defaultMinUptime, defaultBackoffMax)
      | Some p \<Rightarrow>
          (rpMaxRestarts p,
           (if rpMinUptimeS p > 0 then wrap64 (rpMinUptimeS p * second) else defaultMinUptime),
           (if rpBackoffMaxS p > 0 then wrap64 (rpBackoffMaxS p * second) else defaultBackoffMax)))"

definition backoffDelay :: "int \<Rightarrow> int \<Rightarrow> int" where
  "backoffDelay count backoffMax =
     (let delay = shl64 second (nat (min (count - 1) 30))
      in if delay > backoffMax \<or> delay \<le> 0 then backoffMax else delay)"

definition wantsRun :: "AppState option \<Rightarrow> bool" where
  "wantsRun app = (case app of None \<Rightarrow> False
     | Some a \<Rightarrow> asDesiredState a = DesiredRunning \<and> asApproval a = ApprovalApproved)"

definition crashCount :: "int \<Rightarrow> int option \<Rightarrow> int \<Rightarrow> restartState option \<Rightarrow> int" where
  "crashCount now startedAt minUptime rs =
     (let before = (case rs of None \<Rightarrow> 0 | Some r \<Rightarrow> rsCount r);
          healthy = (case startedAt of None \<Rightarrow> False | Some t \<Rightarrow> now - t \<ge> minUptime)
      in (if healthy then 0 else before) + 1)"

definition handleUnexpectedExit :: "int \<Rightarrow> string \<Rightarrow> int \<Rightarrow> daemon \<Rightarrow> daemon" where
  "handleUnexpectedExit now appID exitCode d =
     (let app = dApps d appID; startedAt = dStartTimes d appID;
          d1 = d\<lparr>dStartTimes := (dStartTimes d)(appID := None)\<rparr>
      in if \<not> wantsRun app then sendEvent [] appID StatusStopped 0 (Some exitCode) d1
         else
           let (maxRestarts, minUptime, backoffMax) = policyFor (asDefinition (the app))
           in if maxRestarts \<le> 0 then sendEvent [] appID StatusStopped 0 (Some exitCode) d1
              else
                let rs = dRestarts d1 appID;
                    count = crashCount now startedAt minUptime rs;
                    oldTimer = (case rs of None \<Rightarrow> None | Some r \<Rightarrow> rsTimer r);
                    d2 = d1\<lparr>dRestarts := (dRestarts d1)(appID \<mapsto> \<lparr>rsCount = count, rsTimer = oldTimer\<rparr>)\<rparr>
                in if count > maxRestarts
                   then sendEventWithRestarts appID StatusErrored 0 (Some exitCode) (count - 1) d2
                   else
                     let delay = backoffDelay count backoffMax;
                         d3 = sendEventWithRestarts appID StatusBackoff 0 (Some exitCode) count d2
                     in d3\<lparr>dRestarts := (dRestarts d3)(appID \<mapsto>
                          \<lparr>rsCount = count, rsTimer = Some (TimerPending (now + delay))\<rparr>)\<rparr>)"

text \<open>
  The timer callback. The timer object stays in \<^verbatim>\<open>rs.timer\<close> after it has fired, which
  \<^verbatim>\<open>reconcile\<close> sees.
\<close>

definition timerFires :: "hostReply \<Rightarrow> string \<Rightarrow> daemon \<Rightarrow> daemon" where
  "timerFires h appID d =
     (case dRestarts d appID of
        None \<Rightarrow> d
      | Some rs \<Rightarrow> (case rsTimer rs of
          Some (TimerPending due) \<Rightarrow>
            if hrNow h < due then d
            else
              let d1 = d\<lparr>dRestarts := (dRestarts d)(appID \<mapsto> rs\<lparr>rsTimer := Some TimerFired\<rparr>)\<rparr>
              in if \<not> wantsRun (dApps d1 appID) then sendEvent [] appID StatusStopped 0 None d1
                 else (case startApp h appID d1 of
                         (d2, None) \<Rightarrow> d2
                       | (d2, Some _) \<Rightarrow> handleUnexpectedExit (hrNow h) appID (- 1) d2)
        | _ \<Rightarrow> d))"

text \<open>
  The watcher goroutine of one process: its root exited with \<open>code\<close> (\<open>lingers\<close>: other members
  of the tree are still alive). Only the current process of the application is reported.
\<close>

definition procExited :: "int \<Rightarrow> nat \<Rightarrow> string \<Rightarrow> int \<Rightarrow> bool \<Rightarrow> daemon \<Rightarrow> daemon" where
  "procExited now uid appID code lingers d =
     (let d1 = d\<lparr>dLive := (dLive d)(uid := dLive d uid \<and> lingers)\<rparr>
      in case dProcs d1 appID of
           Some p \<Rightarrow> if prID p = uid
             then handleUnexpectedExit now appID code (d1\<lparr>dProcs := (dProcs d1)(appID := None)\<rparr>)
             else d1
         | None \<Rightarrow> d1)"

end
