(* ===== verification/AgentControl.thy ===== *)
theory AgentControl
  imports AgentDaemon
begin

text \<open>
  The agent under the hub's control (\<^verbatim>\<open>daemon.go\<close>, \<^verbatim>\<open>restart.go\<close>, the spool part of
  \<^verbatim>\<open>loops.go\<close>, \<^verbatim>\<open>docker.go\<close>): applying the hub's full-state sync, converging to it, the command
  gate, the host-side approvals, the container poll and the boot sequence; then the agent as a
  state machine over these operations.

  Go iterates maps in an unspecified order: the operations that range over \<^verbatim>\<open>d.state.Apps\<close> take
  the order as a list of ids.
\<close>

subsection \<open>Application sync\<close>

text \<open>One entry of the sync; the flag is \<^verbatim>\<open>changed\<close>.\<close>

definition newApproval :: "AppSpec \<Rightarrow> daemon \<Rightarrow> Approval" where
  "newApproval spec d =
     (if spDefinitionHash spec \<in> set (dPreApproved d) then ApprovalApproved
      else if isDockerKind (defKind (spDefinition spec)) then ApprovalApproved
      else ApprovalPending)"

definition installSpec :: "AppSpec \<Rightarrow> daemon \<Rightarrow> daemon" where
  "installSpec spec d =
     (let approval = newApproval spec d
      in sendF (FApprovalEvent \<lparr>apAppID = spID spec, apApproval = approval,
                  apDefinitionHash = spDefinitionHash spec\<rparr>)
           (putApp (spID spec)
              \<lparr>asDefinition = spDefinition spec, asHash = spDefinitionHash spec,
               asApproval = approval, asDesiredState = spDesiredState spec,
               asTokenTracking = spTokenTracking spec, asLastPID = 0, asLastCmdBase = ''''\<rparr>
              (d\<lparr>dPreApproved := remove1 (spDefinitionHash spec) (dPreApproved d)\<rparr>)))"

definition applySpec :: "AppSpec \<Rightarrow> daemon \<times> bool \<Rightarrow> daemon \<times> bool" where
  "applySpec spec s =
     (let (d, changed) = s
      in case dApps d (spID spec) of
           Some loc \<Rightarrow>
             if asHash loc = spDefinitionHash spec then
               (if asDesiredState loc \<noteq> spDesiredState spec \<or> asTokenTracking loc \<noteq> spTokenTracking spec
                then (putApp (spID spec) (loc\<lparr>asDesiredState := spDesiredState spec,
                        asTokenTracking := spTokenTracking spec\<rparr>) d, True)
                else (d, changed))
             else (installSpec spec d, True)
         | None \<Rightarrow> (installSpec spec d, True))"

text \<open>
  An application the hub no longer lists: its process is stopped in the background (the call
  is recorded, the process is no longer supervised), its restart bookkeeping and its state go.
\<close>

definition removeApp :: "string \<Rightarrow> daemon \<Rightarrow> daemon" where
  "removeApp appID d =
     (let d1 = (case dProcs d appID of
                  None \<Rightarrow> d
                | Some p \<Rightarrow> (call (CallStopTree (prID p)) d)\<lparr>dProcs := (dProcs d)(appID := None)\<rparr>)
      in d1\<lparr>dRestarts := (dRestarts d1)(appID := None), dApps := (dApps d1)(appID := None)\<rparr>)"

definition applyAppSync :: "string list \<Rightarrow> AppSpec list \<Rightarrow> daemon \<Rightarrow> daemon" where
  "applyAppSync order specs d =
     (let (d1, changed) = fold applySpec specs (d, False);
          gone = filter (\<lambda>appID. dApps d1 appID \<noteq> None \<and> appID \<notin> spID ` set specs) order;
          d2 = fold removeApp gone d1
      in if changed \<or> gone \<noteq> [] then persist d2 else d2)"

subsection \<open>Reconciliation\<close>

definition dockerAlive :: "daemon \<Rightarrow> string \<Rightarrow> bool" where
  "dockerAlive d appID = (dDockerStatus d appID = Some StatusRunning)"

definition appAlive :: "daemon \<Rightarrow> string \<Rightarrow> AppState \<Rightarrow> bool" where
  "appAlive d appID app =
     (if isDockerKind (defKind (asDefinition app)) then dockerAlive d appID else procAlive d appID)"

definition timerArmed :: "daemon \<Rightarrow> string \<Rightarrow> bool" where
  "timerArmed d appID = (case dRestarts d appID of None \<Rightarrow> False | Some rs \<Rightarrow> rsTimer rs \<noteq> None)"

text \<open>The decision for one application: start it, stop it, or leave it.\<close>

definition decide :: "daemon \<Rightarrow> string \<Rightarrow> bool option" where
  "decide d appID =
     (case dApps d appID of
        None \<Rightarrow> None
      | Some app \<Rightarrow>
          if asApproval app \<noteq> ApprovalApproved then None
          else if asDesiredState app = DesiredRunning \<and> \<not> appAlive d appID app then
            (if timerArmed d appID then None else Some True)
          else if asDesiredState app = DesiredStopped \<and> appAlive d appID app then Some False
          else None)"

definition plan :: "string list \<Rightarrow> daemon \<Rightarrow> (string \<times> bool) list" where
  "plan order d = List.map_filter (\<lambda>appID. map_option (Pair appID) (decide d appID)) order"

definition act :: "(string \<Rightarrow> hostReply) \<Rightarrow> string \<times> bool \<Rightarrow> daemon \<Rightarrow> daemon" where
  "act hs a d = fst (if snd a then startApp (hs (fst a)) (fst a) d else stopApp (hs (fst a)) (fst a) d)"

definition reconcile :: "(string \<Rightarrow> hostReply) \<Rightarrow> string list \<Rightarrow> daemon \<Rightarrow> daemon" where
  "reconcile hs order d = fold (act hs) (plan order d) d"

subsection \<open>Commands\<close>

definition failCmd :: "string \<Rightarrow> string \<Rightarrow> daemon \<Rightarrow> daemon" where
  "failCmd cmdid msg = sendF (FCmdResult \<lparr>crCmdID = cmdid, crOK = False, crError = msg\<rparr>)"

definition persistDesired :: "string \<Rightarrow> DesiredState \<Rightarrow> daemon \<Rightarrow> daemon" where
  "persistDesired appID ds d =
     (case dApps d appID of
        None \<Rightarrow> d
      | Some a \<Rightarrow> if asDesiredState a \<noteq> ds
          then persist (putApp appID (a\<lparr>asDesiredState := ds\<rparr>) d) else d)"

fun runVerb :: "hostReply \<Rightarrow> Verb \<Rightarrow> string \<Rightarrow> daemon \<Rightarrow> (daemon \<times> string option) option" where
  "runVerb h VerbStart appID d = Some (startApp h appID (persistDesired appID DesiredRunning d))"
| "runVerb h VerbStop appID d = Some (stopApp h appID (persistDesired appID DesiredStopped d))"
| "runVerb h VerbRestart appID d =
     Some (case stopApp h appID (persistDesired appID DesiredRunning d) of
             (d1, Some e) \<Rightarrow> (d1, Some e)
           | (d1, None) \<Rightarrow> startApp h appID d1)"
| "runVerb h (OtherVerb _) appID d = None"

definition execute :: "hostReply \<Rightarrow> Cmd \<Rightarrow> daemon \<Rightarrow> daemon" where
  "execute h cmd d0 =
     (let d = sendF (FCmdAck (cmdID cmd)) d0; appID = cmdAppID cmd; fail = failCmd (cmdID cmd)
      in case dApps d appID of
           None \<Rightarrow> fail ''unknown app on this host'' d
         | Some app \<Rightarrow>
             if asHash app \<noteq> cmdDefinitionHash cmd then fail ''definition hash mismatch (stale command)'' d
             else if asApproval app \<noteq> ApprovalApproved then
               fail (''app definition not approved on this host (run: breakerbox-agent apps approve ''
                     @ appID @ '')'') d
             else case runVerb h (cmdVerb cmd) appID d of
                 None \<Rightarrow> fail ''verb not in fixed set'' d
               | Some (d1, Some e) \<Rightarrow> fail e d1
               | Some (d1, None) \<Rightarrow> sendF (FCmdResult \<lparr>crCmdID = cmdID cmd, crOK = True, crError = ''''\<rparr>) d1)"

subsection \<open>Host-side operations\<close>

definition setApproval :: "string \<Rightarrow> Approval \<Rightarrow> AppState \<Rightarrow> daemon \<Rightarrow> daemon" where
  "setApproval appID ap app d =
     sendF (FApprovalEvent \<lparr>apAppID = appID, apApproval = ap, apDefinitionHash = asHash app\<rparr>)
       (persist (putApp appID (app\<lparr>asApproval := ap\<rparr>) d))"

definition applySpoolOp :: "(AppDefinition \<Rightarrow> string) \<Rightarrow> SpoolOp \<Rightarrow> daemon \<Rightarrow> daemon" where
  "applySpoolOp hashf op d =
     (if soOp op = ''import'' then
        (case soDefinition op of
           None \<Rightarrow> d
         | Some def \<Rightarrow> sendF (FAppRegister def)
             (d\<lparr>dPreApproved := dPreApproved d @ [hashf def], dImported := dImported d @ [hashf def]\<rparr>))
      else if soOp op = ''approve'' \<or> soOp op = ''reject'' then
        (case dApps d (soAppID op) of
           None \<Rightarrow> d
         | Some app \<Rightarrow>
             if soOp op = ''approve''
             then setApproval (soAppID op) ApprovalApproved app
                    (d\<lparr>dApproved := dApproved d @ [(soAppID op, asHash app, asDefinition app)]\<rparr>)
             else setApproval (soAppID op) ApprovalRejected app d)
      else d)"

subsection \<open>Container poll\<close>

record ComposeState =
  cmRunning :: nat
  cmTotal :: nat
  cmContainerIDs :: "string list"

definition pollStatus :: "AppKind \<Rightarrow> (string + ContainerState) \<Rightarrow> (string + ComposeState)
    \<Rightarrow> AppStatus \<times> int \<times> int option" where
  "pollStatus kind insp cst =
     (case kind of
        KindDocker \<Rightarrow> (case insp of
            Inl _ \<Rightarrow> (StatusErrored, 0, None)
          | Inr cs \<Rightarrow> if csRunning cs then (StatusRunning, csPID cs, None)
                     else (StatusStopped, 0, Some (csExitCode cs)))
      | KindCompose \<Rightarrow> (case cst of
            Inl _ \<Rightarrow> (StatusErrored, 0, None)
          | Inr st \<Rightarrow> if cmRunning st > 0 then (StatusRunning, 0, None) else (StatusStopped, 0, None))
      | _ \<Rightarrow> (StatusUnknown, 0, None))"

definition pollApp :: "(string \<Rightarrow> (string + ContainerState) \<times> (string + ComposeState) \<times> Port list)
    \<Rightarrow> string \<times> AppDefinition \<Rightarrow> daemon \<Rightarrow> daemon" where
  "pollApp engine t d =
     (let (appID, def) = t; (insp, cst, ports) = engine appID;
          (status, pid, exitCode) = pollStatus (defKind def) insp cst;
          prev = dDockerStatus d appID;
          d1 = setDockerStatus appID status d
      in if prev = None \<or> prev \<noteq> Some status then sendEvent ports appID status pid exitCode d1 else d1)"

definition pollTargets :: "string list \<Rightarrow> daemon \<Rightarrow> (string \<times> AppDefinition) list" where
  "pollTargets order d =
     List.map_filter (\<lambda>appID. case dApps d appID of
         None \<Rightarrow> None
       | Some app \<Rightarrow> if isDockerKind (defKind (asDefinition app))
           then Some (appID, asDefinition app) else None) order"

definition pollDockerApps :: "(string \<Rightarrow> (string + ContainerState) \<times> (string + ComposeState) \<times> Port list)
    \<Rightarrow> string list \<Rightarrow> daemon \<Rightarrow> daemon" where
  "pollDockerApps engine order d = fold (pollApp engine) (pollTargets order d) d"

subsection \<open>Boot\<close>

text \<open>
  A fresh daemon over the saved state: what \<^verbatim>\<open>New\<close> builds. The list of what earlier runs did
  to the host and what the host decided is kept; every process of the earlier run is orphaned.
\<close>

definition newDaemon :: "bool \<Rightarrow> daemon \<Rightarrow> daemon" where
  "newDaemon docker d =
     d\<lparr>dApps := dDisk d, dProcs := Map.empty, dStartTimes := Map.empty, dRestarts := Map.empty,
       dConn := False, dPreApproved := [], dDocker := docker, dProxy := None,
       dDockerStatus := Map.empty\<rparr>"

definition reapable :: "AppState \<Rightarrow> bool" where
  "reapable app = (asLastPID app > 0 \<and> \<not> isDockerKind (defKind (asDefinition app)))"

text \<open>\<open>reapTargets\<close>: the trees \<^verbatim>\<open>Run\<close> asks the supervisor to reap, with the expected command.\<close>

definition reapTargets :: "string list \<Rightarrow> daemon \<Rightarrow> (int \<times> string) list" where
  "reapTargets order d =
     List.map_filter (\<lambda>appID. case dApps d appID of
         None \<Rightarrow> None
       | Some app \<Rightarrow> if reapable app then Some (asLastPID app, defCmd (asDefinition app)) else None) order"

definition clearReaped :: "string \<Rightarrow> daemon \<Rightarrow> daemon" where
  "clearReaped appID d =
     (case dApps d appID of
        None \<Rightarrow> d
      | Some app \<Rightarrow> if reapable app
          then putApp appID (app\<lparr>asLastPID := 0, asLastCmdBase := ''''\<rparr>) d else d)"

definition resurrect :: "(string \<Rightarrow> hostReply) \<Rightarrow> string \<Rightarrow> daemon \<Rightarrow> daemon" where
  "resurrect hs appID d =
     (if wantsRun (dApps d appID) then fst (startApp (hs appID) appID d) else d)"

definition bootRun :: "(string \<Rightarrow> hostReply) \<Rightarrow> string list \<Rightarrow> string list \<Rightarrow> daemon \<Rightarrow> daemon" where
  "bootRun hs order1 order2 d =
     fold (resurrect hs) order2 (persist (fold clearReaped order1 d))"

subsection \<open>Hello\<close>

definition digestOf :: "daemon \<Rightarrow> string \<Rightarrow> AppState \<Rightarrow> AppDigest" where
  "digestOf d appID app =
     (if procAlive d appID
      then \<lparr>adStatus = StatusRunning, adDefinitionHash = asHash app, adApproval = asApproval app,
            adPID = prPID (the (dProcs d appID))\<rparr>
      else \<lparr>adStatus = StatusStopped, adDefinitionHash = asHash app, adApproval = asApproval app,
            adPID = 0\<rparr>)"

definition sendHello :: "bool \<Rightarrow> string list \<Rightarrow> daemon \<Rightarrow> daemon" where
  "sendHello composeOK order d =
     (let digest = List.map_filter (\<lambda>appID. map_option (\<lambda>app. (appID, digestOf d appID app)) (dApps d appID)) order;
          caps = [''tokenwatch''] @ (if dDocker d then [''docker''] @ (if composeOK then [''compose''] else []) else [])
      in sendF (FHello digest caps) d)"

subsection \<open>The agent as a state machine\<close>

text \<open>
  \<open>handleFrame\<close> dispatches a hub frame; the log-stream frames are the subject of another
  theory and do not touch this state.
\<close>

fun handleFrame :: "(string \<Rightarrow> hostReply) \<Rightarrow> string list \<Rightarrow> HubFrame \<Rightarrow> daemon \<Rightarrow> daemon" where
  "handleFrame hs order HHelloAck d = d"
| "handleFrame hs order (HAppSync None) d = d"
| "handleFrame hs order (HAppSync (Some specs)) d = reconcile hs order (applyAppSync order specs d)"
| "handleFrame hs order (HCmd None) d = d"
| "handleFrame hs order (HCmd (Some cmd)) d = execute (hs (cmdAppID cmd)) cmd d"
| "handleFrame hs order (HLogFollow _) d = d"
| "handleFrame hs order (HLogCancel _) d = d"
| "handleFrame hs order HPing d = d"
| "handleFrame hs order (HUnknown _) d = d"

datatype agentEvent =
    EvFrame "string \<Rightarrow> hostReply" "string list" HubFrame
  | EvSpool SpoolOp
  | EvExit int nat string int bool
  | EvTimer hostReply string
  | EvPoll "string \<Rightarrow> (string + ContainerState) \<times> (string + ComposeState) \<times> Port list" "string list"
  | EvConnect bool "string list"
  | EvDisconnect
  | EvDisk bool
  | EvProxy "int option"
  | EvReboot bool "string \<Rightarrow> hostReply" "string list" "string list"

fun agentStep :: "(AppDefinition \<Rightarrow> string) \<Rightarrow> agentEvent \<Rightarrow> daemon \<Rightarrow> daemon" where
  "agentStep hashf (EvFrame hs order f) d = handleFrame hs order f d"
| "agentStep hashf (EvSpool op) d = applySpoolOp hashf op d"
| "agentStep hashf (EvExit now uid appID code lingers) d = procExited now uid appID code lingers d"
| "agentStep hashf (EvTimer h appID) d = timerFires h appID d"
| "agentStep hashf (EvPoll engine order) d = pollDockerApps engine order d"
| "agentStep hashf (EvConnect composeOK order) d = sendHello composeOK order (d\<lparr>dConn := True\<rparr>)"
| "agentStep hashf EvDisconnect d = d\<lparr>dConn := False\<rparr>"
| "agentStep hashf (EvDisk ok) d = d\<lparr>dDiskOK := ok\<rparr>"
| "agentStep hashf (EvProxy port) d = d\<lparr>dProxy := port\<rparr>"
| "agentStep hashf (EvReboot docker hs o1 o2) d = bootRun hs o1 o2 (newDaemon docker d)"

definition freshAgent :: daemon where
  "freshAgent = \<lparr>dApps = Map.empty, dProcs = Map.empty, dStartTimes = Map.empty, dRestarts = Map.empty,
     dConn = False, dPreApproved = [], dDocker = False, dProxy = None, dDockerStatus = Map.empty,
     dDisk = Map.empty, dDiskOK = True, dLive = (\<lambda>_. False), dNextProc = 0, dSent = [], dCalls = [],
     dApproved = [], dImported = []\<rparr>"

inductive reachable :: "(AppDefinition \<Rightarrow> string) \<Rightarrow> daemon \<Rightarrow> bool" for hashf where
  reach_fresh: "reachable hashf freshAgent"
| reach_step: "reachable hashf d \<Longrightarrow> reachable hashf (agentStep hashf e d)"

subsection \<open>Samples\<close>

text \<open>A concrete definition, agent and host answer, on which the theorems are instantiated.\<close>

definition sampleDef :: AppDefinition where
  "sampleDef = \<lparr>defSchemaVersion = 1, defName = ''web'', defKind = KindProcess, defCmd = ''/bin/web'',
     defArgs = [], defCwd = ''/srv/web'', defEnv = [], defPorts = [8080], defHealthCheck = None,
     defStop = None,
     defRestartPolicy = Some \<lparr>rpMaxRestarts = 2, rpMinUptimeS = 1, rpBackoffMaxS = 60\<rparr>,
     defContainerID = '''', defComposeProject = '''', defComposeFile = ''''\<rparr>"

definition sampleApp :: AppState where
  "sampleApp = \<lparr>asDefinition = sampleDef, asHash = ''h1'', asApproval = ApprovalApproved,
     asDesiredState = DesiredRunning, asTokenTracking = ''off'', asLastPID = 0, asLastCmdBase = ''''\<rparr>"

definition sampleAgent :: "string \<Rightarrow> AppState \<Rightarrow> daemon" where
  "sampleAgent appID app = freshAgent\<lparr>dApps := [appID \<mapsto> app], dConn := True\<rparr>"

definition sampleReply :: hostReply where
  "sampleReply = \<lparr>hrNow = 0, hrLog = None, hrSpawn = Inr 4242, hrPorts = [], hrStop = None,
     hrDockerStart = None, hrDockerStop = None, hrInspect = Inl ''no such container'',
     hrComposeStart = None, hrComposeStop = None\<rparr>"

lemmas sample_defs = sampleDef_def sampleApp_def sampleAgent_def sampleReply_def freshAgent_def

end
