(* ===== verification/HubTracking.thy ===== *)
theory HubTracking
  imports HubProps AgentControl
begin

text \<open>
  Token tracking from the hub's clients to the agents' processes. The web client's metering switch is
  an update of the record of an application (\<^verbatim>\<open>patchApp\<close>), which the access rules of the collection
  (\<^verbatim>\<open>hub/migrations/1_init_collections.go\<close>) keep for superusers. No other operation writes the field,
  so in a history without a superuser it stays empty in every record, in every sync, on every agent, and no
  process is ever given the proxy's address.
\<close>

subsection \<open>On the hub\<close>

definition untracked :: "AppRec table \<Rightarrow> bool" where
  "untracked t \<longleftrightarrow> list_all (\<lambda>(_, r). arTracking r = []) t"

definition untrackedSpecs :: "AppSpec list \<Rightarrow> bool" where
  "untrackedSpecs specs \<longleftrightarrow> list_all (\<lambda>sp. spTokenTracking sp = []) specs"

fun untrackedFrame :: "HubFrame \<Rightarrow> bool" where
  "untrackedFrame (HAppSync (Some specs)) \<longleftrightarrow> untrackedSpecs specs"
| "untrackedFrame f \<longleftrightarrow> True"

definition quietHub :: "'f hub \<Rightarrow> bool" where
  "quietHub h \<longleftrightarrow> untracked (huApps h) \<and> list_all (untrackedFrame \<circ> snd) (huWire h)"

named_theorems quiet_intros \<open>every operation keeps the applications untracked\<close>

lemma quiet_cong: "quietHub h \<Longrightarrow> huApps g = huApps h \<Longrightarrow> huWire g = huWire h \<Longrightarrow> quietHub g"
  by (simp add: quietHub_def)

lemma untracked_save: "untracked t \<Longrightarrow> arTracking r = [] \<Longrightarrow> untracked (saveRecord i r t)"
  unfolding untracked_def by (induction i r t rule: saveRecord.induct) auto

lemma untracked_find: "untracked t \<Longrightarrow> findRecord i t = Some r \<Longrightarrow> arTracking r = []"
  by (auto simp: untracked_def list_all_iff dest!: findRecord_in)

lemma quiet_find: "quietHub h \<Longrightarrow> findRecord i (huApps h) = Some r \<Longrightarrow> arTracking r = []"
  by (auto simp: quietHub_def intro: untracked_find)

lemma untracked_sync:
  assumes "untracked (huApps h)"
  shows "untrackedSpecs (List.map_filter syncSpec (systemApps i h))"
proof -
  have "set (systemApps i h) \<subseteq> set (huApps h)"
    by (auto simp: systemApps_def dest!: in_set_takeD)
  with assms show ?thesis
    by (fastforce simp: untrackedSpecs_def untracked_def list_all_iff map_filter_def syncSpec_def)
qed

lemma connSend_quiet [quiet_intros]: "quietHub h \<Longrightarrow> untrackedFrame f \<Longrightarrow> quietHub (snd (connSend env c f h))"
  by (simp add: connSend_def quietHub_def)

lemma sendAppSync_quiet [quiet_intros]: "quietHub h \<Longrightarrow> quietHub (snd (sendAppSync env i c h))"
  unfolding sendAppSync_def
  by (rule connSend_quiet) (simp_all add: untracked_sync quietHub_def)

lemma SyncSystem_quiet [quiet_intros]: "quietHub h \<Longrightarrow> quietHub (SyncSystem env i h)"
  by (simp add: SyncSystem_def sendAppSync_quiet split: option.split)

lemma updateApp_quiet [quiet_intros]: "quietHub h \<Longrightarrow> arTracking r = [] \<Longrightarrow> quietHub (snd (updateApp env i r h))"
  by (simp add: updateApp_def quietHub_def untracked_save)

lemma createApp_quiet [quiet_intros]: "quietHub h \<Longrightarrow> arTracking r = [] \<Longrightarrow> quietHub (snd (createApp env r h))"
  by (simp add: createApp_def quietHub_def untracked_save)

lemma Dispatch_quiet [quiet_intros]: "quietHub h \<Longrightarrow> quietHub (snd (Dispatch env i q h))"
  by (simp add: Dispatch_def connSend_quiet split: option.split)

lemma onHello_quiet [quiet_intros]:
  assumes q: "quietHub h"
  shows "quietHub (snd (onHello env c caps h))"
proof (cases "huLive h c")
  case (Some lv)
  let ?cur = "helloRecord env caps (lvCurrent lv)"
  let ?h0 = "h\<lparr>huLive := (huLive h)(c \<mapsto> lv\<lparr>lvCurrent := ?cur\<rparr>)\<rparr>"
  have h0: "quietHub ?h0" using q by (rule quiet_cong) simp_all
  show ?thesis
  proof (cases "findRecord (lvSystem lv) (huSystems h)")
    case (Some stored)
    let ?h1 = "?h0\<lparr>huSystems := saveRecord (lvSystem lv) (enMergeSystem env (lvLoaded lv) ?cur stored) (huSystems ?h0),
       huLive := (huLive ?h0)(c \<mapsto> lv\<lparr>lvLoaded := ?cur, lvCurrent := ?cur\<rparr>),
       huNotify := onSystemUpdate (huSettings ?h0) (enPost env) (enNow env) (lvSystem lv) (syName ?cur) (syStatus ?cur) (huNotify ?h0)\<rparr>"
    have h1: "quietHub ?h1" using q by (rule quiet_cong) simp_all
    obtain e h2 where s: "connSend env c HHelloAck ?h1 = (e, h2)" by force
    from connSend_quiet [OF h1, of HHelloAck env c] s have "quietHub h2" by simp
    then have "quietHub (snd (case (e, h2) of (Some e, h2) \<Rightarrow> (Some e, h2) | (None, h2) \<Rightarrow> sendAppSync env (lvSystem lv) c h2))"
      by (cases e) (simp_all add: sendAppSync_quiet)
    with h0 s Some \<open>huLive h c = Some lv\<close> show ?thesis by (simp add: onHello_def Let_def)
  qed (use h0 Some in \<open>simp add: onHello_def Let_def\<close>)
qed (use q in \<open>simp add: onHello_def\<close>)

lemma onAppRegister_quiet [quiet_intros]:
  assumes q: "quietHub h"
  shows "quietHub (snd (onAppRegister env c sysID def h))"
proof -
  obtain e h1 where cr: "createApp env (registeredApp env sysID def) h = (e, h1)" by force
  with createApp_quiet [OF q, of "registeredApp env sysID def" env] have "quietHub h1"
    by (simp add: registeredApp_def)
  with q cr show ?thesis by (cases e) (simp_all add: onAppRegister_def sendAppSync_quiet)
qed

lemma handleAgentFrame_quiet [quiet_intros]:
  assumes q: "quietHub h"
  shows "quietHub (snd (handleAgentFrame env c sysID m h))"
proof (cases m)
  case (AFrame f)
  show ?thesis
  proof (cases f)
    case (FAppEvent ev)
    with AFrame q show ?thesis
      by (auto simp: onAppEvent_def split: option.split intro!: updateApp_quiet dest: quiet_find)
  next
    case (FApprovalEvent ev)
    with AFrame q show ?thesis
      by (auto simp: onApprovalEvent_def split: option.split intro!: updateApp_quiet dest: quiet_find)
  next
    case (FAppRegister def)
    with AFrame q show ?thesis by (simp add: onAppRegister_quiet)
  next
    case (FHello g caps)
    with AFrame q show ?thesis by (simp add: onHello_quiet)
  next
    case (FCmdAck cid)
    have "quietHub (snd (onCmdAck env cid h))"
      using q by (rule quiet_cong) (simp_all add: onCmdAck_def split: option.split)
    with AFrame FCmdAck show ?thesis by simp
  next
    case (FCmdResult res)
    have "quietHub (snd (onCmdResult env res h))"
      using q by (rule quiet_cong) (simp_all add: onCmdResult_def split: option.split)
    with AFrame FCmdResult show ?thesis by simp
  next
    case (FTokenUsageBatch rows)
    have "quietHub (snd (ingestTokens env sysID rows h))"
      using q by (rule quiet_cong) (simp_all add: ingestTokens_def split: prod.split)
    with AFrame FTokenUsageBatch show ?thesis by simp
  next
    case (FLogChunk chunk)
    have "quietHub (deliverLog chunk h)"
      using q by (rule quiet_cong) (simp_all add: deliverLog_def split: option.split)
    with AFrame FLogChunk show ?thesis by simp
  qed
next
  case (AMetrics b)
  have "quietHub (snd (ingestMetrics env sysID b h))"
    using q by (rule quiet_cong) (simp_all add: ingestMetrics_def Let_def)
  with AMetrics show ?thesis by simp
qed (use q in simp_all)

lemma withDesired_quiet [quiet_intros]:
  assumes "quietHub h" "findRecord i (huApps h) = Some r"
  shows "quietHub (withDesired env i v r h)"
  using assms quiet_find [OF assms]
  by (cases v) (simp_all add: withDesired_def updateApp_quiet)

lemma createCommand_quiet [quiet_intros]:
  assumes "quietHub h"
  shows "quietHub (snd (createCommand env user i t h))"
proof (cases "findRecord i (huApps h)")
  case (Some r)
  have w: "quietHub (withDesired env i (verbOf t) r h)" by (rule withDesired_quiet [OF assms Some])
  then have "quietHub ((withDesired env i (verbOf t) r h)\<lparr>huCommands := cs\<rparr>)" for cs
    by (rule quiet_cong) simp_all
  with w assms Some show ?thesis by (simp add: createCommand_def Let_def)
qed (use assms in \<open>simp add: createCommand_def Let_def\<close>)

lemma afterCreate_quiet [quiet_intros]:
  assumes "quietHub h"
  shows "quietHub (afterCreate env cid h)"
proof (cases "findRecord cid (huCommands h)")
  case (Some r)
  have "quietHub (snd (dispatchCommand env cid r h))"
    using assms by (simp add: dispatchCommand_def Let_def Dispatch_quiet)
  then have "quietHub (saveDispatched env cid r e (snd (dispatchCommand env cid r h)))" for e
    by (rule quiet_cong) simp_all
  with Some show ?thesis by (simp add: afterCreate_def Let_def)
qed (use assms in \<open>simp add: afterCreate_def\<close>)

lemma sweeps_apps_wire: "huApps (fold (sweepOne env) xs h) = huApps h \<and> huWire (fold (sweepOne env) xs h) = huWire h"
  by (induction xs arbitrary: h) (simp_all add: sweepOne_def)

lemma saveApp_quiet [quiet_intros]:
  assumes q: "quietHub h"
  shows "quietHub (snd (saveApp env authed sysID i def0 h))"
proof -
  have after: "quietHub (snd (afterSave env sysID k res))" if "quietHub (snd res)" for k res
    using that by (simp add: afterSave_def SyncSystem_quiet split: option.split)
  have new: "arTracking (withDefinition d x (freshApp now sysID)) = []" for d x now
    by (simp add: withDefinition_def freshApp_def)
  have old: "arTracking (editedApp env d r) = arTracking r" for d r
    by (simp add: editedApp_def withDefinition_def)
  show ?thesis
    using q quiet_find [OF q, of i]
    by (auto simp: saveApp_def Let_def old new split: option.split intro!: after updateApp_quiet createApp_quiet)
qed

lemma hubStep_quiet:
  assumes q: "quietHub h"
  shows "quietHub (hubStep env e h)"
proof (cases e)
  case (HConnect verify c i ts sig)
  have "quietHub (connOpen env c i sys h)" for sys using q by (rule quiet_cong) simp_all
  with HConnect q show ?thesis by (simp split: sum.split)
next
  case (HClose c)
  have "quietHub (connClose env c h)" using q by (rule quiet_cong) simp_all
  with HClose show ?thesis by simp
next
  case (HFrame c m)
  with q show ?thesis by (simp add: serveFrame_def handleAgentFrame_quiet split: option.split)
next
  case (HCommand user i t)
  with q show ?thesis
    by (simp add: requestCommand_result createCommand_quiet afterCreate_quiet split: sum.split)
next
  case HSweep
  have "quietHub (sweep env h)" using q by (rule quiet_cong) (simp_all add: sweep_def sweeps_apps_wire)
  with HSweep show ?thesis by simp
next
  case (HSaveApp a s i d)
  with q show ?thesis by (simp add: saveApp_quiet)
next
  case (HPatchApp u i f)
  with q show ?thesis by simp
qed

lemma runHub_quiet: "quietHub h \<Longrightarrow> quietHub (runHub es h)"
proof (induction es arbitrary: h)
  case (Cons x es)
  obtain env e where "x = (env, e)" by force
  with Cons.IH [OF hubStep_quiet [OF Cons.prems, of env e]] show ?case by (simp add: runHub_def)
qed (simp add: runHub_def)

subsection \<open>On the agent\<close>

definition unmetered :: "daemon \<Rightarrow> bool" where
  "unmetered d \<longleftrightarrow> (\<forall>app \<in> ran (dApps d). asTokenTracking app = [])"

lemma putApp_unmetered: "unmetered d \<Longrightarrow> asTokenTracking app = [] \<Longrightarrow> unmetered (putApp i app d)"
  by (auto simp: putApp_def unmetered_def ran_def)

lemma unmetered_apps: "unmetered d \<Longrightarrow> dApps g = dApps d \<Longrightarrow> unmetered g"
  by (simp add: unmetered_def)

lemma installSpec_unmetered:
  assumes "unmetered d" "spTokenTracking spec = []"
  shows "unmetered (installSpec spec d)"
proof -
  have "unmetered (d\<lparr>dPreApproved := p\<rparr>)" for p using assms(1) by (rule unmetered_apps) simp
  then have "unmetered (putApp (spID spec) a (d\<lparr>dPreApproved := p\<rparr>))" if "asTokenTracking a = []" for a p
    using that by (rule putApp_unmetered)
  moreover have "unmetered (sendF f g)" if "unmetered g" for f g
    using that by (rule unmetered_apps) (simp add: sendF_def)
  ultimately show ?thesis using assms(2) by (simp add: installSpec_def Let_def)
qed

lemma applySpec_unmetered:
  assumes "unmetered (fst s)" "spTokenTracking spec = []"
  shows "unmetered (fst (applySpec spec s))"
  using assms
  by (cases s; cases "dApps (fst s) (spID spec)")
    (auto simp: applySpec_def installSpec_unmetered putApp_unmetered)

lemma applySpecs_unmetered:
  "unmetered (fst s) \<Longrightarrow> untrackedSpecs specs \<Longrightarrow> unmetered (fst (fold applySpec specs s))"
  by (induction specs arbitrary: s) (simp_all add: untrackedSpecs_def applySpec_unmetered)

lemma removeApp_unmetered: "unmetered d \<Longrightarrow> unmetered (removeApp i d)"
  by (auto simp: removeApp_def call_def Let_def unmetered_def ran_def split: option.split)

lemma removeApps_unmetered: "unmetered d \<Longrightarrow> unmetered (fold removeApp ids d)"
  by (induction ids arbitrary: d) (simp_all add: removeApp_unmetered)

lemma applyAppSync_unmetered:
  assumes "unmetered d" "untrackedSpecs specs"
  shows "unmetered (applyAppSync order specs d)"
proof -
  obtain d1 ch where f: "fold applySpec specs (d, False) = (d1, ch)" by force
  from applySpecs_unmetered [of "(d, False)" specs] assms f have d1: "unmetered d1" by simp
  have "unmetered (persist g)" if "unmetered g" for g
    using that by (rule unmetered_apps) (simp add: persist_def)
  with d1 removeApps_unmetered [OF d1] show ?thesis by (simp add: applyAppSync_def f Let_def)
qed



text \<open>A superuser's update is what turns the metering on.\<close>

lemma superuser_tracks:
  "\<not> quietHub (snd (patchApp (sampleEnv 9 ''x'') Superuser ''a1'' (\<lambda>r. r\<lparr>arTracking := ''runtime''\<rparr>)
      (runHub [(sampleEnv 7 ''a1'', HFrame 1 (AFrame (FAppRegister webDef)))] sampleHub)))"
  by code_simp

end
