(* ===== verification/Transport.thy ===== *)
theory Transport
  imports BB_Prelude
begin

text \<open>
  The agent's outbound connection (\<^verbatim>\<open>agent/internal/transport/transport.go\<close>): the bounded send
  queue that drops its oldest frame under pressure, and the jittered reconnect delays.
\<close>

subsection \<open>The send queue\<close>

definition sendCap :: nat where
  "sendCap = 256"

text \<open>
  The loop of \<^verbatim>\<open>Conn.Send\<close>. \<open>closed\<close>: the context is done; \<open>pickDone\<close>: \<^verbatim>\<open>select\<close> picks the
  closed context when the queue has room as well. A full queue loses its oldest frame.
\<close>

function sendLoop :: "bool \<Rightarrow> bool \<Rightarrow> 'f list \<Rightarrow> 'f \<Rightarrow> 'f list \<times> bool" where
  "sendLoop closed pickDone q b =
     (if length q < sendCap \<and> \<not> (closed \<and> pickDone) then (q @ [b], True)
      else if closed then (q, False)
      else sendLoop closed pickDone (drop 1 q) b)"
  by pat_completeness auto
termination
  by (relation "measure (\<lambda>(c, p, q, b). length q)") (auto simp: sendCap_def)

declare sendLoop.simps [simp del]

lemma sendLoop_open: "sendLoop False p q b = (last_n sendCap (q @ [b]), True)"
proof (induction "length q" arbitrary: q rule: less_induct)
  case less
  show ?case
  proof (cases "length q < sendCap")
    case True
    then show ?thesis by (subst sendLoop.simps) simp
  next
    case False
    then have "length (drop 1 q) < length q" by (simp add: sendCap_def)
    from less [OF this] have "sendLoop False p (drop 1 q) b = (last_n sendCap (drop 1 q @ [b]), True)" .
    moreover have "last_n sendCap (drop 1 q @ [b]) = last_n sendCap (q @ [b])"
      using False by (cases q) (auto simp: last_n_def sendCap_def drop_Cons')
    ultimately show ?thesis using False by (subst sendLoop.simps) simp
  qed
qed

text \<open>The queue after sending a list of frames on an open connection.\<close>

definition sendAll :: "'f list \<Rightarrow> 'f list \<Rightarrow> 'f list" where
  "sendAll q bs = fold (\<lambda>b q. fst (sendLoop False False q b)) bs q"

lemma sendAll_last_n: "length q \<le> sendCap \<Longrightarrow> sendAll q bs = last_n sendCap (q @ bs)"
proof (induction bs arbitrary: q)
  case (Cons b bs)
  have "sendAll q (b # bs) = sendAll (last_n sendCap (q @ [b])) bs"
    by (simp add: sendAll_def sendLoop_open)
  also have "\<dots> = last_n sendCap (q @ b # bs)"
    using Cons.IH [of "last_n sendCap (q @ [b])"] last_n_append_last_n [of sendCap "q @ [b]" bs] by simp
  finally show ?case .
qed (simp add: sendAll_def)

subsection \<open>Reconnect delays\<close>

text \<open>
  \<^verbatim>\<open>Backoff.Next\<close>: the delay and the next attempt counter; \<open>nanos\<close> is the wall clock. Go's
  division truncates; all operands here are non-negative.
\<close>

definition backoffNext :: "int \<Rightarrow> nat \<Rightarrow> int \<times> nat" where
  "backoffNext nanos attempt =
     (let d0 = shl64 second attempt;
          (d, attempt') = (if d0 > 60 * second then (60 * second, attempt) else (d0, attempt + 1));
          jitter = nanos mod (d div 2)
      in (d div 4 * 3 + jitter div 2, attempt'))"

definition backoffReset :: "nat \<Rightarrow> nat" where
  "backoffReset _ = 0"

text \<open>The base delay of an attempt.\<close>

definition baseDelay :: "nat \<Rightarrow> int" where
  "baseDelay attempt = min (second * 2 ^ attempt) (60 * second)"

lemma jittered:
  assumes "4 \<le> d" "0 \<le> nanos"
  shows "3 * (d div 4) \<le> d div 4 * 3 + nanos mod (d div 2) div 2
    \<and> d div 4 * 3 + nanos mod (d div 2) div 2 < (d :: int)"
proof -
  have "0 < d div 2" using assms(1) by simp
  then have "0 \<le> nanos mod (d div 2)" "nanos mod (d div 2) < d div 2" by simp_all
  then show ?thesis by linarith
qed

lemma attempt_capped: "attempt \<le> 6 \<Longrightarrow> (60 * second < second * 2 ^ attempt) = (attempt = 6)"
proof -
  assume "attempt \<le> 6"
  then have "attempt \<in> {0, 1, 2, 3, 4, 5, 6 :: nat}" by auto
  then show ?thesis by (auto simp: second_def)
qed

lemma backoffNext_small:
  assumes "attempt \<le> 6" "0 \<le> nanos"
  shows "snd (backoffNext nanos attempt) = min 6 (attempt + 1)
    \<and> 3 * (baseDelay attempt div 4) \<le> fst (backoffNext nanos attempt)
    \<and> fst (backoffNext nanos attempt) < baseDelay attempt"
proof -
  have s: "shl64 second attempt = second * 2 ^ attempt" using assms(1) by (intro shl64_second) simp
  have big: "4 \<le> baseDelay attempt"
  proof -
    have "(1::int) \<le> 2 ^ attempt" by simp
    then have "second * 1 \<le> second * 2 ^ attempt"
      by (intro mult_left_mono) (simp_all add: second_def)
    then show ?thesis unfolding baseDelay_def second_def by linarith
  qed
  have "backoffNext nanos attempt =
     (baseDelay attempt div 4 * 3 + nanos mod (baseDelay attempt div 2) div 2, min 6 (attempt + 1))"
    using attempt_capped [OF assms(1)] assms(1)
    by (auto simp: backoffNext_def s baseDelay_def Let_def min_def)
  with jittered [OF big assms(2)] show ?thesis by simp
qed

text \<open>The attempts and delays of a sequence of failed connections after a reset.\<close>

fun backoffRun :: "int list \<Rightarrow> nat \<Rightarrow> int list \<times> nat" where
  "backoffRun [] a = ([], a)"
| "backoffRun (t # ts) a =
     (let (d, a') = backoffNext t a; (ds, a'') = backoffRun ts a' in (d # ds, a''))"

lemma backoffRun_attempt:
  "a \<le> 6 \<Longrightarrow> \<forall>t \<in> set ts. 0 \<le> t \<Longrightarrow> snd (backoffRun ts a) = min 6 (a + length ts)"
proof (induction ts arbitrary: a)
  case (Cons t ts)
  obtain d a' where n: "backoffNext t a = (d, a')" by force
  with backoffNext_small [of a t] Cons.prems have "a' = min 6 (a + 1)" by simp
  with Cons.IH [of a'] Cons.prems n show ?case by (auto simp: Let_def split: prod.splits)
qed simp

lemma backoffRun_append:
  "backoffRun (ts @ us) a =
     (fst (backoffRun ts a) @ fst (backoffRun us (snd (backoffRun ts a))),
      snd (backoffRun us (snd (backoffRun ts a))))"
  by (induction ts arbitrary: a) (auto simp: Let_def split: prod.splits)

text \<open>The k-th reconnect delay after a healthy connection lies between three quarters of
  its base delay and the base delay itself, the base doubling from one second up to the cap of
  one minute: the jitter only shortens the delay, the cap is never exceeded, and the 64-bit
  shift never overflows, however long the hub stays away.\<close>

theorem reconnect_delay_bounds:
  assumes "\<forall>t \<in> set ts. 0 \<le> t" "0 \<le> t"
  defines "base \<equiv> min (second * 2 ^ min 6 (length ts)) (60 * second)"
  shows "\<exists>d. fst (backoffRun (ts @ [t]) (backoffReset a)) = fst (backoffRun ts 0) @ [d]
    \<and> 3 * (base div 4) \<le> d \<and> d < base \<and> d < 60 * second"
proof -
  let ?a = "snd (backoffRun ts 0)"
  have a: "?a = min 6 (length ts)" using backoffRun_attempt [OF _ assms(1), of 0] by simp
  then have "?a \<le> 6" by simp
  from backoffNext_small [OF this assms(2)] a
  have b: "3 * (base div 4) \<le> fst (backoffNext t ?a) \<and> fst (backoffNext t ?a) < base"
    by (simp add: baseDelay_def base_def)
  have "base \<le> 60 * second" by (simp add: base_def)
  with b show ?thesis
    by (intro exI [of _ "fst (backoffNext t ?a)"])
      (auto simp: backoffRun_append backoffReset_def Let_def split: prod.splits)
qed

theorem reconnect_delay_bounds_witness:
  "\<exists>d. fst (backoffRun ([5, 9] @ [1234567890123]) (backoffReset 3)) = fst (backoffRun [5, 9] 0) @ [d]
    \<and> 3 * second \<le> d \<and> d < 4 * second"
  using reconnect_delay_bounds [of "[5, 9]" 1234567890123 3] by (auto simp: second_def)

end
