(* ===== verification/LogFollow.thy ===== *)
theory LogFollow
  imports Protocol
begin

text \<open>
  Following the log file of a process application (\<^verbatim>\<open>agent/internal/daemon/logstream.go\<close>): the
  last lines first, then what is appended, found by polling the size of the file; and the
  table of live streams with their cancel functions. The file contents, the sizes and the
  number of bytes a read returns are what the operating system answers.
\<close>

subsection \<open>Tailing a file\<close>

definition maxChunkLines :: nat where
  "maxChunkLines = 200"

definition maxLogFileSize :: nat where
  "maxLogFileSize = 5 * 2 ^ 20"

record follow =
  foOffset :: nat
  foPartial :: string

text \<open>The first pass: \<open>None\<close> is a file that cannot be read. The second result is what \<^verbatim>\<open>emit\<close> gets.\<close>

definition initialTail :: "int \<Rightarrow> string option \<Rightarrow> follow \<times> string list list" where
  "initialTail tailN file =
     (let n = (if tailN \<le> 0 then 200 else nat tailN) in
      case file of
        None \<Rightarrow> (\<lparr>foOffset = 0, foPartial = []\<rparr>, [])
      | Some b \<Rightarrow>
          (let lines = last_n n (splitOn CHR 0x0A (trimSuffix b [CHR 0x0A]))
           in (\<lparr>foOffset = length b, foPartial = []\<rparr>,
               if (lines \<noteq> [] \<and> hd lines \<noteq> []) \<or> 1 < length lines then [lines] else [])))"

text \<open>\<^verbatim>\<open>emit\<close> gets at most \<open>maxChunkLines\<close> lines at a time.\<close>

function emitChunks :: "string list \<Rightarrow> string list list" where
  "emitChunks ls =
     (if ls = [] then []
      else if maxChunkLines < length ls
        then take maxChunkLines ls # emitChunks (drop maxChunkLines ls)
      else [ls])"
  by auto
termination by (relation "measure length") (auto simp: maxChunkLines_def)

declare emitChunks.simps [simp del]

text \<open>
  One tick. \<open>file\<close> is the content of the file when it could be opened and its size read; \<open>n\<close> is
  how many bytes the read returned (never more than the buffer, never beyond the content).
\<close>

definition pollLog :: "string option \<Rightarrow> nat \<Rightarrow> follow \<Rightarrow> follow \<times> string list list" where
  "pollLog file n st =
     (case file of
        None \<Rightarrow> (st, [])
      | Some content \<Rightarrow>
          (let size = length content;
               st1 = (if size < foOffset st then \<lparr>foOffset = 0, foPartial = []\<rparr> else st)
           in if size = foOffset st1 then (st1, [])
              else (let bytes = take (min n (size - foOffset st1)) (drop (foOffset st1) content);
                        (partial, lines) = lineFeed (foPartial st1) bytes
                    in (\<lparr>foOffset = foOffset st1 + length bytes, foPartial = partial\<rparr>,
                        emitChunks lines))))"

fun pollLogs :: "(string option \<times> nat) list \<Rightarrow> follow \<Rightarrow> follow \<times> string list list" where
  "pollLogs [] st = (st, [])"
| "pollLogs ((file, n) # obs) st =
     (let (st1, out1) = pollLog file n st; (st2, out2) = pollLogs obs st1 in (st2, out1 @ out2))"

text \<open>\<^verbatim>\<open>rotateLogIfNeeded\<close>: whether the file is renamed away when the application starts.\<close>

definition rotateLogIfNeeded :: "string \<Rightarrow> (string \<Rightarrow> string option) \<Rightarrow> (string \<Rightarrow> string option)" where
  "rotateLogIfNeeded path fs =
     (case fs path of
        None \<Rightarrow> fs
      | Some b \<Rightarrow> if length b < maxLogFileSize then fs
                  else fs(path @ ''.1'' := Some b, path := None))"

lemma concat_emitChunks [simp]: "concat (emitChunks ls) = ls"
proof (induction ls rule: emitChunks.induct)
  case (1 ls)
  then show ?case by (subst emitChunks.simps) simp
qed

lemma emitChunks_bound: "c \<in> set (emitChunks ls) \<Longrightarrow> c \<noteq> [] \<and> length c \<le> maxChunkLines"
proof (induction ls rule: emitChunks.induct)
  case (1 ls)
  from 1(2) show ?case
    by (subst (asm) emitChunks.simps)
      (use 1(1) in \<open>auto simp: maxChunkLines_def split: if_splits\<close>)
qed

text \<open>
  A log that is only appended to: \<open>grown full start n\<close> says that the file held, at each of the
  observations, a prefix of \<open>full\<close>, never a shorter one than before. The invariant: what has been
  emitted are the complete lines of what was read, the partial line is the rest.
\<close>

fun grown :: "string \<Rightarrow> nat \<Rightarrow> (string option \<times> nat) list \<Rightarrow> bool" where
  "grown full k [] \<longleftrightarrow> True"
| "grown full k ((None, n) # obs) \<longleftrightarrow> grown full k obs"
| "grown full k ((Some c, n) # obs) \<longleftrightarrow>
     prefix c full \<and> k \<le> length c \<and> grown full (length c) obs"

definition following :: "string \<Rightarrow> nat \<Rightarrow> follow \<Rightarrow> string list \<Rightarrow> bool" where
  "following full start st ls \<longleftrightarrow>
     start \<le> foOffset st \<and> foOffset st \<le> length full
     \<and> lineFeed [] (take (foOffset st - start) (drop start full)) = (foPartial st, ls)"

lemma prefix_take_drop:
  "prefix c full \<Longrightarrow> i + k \<le> length c \<Longrightarrow> take k (drop i c) = take k (drop i full)"
  by (auto simp: prefix_def)

lemma pollLog_following:
  assumes "following full start st ls" "prefix c full" "foOffset st \<le> length c"
    and "pollLog (Some c) n st = (st', out)"
  shows "following full start st' (ls @ concat out)" "foOffset st' \<le> length c"
proof -
  let ?k = "min n (length c - foOffset st)"
  let ?b = "take ?k (drop (foOffset st) c)"
  have len: "length ?b = ?k" by simp
  have b: "?b = take ?k (drop (foOffset st) full)"
    by (rule prefix_take_drop [OF assms(2)]) (use assms(3) in simp)
  have ends: "take (foOffset st - start) (drop start full) @ ?b
      = take (foOffset st + ?k - start) (drop start full)"
  proof -
    have "start \<le> foOffset st" using assms(1) by (simp add: following_def)
    then have "take (foOffset st - start) (drop start full) @ take ?k (drop (foOffset st) full)
        = take (foOffset st - start + ?k) (drop start full)"
      by (simp only: take_add drop_drop le_add_diff_inverse2)
    moreover have "foOffset st - start + ?k = foOffset st + ?k - start"
      using \<open>start \<le> foOffset st\<close> by simp
    ultimately show ?thesis by (simp only: b)
  qed
  have le: "length c \<le> length full" using assms(2) by (rule prefix_length_le)
  have out: "foOffset st' \<le> length c \<and> following full start st' (ls @ concat out)"
  proof (cases "length c = foOffset st")
    case True
    with assms show ?thesis by (simp add: pollLog_def)
  next
    case False
    obtain p l where f: "lineFeed (foPartial st) ?b = (p, l)" by force
    have st': "st' = \<lparr>foOffset = foOffset st + ?k, foPartial = p\<rparr>" "concat out = l"
      using assms(3,4) False f len by (auto simp: pollLog_def Let_def)
    have "lineFeed [] (take (foOffset st + ?k - start) (drop start full)) = (p, ls @ l)"
      using assms(1) f lineFeed_append [of "[]" "take (foOffset st - start) (drop start full)" ?b]
      by (simp add: following_def ends [symmetric])
    moreover have "foOffset st + ?k \<le> length c"
      using assms(3) min.cobounded2 [of n "length c - foOffset st"] by linarith
    ultimately show ?thesis using st' assms(1) le by (simp add: following_def)
  qed
  then show "following full start st' (ls @ concat out)" "foOffset st' \<le> length c" by simp_all
qed

lemma pollLogs_following:
  assumes "following full start st ls" "foOffset st \<le> k" "grown full k obs"
    and "pollLogs obs st = (st', out)"
  shows "following full start st' (ls @ concat out)
    \<and> (\<forall>c \<in> set out. c \<noteq> [] \<and> length c \<le> maxChunkLines)"
  using assms
proof (induction obs arbitrary: st ls k out)
  case Nil
  then show ?case by simp
next
  case (Cons o1 obs)
  obtain fi n where o1: "o1 = (fi, n)" by force
  obtain st1 out1 where p1: "pollLog fi n st = (st1, out1)" by force
  obtain st2 out2 where p2: "pollLogs obs st1 = (st2, out2)" by force
  from Cons.prems(4) o1 p1 p2 have res: "st' = st2" "out = out1 @ out2" by simp_all
  have small: "\<forall>c \<in> set out1. c \<noteq> [] \<and> length c \<le> maxChunkLines"
    using p1 emitChunks_bound
    by (force simp: pollLog_def Let_def split: option.splits if_splits prod.splits)
  show ?case
  proof (cases fi)
    case None
    with p1 have "st1 = st" "out1 = []" by (simp_all add: pollLog_def)
    with Cons None o1 p2 res show ?thesis by simp
  next
    case (Some c)
    with Cons.prems o1 have g: "prefix c full" "foOffset st \<le> length c" "grown full (length c) obs"
      by simp_all
    from pollLog_following [OF Cons.prems(1) g(1,2)] p1 Some
    have f1: "following full start st1 (ls @ concat out1)" "foOffset st1 \<le> length c" by blast+
    from Cons.IH [OF f1 g(3)] p2 res small show ?thesis by auto
  qed
qed

lemma pollLogs_append:
  "pollLogs (xs @ ys) st =
     (fst (pollLogs ys (fst (pollLogs xs st))), snd (pollLogs xs st) @ snd (pollLogs ys (fst (pollLogs xs st))))"
  by (induction xs st rule: pollLogs.induct) (auto split: prod.splits)

text \<open>C26: Following a log loses nothing and repeats nothing. Starting from a file with content b0
  and whatever the polls observe while the file only grows (short reads, failed opens), once a
  poll has read to the end the emitted lines after the initial tail are exactly the complete
  lines appended since, in order, in chunks of at most 200 lines, and the carried partial
  line is the unfinished rest.\<close>

theorem log_follow_exact:
  assumes "initialTail tailN (Some b0) = (st0, tail)" "prefix b0 full"
    and "grown full (length b0) obs" "length full \<le> n"
    and "pollLogs (obs @ [(Some full, n)]) st0 = (st, out)"
  shows "lineFeed [] (drop (length b0) full) = (foPartial st, concat out)
    \<and> (\<forall>c \<in> set out. c \<noteq> [] \<and> length c \<le> maxChunkLines)"
proof -
  have st0: "st0 = \<lparr>foOffset = length b0, foPartial = []\<rparr>"
    using assms(1) by (simp add: initialTail_def Let_def)
  have f0: "following full (length b0) st0 []"
    using assms(2) by (simp add: following_def st0 lineFeed_def prefix_length_le)
  obtain st1 out1 where p1: "pollLogs obs st0 = (st1, out1)" by force
  have f1: "following full (length b0) st1 (concat out1)"
    using pollLogs_following [OF f0 _ assms(3) p1] by (simp add: st0)
  obtain st2 out2 where p2: "pollLog (Some full) n st1 = (st2, out2)" by force
  have "foOffset st1 \<le> length full" using f1 by (simp add: following_def)
  then have f2: "following full (length b0) st2 (concat out1 @ concat out2)"
    using pollLog_following(1) [OF f1 _ _ p2] by simp
  have g: "grown full (length full) [(Some full, n)]" by simp
  have res: "st = st2" "out = out1 @ out2"
    using assms(5) p1 p2 by (simp_all add: pollLogs_append)
  have "foOffset st2 = length full"
    using p2 assms(4) \<open>foOffset st1 \<le> length full\<close>
    by (auto simp: pollLog_def Let_def split: if_splits prod.splits)
  with f2 res have "lineFeed [] (drop (length b0) full) = (foPartial st, concat out)"
    by (simp add: following_def)
  moreover have "\<forall>c \<in> set out. c \<noteq> [] \<and> length c \<le> maxChunkLines"
  proof -
    have "\<forall>c \<in> set out2. c \<noteq> [] \<and> length c \<le> maxChunkLines"
      using pollLogs_following [OF f1 _ g, of st2 out2] p2 \<open>foOffset st1 \<le> length full\<close> by simp
    then show ?thesis using pollLogs_following [OF f0 _ assms(3) p1] res by (auto simp: st0)
  qed
  ultimately show ?thesis by simp
qed

theorem log_follow_exact_witness:
  "let nl = CHR 0x0A; b0 = ''a'' @ [nl]; full = b0 @ ''bc'' @ [nl, nl] @ ''d'';
       obs = [(Some (b0 @ ''b''), 9), (None, 0), (Some (b0 @ ''bc'' @ [nl]), 1)];
       (st, out) = pollLogs (obs @ [(Some full, 9)]) (fst (initialTail 10 (Some b0)))
   in lineFeed [] (drop (length b0) full) = (foPartial st, concat out)
     \<and> (\<forall>c \<in> set out. c \<noteq> [] \<and> length c \<le> maxChunkLines)"
proof -
  let ?nl = "CHR 0x0A"
  let ?b0 = "''a'' @ [?nl]"
  let ?full = "?b0 @ ''bc'' @ [?nl, ?nl] @ ''d''"
  let ?obs = "[(Some (?b0 @ ''b''), 9), (None, 0), (Some (?b0 @ ''bc'' @ [?nl]), 1)] :: (string option \<times> nat) list"
  obtain st0 t where i: "initialTail 10 (Some ?b0) = (st0, t)" by force
  obtain st out where p: "pollLogs (?obs @ [(Some ?full, 9)]) st0 = (st, out)" by force
  have "lineFeed [] (drop (length ?b0) ?full) = (foPartial st, concat out)
     \<and> (\<forall>c \<in> set out. c \<noteq> [] \<and> length c \<le> maxChunkLines)"
    by (rule log_follow_exact [OF i _ _ _ p]) simp_all
  then show ?thesis using i p by (simp add: Let_def)
qed

subsection \<open>The table of live streams\<close>

text \<open>
  \<open>smTable\<close> is \<^verbatim>\<open>d.logStreams\<close>, its cancel functions named by handles; \<open>smLive\<close> are the follower
  goroutines, each with the handle of its context and its stream id; \<open>smCancelled\<close> are the
  contexts that have been cancelled.
\<close>

record streams =
  smTable :: "string \<rightharpoonup> nat"
  smNext :: nat
  smLive :: "(nat \<times> string) list"
  smCancelled :: "nat list"
  smSent :: "LogChunk list"

definition cancelCtx :: "nat \<Rightarrow> streams \<Rightarrow> streams" where
  "cancelCtx h s = s\<lparr>smCancelled := h # smCancelled s\<rparr>"

definition sendLogChunk :: "string \<Rightarrow> string list \<Rightarrow> bool \<Rightarrow> streams \<Rightarrow> streams" where
  "sendLogChunk sid ls eof s =
     s\<lparr>smSent := smSent s @ [\<lparr>lcStreamID = sid, lcLines = ls, lcEOF = eof\<rparr>]\<rparr>"

definition startLogStream :: "bool \<Rightarrow> string \<Rightarrow> streams \<Rightarrow> streams" where
  "startLogStream known sid s =
     (let s1 = (case smTable s sid of Some h \<Rightarrow> cancelCtx h s | None \<Rightarrow> s);
          h = smNext s1;
          s2 = s1\<lparr>smTable := (smTable s1)(sid \<mapsto> h), smNext := Suc h\<rparr>
      in if \<not> known then cancelCtx h (sendLogChunk sid [''[breakerbox] unknown app''] True s2)
         else s2\<lparr>smLive := (h, sid) # smLive s2\<rparr>)"

definition cancelLogStream :: "string \<Rightarrow> streams \<Rightarrow> streams" where
  "cancelLogStream sid s =
     (case smTable s sid of
        None \<Rightarrow> s
      | Some h \<Rightarrow> cancelCtx h (s\<lparr>smTable := (smTable s)(sid := None)\<rparr>))"

text \<open>\<open>cancelAll\<close> takes the keys of the table in the order the map is ranged over.\<close>

definition cancelAllLogStreams :: "string list \<Rightarrow> streams \<Rightarrow> streams" where
  "cancelAllLogStreams sids s =
     fold cancelCtx (List.map_filter (smTable s) sids) (s\<lparr>smTable := Map.empty\<rparr>)"

text \<open>The deferred function of a follower goroutine, run when the follower returns.\<close>

definition streamEnds :: "nat \<Rightarrow> streams \<Rightarrow> streams" where
  "streamEnds h s =
     (case map_of (smLive s) h of
        None \<Rightarrow> s
      | Some sid \<Rightarrow> sendLogChunk sid [] True
          (s\<lparr>smTable := (smTable s)(sid := None), smLive := filter (\<lambda>(k, _). k \<noteq> h) (smLive s)\<rparr>))"

definition streamEmits :: "nat \<Rightarrow> string list \<Rightarrow> streams \<Rightarrow> streams" where
  "streamEmits h ls s =
     (case map_of (smLive s) h of None \<Rightarrow> s | Some sid \<Rightarrow> sendLogChunk sid ls False s)"

datatype streamEvent = StartStream bool string | CancelStream string | StreamEnd nat
  | StreamLines nat "string list"

fun streamStep :: "streamEvent \<Rightarrow> streams \<Rightarrow> streams" where
  "streamStep (StartStream known sid) s = startLogStream known sid s"
| "streamStep (CancelStream sid) s = cancelLogStream sid s"
| "streamStep (StreamEnd h) s = streamEnds h s"
| "streamStep (StreamLines h ls) s = streamEmits h ls s"

definition noStreams :: streams where
  "noStreams = \<lparr>smTable = Map.empty, smNext = 0, smLive = [], smCancelled = [], smSent = []\<rparr>"

text \<open>No stream is started under an id whose follower has not returned yet.\<close>

fun freshStarts :: "streamEvent list \<Rightarrow> streams \<Rightarrow> bool" where
  "freshStarts [] s \<longleftrightarrow> True"
| "freshStarts (e # es) s \<longleftrightarrow>
     (case e of StartStream k sid \<Rightarrow> sid \<notin> snd ` set (smLive s) | _ \<Rightarrow> True)
     \<and> freshStarts es (streamStep e s)"

text \<open>Every follower that runs can still be reached: it is cancelled or under its id in the table.\<close>

definition cancellable :: "streams \<Rightarrow> bool" where
  "cancellable s \<longleftrightarrow>
     distinct (map snd (smLive s))
     \<and> (\<forall>(h, sid) \<in> set (smLive s). h < smNext s \<and> (h \<in> set (smCancelled s) \<or> smTable s sid = Some h))"

lemmas stream_defs = cancelCtx_def sendLogChunk_def startLogStream_def cancelLogStream_def
  streamEnds_def streamEmits_def Let_def

lemma startLogStream_cancellable:
  "cancellable s \<Longrightarrow> sid \<notin> snd ` set (smLive s) \<Longrightarrow> cancellable (startLogStream known sid s)"
  unfolding cancellable_def
  by (cases "smTable s sid") (force simp: stream_defs)+

lemma cancelLogStream_cancellable: "cancellable s \<Longrightarrow> cancellable (cancelLogStream sid s)"
  unfolding cancellable_def by (auto simp: stream_defs split: option.splits)

lemma streamEnds_cancellable: "cancellable s \<Longrightarrow> cancellable (streamEnds h s)"
proof (cases "map_of (smLive s) h")
  case None
  then show "cancellable s \<Longrightarrow> ?thesis" by (simp add: streamEnds_def)
next
  case (Some sid)
  assume c: "cancellable s"
  from Some have m: "(h, sid) \<in> set (smLive s)" by (rule map_of_SomeD)
  have "sid' \<noteq> sid" if "(k, sid') \<in> set (smLive s)" "k \<noteq> h" for k sid'
    using c m that unfolding cancellable_def distinct_map inj_on_def by fastforce
  moreover have "distinct (map snd (filter (\<lambda>(k, _). k \<noteq> h) (smLive s)))"
    using c by (simp add: cancellable_def distinct_map_filter)
  ultimately show ?thesis
    using c Some unfolding cancellable_def by (auto simp: streamEnds_def sendLogChunk_def)
qed

lemma streamEmits_cancellable: "cancellable s \<Longrightarrow> cancellable (streamEmits h ls s)"
  unfolding cancellable_def by (auto simp: stream_defs split: option.splits)

lemma streamSteps_cancellable:
  "cancellable s \<Longrightarrow> freshStarts es s \<Longrightarrow> cancellable (fold streamStep es s)"
proof (induction es arbitrary: s)
  case (Cons e es)
  then have "cancellable (streamStep e s)"
    by (cases e) (auto intro: startLogStream_cancellable cancelLogStream_cancellable
        streamEnds_cancellable streamEmits_cancellable)
  with Cons show ?case by simp
qed simp

lemma fold_cancelCtx:
  "smCancelled (fold cancelCtx hs s) = rev hs @ smCancelled s
   \<and> smLive (fold cancelCtx hs s) = smLive s \<and> smTable (fold cancelCtx hs s) = smTable s"
  by (induction hs arbitrary: s) (auto simp: cancelCtx_def)

lemma map_filter_set: "x \<in> set (List.map_filter f xs) \<longleftrightarrow> (\<exists>y \<in> set xs. f y = Some x)"
  by (induction xs) (auto simp: List.map_filter_def split: option.splits)


text \<open>C28: No follower survives the connection. If no stream is started under the id of a follower
  that has not returned yet, then after any sequence of starts, cancels, ends and emitted lines
  the cancellation on connection loss reaches every follower that still runs, and the table is
  empty.\<close>

theorem connection_loss_cancels_all:
  assumes "freshStarts es noStreams" "s = fold streamStep es noStreams" "dom (smTable s) \<subseteq> set sids"
  shows "fst ` set (smLive (cancelAllLogStreams sids s)) \<subseteq> set (smCancelled (cancelAllLogStreams sids s))
    \<and> smTable (cancelAllLogStreams sids s) = Map.empty"
proof -
  have "cancellable noStreams" by (simp add: cancellable_def noStreams_def)
  from streamSteps_cancellable [OF this assms(1)] assms(2) have c: "cancellable s" by simp
  have "h \<in> set (smCancelled s) \<or> h \<in> set (List.map_filter (smTable s) sids)"
    if "(h, sid) \<in> set (smLive s)" for h sid
    using c that assms(3) unfolding cancellable_def map_filter_set by fastforce
  then have "fst ` set (smLive s) \<subseteq> set (smCancelled s) \<union> set (List.map_filter (smTable s) sids)"
    by force
  then show ?thesis by (simp add: cancelAllLogStreams_def fold_cancelCtx Un_commute)
qed

theorem connection_loss_cancels_all_witness:
  "let es = [StartStream True ''s1'', StreamLines 0 [''hello''], StartStream True ''s2'',
             CancelStream ''s1'', StreamEnd 0, StartStream True ''s1''];
       s = fold streamStep es noStreams
   in freshStarts es noStreams \<and> map fst (smLive s) = [2, 1]
      \<and> fst ` set (smLive (cancelAllLogStreams [''s1'', ''s2''] s))
          \<subseteq> set (smCancelled (cancelAllLogStreams [''s1'', ''s2''] s))
      \<and> smTable (cancelAllLogStreams [''s1'', ''s2''] s) = Map.empty"
proof -
  let ?es = "[StartStream True ''s1'', StreamLines 0 [''hello''], StartStream True ''s2'',
             CancelStream ''s1'', StreamEnd 0, StartStream True ''s1'']"
  let ?s = "fold streamStep ?es noStreams"
  have f: "freshStarts ?es noStreams" by (simp add: stream_defs noStreams_def)
  have l: "map fst (smLive ?s) = [2, 1]" by (simp add: stream_defs noStreams_def)
  have d: "dom (smTable ?s) \<subseteq> set [''s1'', ''s2'']" by (auto simp: stream_defs noStreams_def)
  show ?thesis unfolding Let_def
    by (intro conjI f l connection_loss_cancels_all [OF f refl d, THEN conjunct1]
        connection_loss_cancels_all [OF f refl d, THEN conjunct2])
qed

text \<open>
  The freshness is needed: a second request under a live id replaces the table entry, the first
  follower's deferred delete removes the new one, and the second follower can no longer be
  cancelled.
\<close>

lemma duplicate_stream_escapes:
  "let s = fold streamStep [StartStream True ''s1'', StartStream True ''s1'', StreamEnd 0] noStreams
   in map fst (smLive s) = [1]
      \<and> smCancelled (cancelAllLogStreams [''s1''] (cancelLogStream ''s1'' s)) = [0]"
  by (simp add: stream_defs noStreams_def cancelAllLogStreams_def List.map_filter_def)

end
