(* ===== verification/AgentCli.thy ===== *)
theory AgentCli
  imports Http AgentStore Wire
begin

text \<open>
  The command line of the agent (\<^verbatim>\<open>agent/main.go\<close>), the host's key pair
  (\<^verbatim>\<open>agent/internal/identity\<close>) and the signed request that opens the connection to the hub
  (\<^verbatim>\<open>transport.Dial\<close>). Ed25519 key generation and signing, the clock, the host name, the hub's HTTP
  answer and what the file system refuses are parameters; base64 and the texts are computed.
\<close>

subsection \<open>Base64\<close>

definition b64char :: "nat \<Rightarrow> char" where
  "b64char n = char_of (if n < 26 then n + 65 else if n < 52 then n + 71 else if n < 62 then n - 4
     else if n = 62 then 43 else 47)"

fun b64encode :: "string \<Rightarrow> string" where
  "b64encode [] = []"
| "b64encode [a] = (let x = of_char a in [b64char (x div 4), b64char (16 * (x mod 4)), CHR ''='', CHR ''=''])"
| "b64encode [a, b] =
     (let x = of_char a; y = of_char b
      in [b64char (x div 4), b64char (16 * (x mod 4) + y div 16), b64char (4 * (y mod 16)), CHR ''=''])"
| "b64encode (a # b # c # rest) =
     (let x = of_char a; y = of_char b; z = of_char c
      in [b64char (x div 4), b64char (16 * (x mod 4) + y div 16), b64char (4 * (y mod 16) + z div 64), b64char (z mod 64)]
         @ b64encode rest)"

lemma of_b64char: "n < 64 \<Longrightarrow> (of_char (b64char n) :: nat)
    = (if n < 26 then n + 65 else if n < 52 then n + 71 else if n < 62 then n - 4 else if n = 62 then 43 else 47)"
  by (auto simp: b64char_def)

lemma b64val_b64char: "n < 64 \<Longrightarrow> b64val (b64char n) = Some n"
proof -
  assume n: "n < 64"
  have p: "b64char n = CHR ''+'' \<longleftrightarrow> (of_char (b64char n) :: nat) = 43"
    "b64char n = CHR ''/'' \<longleftrightarrow> (of_char (b64char n) :: nat) = 47"
    unfolding of_char_eq_iff [where 'a = nat, symmetric] by simp_all
  show ?thesis unfolding b64val_def Let_def p of_b64char [OF n] using n by (auto split: if_splits)
qed

lemma b64char_plain: "n < 64 \<Longrightarrow> b64char n \<noteq> CHR ''='' \<and> b64char n \<noteq> CHR 0x0A \<and> b64char n \<noteq> CHR 0x0D"
proof -
  assume n: "n < 64"
  have "(of_char (b64char n) :: nat) \<noteq> 61 \<and> (of_char (b64char n) :: nat) \<noteq> 10 \<and> (of_char (b64char n) :: nat) \<noteq> 13"
    unfolding of_b64char [OF n] using n by (auto split: if_splits)
  then show ?thesis by auto
qed

lemma byte_parts:
  "(of_char c :: nat) div 4 < 64" "16 * ((of_char a :: nat) mod 4) + of_char b div 16 < 64"
  "4 * ((of_char a :: nat) mod 16) + of_char b div 64 < 64" "16 * ((of_char a :: nat) mod 4) < 64" "4 * ((of_char a :: nat) mod 16) < 64"
  "(of_char a :: nat) mod 64 < 64"
proof -
  have a: "(of_char a :: nat) mod 4 < 4" "(of_char a :: nat) mod 16 < 16" by simp_all
  have b: "(of_char b :: nat) div 16 < 16" "(of_char b :: nat) div 64 < 4" "(of_char c :: nat) div 4 < 64"
    using nat_of_char_less_256 [of b] nat_of_char_less_256 [of c] by (simp_all add: less_mult_imp_div_less)
  show "(of_char c :: nat) div 4 < 64" "16 * ((of_char a :: nat) mod 4) + of_char b div 16 < 64"
    "4 * ((of_char a :: nat) mod 16) + of_char b div 64 < 64" "16 * ((of_char a :: nat) mod 4) < 64"
    "4 * ((of_char a :: nat) mod 16) < 64" "(of_char a :: nat) mod 64 < 64"
    using a b by linarith+
qed

lemmas b64_facts = b64val_b64char b64char_plain byte_parts

lemma b64encode_plain: "c \<in> set (b64encode s) \<Longrightarrow> c \<noteq> CHR 0x0A \<and> c \<noteq> CHR 0x0D"
  by (induction s rule: b64encode.induct) (auto simp: Let_def b64_facts)

lemma byte_small:
  "(of_char b :: nat) div 16 div 16 = 0" "(of_char b :: nat) div 16 mod 16 = of_char b div 16"
  "(of_char c :: nat) div 64 div 4 = 0" "(of_char c :: nat) div 64 mod 4 = of_char c div 64"
  using nat_of_char_less_256 [of b] nat_of_char_less_256 [of c]
  by (simp_all add: less_mult_imp_div_less div_mult2_eq [symmetric])

lemma b64groups_encode: "b64groups (b64encode s) = Some s"
  by (induction s rule: b64encode.induct) (simp_all add: Let_def b64_facts byte_small)

theorem b64_roundtrip: "b64decode (b64encode s) = Some s"
  using b64encode_plain [of _ s] by (simp add: b64decode_def b64groups_encode filter_id_conv)

lemma b64encode_nonempty: "b64encode s = [] \<longleftrightarrow> s = []"
  by (cases s rule: b64encode.cases) (simp_all add: Let_def)

subsection \<open>The key pair\<close>

text \<open>
  A private key is 64 bytes, the second half of which is the public key. \<open>keGenerate\<close> is the random
  generation, \<open>keMkdir\<close> the error of creating the directory, \<open>keWrite\<close> the error of writing the key
  file with what that leaves in it. A file that cannot be read counts as missing.
\<close>

record keyEnv =
  keGenerate :: "string go_result"
  keMkdir :: "string option"
  keWrite :: "(string \<times> string option) option"

definition keyPath :: "string \<Rightarrow> string" where
  "keyPath dir = dir @ ''/agent_ed25519.key''"

definition readKey :: "string \<Rightarrow> string option" where
  "readKey b = (case b64decode b of None \<Rightarrow> None | Some raw \<Rightarrow> if length raw \<noteq> 64 then None else Some raw)"

definition LoadOrCreate :: "keyEnv \<Rightarrow> string \<Rightarrow> fs \<Rightarrow> string go_result \<times> fs" where
  "LoadOrCreate env dir f =
     (case f (keyPath dir) of
        Some b \<Rightarrow> (case readKey b of None \<Rightarrow> Inl (''corrupt key file '' @ keyPath dir) | Some raw \<Rightarrow> Inr raw, f)
      | None \<Rightarrow> (case keGenerate env of
            Inl e \<Rightarrow> (Inl e, f)
          | Inr priv \<Rightarrow> (case keMkdir env of
                Some e \<Rightarrow> (Inl e, f)
              | None \<Rightarrow> (case keWrite env of
                    Some (e, left) \<Rightarrow> (Inl e, f(keyPath dir := left))
                  | None \<Rightarrow> (Inr priv, f(keyPath dir \<mapsto> b64encode priv))))))"

definition publicKey :: "string \<Rightarrow> string" where
  "publicKey priv = drop 32 priv"

definition PublicKeyB64 :: "string \<Rightarrow> string" where
  "PublicKeyB64 priv = b64encode (publicKey priv)"

definition keysOK :: "keyEnv \<Rightarrow> bool" where
  "keysOK env \<longleftrightarrow> (\<forall>priv. keGenerate env = Inr priv \<longrightarrow> length priv = 64)"

text \<open>A key once loaded or created is what every later call returns, and nothing is generated again.\<close>

lemma LoadOrCreate_stable:
  assumes "LoadOrCreate env dir f = (Inr priv, f')" "keysOK env"
  shows "length priv = 64 \<and> LoadOrCreate env' dir f' = (Inr priv, f')"
  using assms
  by (auto simp: LoadOrCreate_def readKey_def keysOK_def b64_roundtrip split: option.splits sum.splits if_splits prod.splits)

lemma LoadOrCreate_files: "LoadOrCreate env dir f = (r, f') \<Longrightarrow> p \<noteq> keyPath dir \<Longrightarrow> f' p = f p"
  by (auto simp: LoadOrCreate_def split: option.splits sum.splits prod.splits)

subsection \<open>Dialling\<close>

fun replaceFirst :: "string \<Rightarrow> string \<Rightarrow> string \<Rightarrow> string" where
  "replaceFirst old new [] = (if old = [] then new else [])"
| "replaceFirst old new (c # s) =
     (if hasPrefix (c # s) old then new @ drop (length old) (c # s) else c # replaceFirst old new s)"

definition dialURL :: "string \<Rightarrow> string" where
  "dialURL hubURL = replaceFirst ''http'' ''ws'' (trimSuffix hubURL ''/'') @ ''/api/bb/agent/ws''"

record dialHeaders =
  dhSystem :: string
  dhTimestamp :: string
  dhSignature :: string

text \<open>\<open>now\<close> is the agent's clock in nanoseconds, \<open>sign\<close> is Ed25519.\<close>

definition signedHello :: "(string \<Rightarrow> string \<Rightarrow> string) \<Rightarrow> string \<Rightarrow> int \<Rightarrow> string \<Rightarrow> dialHeaders" where
  "signedHello sign priv now systemID =
     (let ts = showInt (now div 1000000)
      in \<lparr>dhSystem = systemID, dhTimestamp = ts, dhSignature = b64encode (sign priv (systemID @ ''|'' @ ts))\<rparr>)"

text \<open>The dial: an HTTP answer of the hub, or none.\<close>

datatype dialReply = Upgraded | Rejected int string | Unreachable string

definition Dial :: "(string \<Rightarrow> dialHeaders \<Rightarrow> dialReply) \<Rightarrow> (string \<Rightarrow> string \<Rightarrow> string) \<Rightarrow> string \<Rightarrow> int
    \<Rightarrow> string \<Rightarrow> string \<Rightarrow> string option" where
  "Dial net sign priv now hubURL systemID =
     (case net (dialURL hubURL) (signedHello sign priv now systemID) of
        Upgraded \<Rightarrow> None
      | Rejected code e \<Rightarrow> Some (''hub rejected connection ('' @ showInt code @ ''): '' @ e)
      | Unreachable e \<Rightarrow> Some e)"

subsection \<open>Enrollment\<close>

text \<open>
  What the command meets: the key generation, the host name (empty when unknown), the hub's answer to
  a request, and whether the state file can be saved.
\<close>

record enrollEnv =
  eeKeys :: keyEnv
  eeHostname :: string
  eePost :: "string \<Rightarrow> string \<Rightarrow> httpReply"
  eeSaveError :: "string option"
  eePrintable :: "string \<Rightarrow> bool"

definition enrollBody :: "string \<Rightarrow> string \<Rightarrow> string \<Rightarrow> string" where
  "enrollBody token pub name =
     writeJson (JObj [(''name'', JStr name), (''public_key'', JStr pub), (''token'', JStr token)])"

record enrollReply =
  erSystemID :: string
  erName :: string
  erMessage :: string

definition enrollReplyFields :: "enrollReply field list" where
  "enrollReplyFields =
     [fld ''system_id'' erSystemID erSystemID_update strDec, fld ''name'' erName erName_update strDec,
      fld ''message'' erMessage erMessage_update strDec]"

definition emptyReply :: enrollReply where
  "emptyReply = \<lparr>erSystemID = '''', erName = '''', erMessage = ''''\<rparr>"

text \<open>The reply is decoded whatever the status; what does not decode leaves fields empty.\<close>

definition readEnrollReply :: "string \<Rightarrow> enrollReply" where
  "readEnrollReply body = fst (decodeFirst emptyReply (structDec enrollReplyFields) body)"

definition enrolledText :: "(string \<Rightarrow> bool) \<Rightarrow> enrollReply \<Rightarrow> string \<Rightarrow> string" where
  "enrolledText printable out url =
     ''enrolled as '' @ goQuote printable (erName out) @ '' (system '' @ erSystemID out @ '') with hub '' @ url @ [CHR 0x0A]
     @ ''start the agent with: breakerbox-agent run'' @ [CHR 0x0A]"

text \<open>After the answer: the state is loaded, changed and saved.\<close>

definition storeEnrollment :: "enrollEnv \<Rightarrow> (State \<Rightarrow> string) \<Rightarrow> (string \<Rightarrow> State option) \<Rightarrow> string \<Rightarrow> string
    \<Rightarrow> enrollReply \<Rightarrow> fs \<Rightarrow> string option \<times> fs \<times> string" where
  "storeEnrollment env enc dec dir hub out f =
     (case Load dec dir f of
        Inl e \<Rightarrow> (Some e, f, '''')
      | Inr st \<Rightarrow>
          (let url = trimSuffix hub ''/''; st' = st\<lparr>stHubURL := url, stSystemID := erSystemID out\<rparr>
           in case eeSaveError env of
                Some e \<Rightarrow> (Some e, f, '''')
              | None \<Rightarrow> (None, Save enc dir st' f, enrolledText (eePrintable env) out url)))"

definition cmdEnroll :: "enrollEnv \<Rightarrow> (State \<Rightarrow> string) \<Rightarrow> (string \<Rightarrow> State option) \<Rightarrow> string
    \<Rightarrow> string \<times> string \<times> string \<Rightarrow> fs \<Rightarrow> string option \<times> fs \<times> string" where
  "cmdEnroll env enc dec dir flags f =
     (case flags of (hub, token, name) \<Rightarrow>
      if hub = [] \<or> token = [] then (Some ''--hub and --token are required'', f, '''')
      else case LoadOrCreate (eeKeys env) dir f of
          (Inl e, f1) \<Rightarrow> (Some e, f1, '''')
        | (Inr priv, f1) \<Rightarrow>
            (let displayName = (if name = [] then eeHostname env else name)
             in case eePost env (trimSuffix hub ''/'' @ ''/api/bb/enroll'')
                  (enrollBody token (PublicKeyB64 priv) displayName) of
                  NoReply e \<Rightarrow> (Some (''cannot reach hub: '' @ e), f1, '''')
                | Reply code status body \<Rightarrow>
                    (let out = readEnrollReply body
                     in if code \<noteq> 200
                        then (Some (''enrollment rejected: '' @ (if erMessage out = [] then status else erMessage out)), f1, '''')
                        else storeEnrollment env enc dec dir hub out f1)))"

subsection \<open>Application commands\<close>

text \<open>
  The other subcommands read files, print, and queue at most one operation for the daemon. \<open>caLoad\<close> is the state file's content,
  \<open>caRead\<close> reads a definition file, \<open>caAbsDir\<close> is the directory of a path made absolute,
  \<open>caEnqueueError\<close> is what queueing fails with.
\<close>

record appsEnv =
  caLoad :: "State go_result"
  caRead :: "string \<Rightarrow> string go_result"
  caAbsDir :: "string \<Rightarrow> string option"
  caJSONError :: "string \<Rightarrow> string"
  caEnqueueError :: "string option"
  caPrintable :: "string \<Rightarrow> bool"

datatype cliError = CliText string | CliInvalid "defProblem list"

type_synonym cliResult = "cliError option \<times> string \<times> SpoolOp option"

definition cliFail :: "string \<Rightarrow> cliResult" where
  "cliFail e = (Some (CliText e), '''', None)"

definition textLine :: "string list \<Rightarrow> string" where
  "textLine parts = concat parts @ [CHR 0x0A]"

text \<open>The columns of \<^verbatim>\<open>%-20s\<close> count runes.\<close>

function runeCount :: "string \<Rightarrow> nat" where
  "runeCount [] = 0"
| "runeCount (c # r) =
     Suc (runeCount (if (of_char c :: nat) < 128 then r else drop (runeSize (c # r) - 1) r))"
  by pat_completeness auto
termination by (relation "measure length") auto

definition padRight :: "nat \<Rightarrow> string \<Rightarrow> string" where
  "padRight n s = s @ replicate (n - runeCount s) CHR '' ''"

definition appLine :: "string \<Rightarrow> AppState \<Rightarrow> string" where
  "appLine i app =
     (let def = asDefinition app in
      textLine [i, ''  '', padRight 20 (defName def), '' '', padRight 9 (approvalStr (asApproval app)), '' desired='',
        padRight 8 (desiredStr (asDesiredState app)), '' '', defCmd def, '' '', joinWith '' '' (defArgs def)])"

text \<open>\<open>order\<close> lists the applications of the state, each once; the command sorts them.\<close>

definition listApps :: "string list \<Rightarrow> State \<Rightarrow> string" where
  "listApps order st =
     (let ids = sort (filter (\<lambda>i. stApps st i \<noteq> None) order)
      in if ids = [] then textLine [''no apps registered on this host'']
         else concat (map (\<lambda>i. case stApps st i of None \<Rightarrow> '''' | Some app \<Rightarrow> appLine i app) ids))"

definition defText :: "AppDefinition \<Rightarrow> string" where
  "defText def =
     textLine [''  name: '', defName def] @ textLine [''  cmd:  '', defCmd def, '' '', joinWith '' '' (defArgs def)]
     @ textLine [''  cwd:  '', defCwd def]"

definition envText :: "(string \<times> string) list \<Rightarrow> string" where
  "envText env =
     (if env = [] then ''''
      else textLine [''  env:  map['', joinWith '' '' (map (\<lambda>(k, v). k @ '':'' @ v) (sort_key fst env)), '']''])"

definition approvalText :: "AppDefinition \<Rightarrow> string" where
  "approvalText def =
     textLine [''You are approving this definition to run on THIS machine:''] @ textLine ['''']
     @ defText def @ envText (defEnv def) @ textLine ['''']"

text \<open>Queueing prints the confirmation; a failure leaves what was printed before.\<close>

definition enqueued :: "appsEnv \<Rightarrow> SpoolOp \<Rightarrow> string \<Rightarrow> string \<Rightarrow> cliResult" where
  "enqueued env op before after =
     (case caEnqueueError env of
        Some e \<Rightarrow> (Some (CliText e), before, None)
      | None \<Rightarrow> (None, before @ after, Some op))"

definition cmdDecide :: "appsEnv \<Rightarrow> string \<Rightarrow> string list \<Rightarrow> cliResult" where
  "cmdDecide env verb args =
     (case args of
        [] \<Rightarrow> cliFail (''usage: breakerbox-agent apps '' @ verb @ '' <app-id>'')
      | appID # _ \<Rightarrow> (case caLoad env of
            Inl e \<Rightarrow> cliFail e
          | Inr st \<Rightarrow> (case stApps st appID of
                None \<Rightarrow> cliFail (''unknown app '' @ goQuote (caPrintable env) appID @ '' (run: breakerbox-agent apps list)'')
              | Some app \<Rightarrow>
                  enqueued env \<lparr>soOp = verb, soAppID = appID, soDefinition = None, soQueuedAt = 0\<rparr>
                    (if verb = ''approve'' then approvalText (asDefinition app) else '''')
                    (textLine [verb, '' queued; the running agent applies it within seconds'']))))"

definition importDefaults :: "appsEnv \<Rightarrow> string \<Rightarrow> AppDefinition \<Rightarrow> AppDefinition" where
  "importDefaults env path def =
     (let d1 = (if defSchemaVersion def = 0 then def\<lparr>defSchemaVersion := AppDefSchemaVersion\<rparr> else def)
      in if defCwd d1 = [] then (case caAbsDir env path of None \<Rightarrow> d1 | Some dir \<Rightarrow> d1\<lparr>defCwd := dir\<rparr>) else d1)"

definition cmdImport :: "appsEnv \<Rightarrow> string list \<Rightarrow> cliResult" where
  "cmdImport env args =
     (case args of
        [] \<Rightarrow> cliFail ''usage: breakerbox-agent apps import <breakerbox.app.json>''
      | path # _ \<Rightarrow> (case caRead env path of
            Inl e \<Rightarrow> cliFail e
          | Inr b \<Rightarrow> (case unmarshal zeroDefinition (structDec definitionFields) b of (def0, ok) \<Rightarrow>
              if \<not> ok then cliFail (path @ '' is not valid JSON: '' @ caJSONError env b)
              else
                (let def = importDefaults env path def0
                 in if Validate def \<noteq> [] then (Some (CliInvalid (Validate def)), '''', None)
                    else enqueued env \<lparr>soOp = ''import'', soAppID = '''', soDefinition = Some def, soQueuedAt = 0\<rparr>
                      (textLine [''Importing (and approving) on this machine:''] @ textLine [''''] @ defText def @ textLine [''''])
                      (textLine [''import queued; the running agent registers it with the hub within seconds''])))))"

definition cmdApps :: "appsEnv \<Rightarrow> string list \<Rightarrow> string list \<Rightarrow> cliResult" where
  "cmdApps env order args =
     (case args of
        [] \<Rightarrow> cliFail ''usage: breakerbox-agent apps list|approve|reject|import''
      | verb # rest \<Rightarrow>
          if verb = ''list'' then
            (case caLoad env of Inl e \<Rightarrow> cliFail e | Inr st \<Rightarrow> (None, listApps order st, None))
          else if verb = ''approve'' \<or> verb = ''reject'' then cmdDecide env verb rest
          else if verb = ''import'' then cmdImport env rest
          else cliFail (''unknown apps subcommand '' @ goQuote (caPrintable env) verb))"

text \<open>The process: its exit code for what the subcommands return.\<close>

definition exitCode :: "string list \<Rightarrow> (string \<Rightarrow> string list \<Rightarrow> bool) \<Rightarrow> int" where
  "exitCode args ok =
     (case args of
        [] \<Rightarrow> 2
      | verb # rest \<Rightarrow>
          if verb = ''version'' then 0
          else if verb = ''enroll'' \<or> verb = ''run'' \<or> verb = ''apps'' then (if ok verb rest then 0 else 1)
          else 2)"

end
