(* ===== verification/AgentService.thy ===== *)
theory AgentService
  imports AgentControl Transport LogFollow AgentCli
begin

text \<open>
  The process around the daemon: the reconnect loop of \<^verbatim>\<open>Daemon.Run\<close>
  (\<^verbatim>\<open>agent/internal/daemon/daemon.go\<close>), the command \<^verbatim>\<open>run\<close> (\<^verbatim>\<open>agent/main.go\<close>) and the Windows service
  (\<^verbatim>\<open>agent/service_windows.go\<close>) as a step relation between the service control manager's requests
  and the daemon's goroutine, with the handler that writes the log to the event log.
\<close>

subsection \<open>The reconnect loop\<close>

text \<open>
  What one turn of the loop meets: a dial that fails, with the wall clock and whether the context is
  cancelled before the delay has passed; or a connection with what happens while it lasts, the order in
  which the streams are cancelled, and whether the context is cancelled by its end.
\<close>

datatype sessionEvent = OnDaemon agentEvent | StreamOpens bool string | StreamCancelled string | StreamOver nat

datatype turn = DialFailed int bool | DialOK bool "string list" "sessionEvent list" "string list" bool

record runState =
  rsDaemon :: daemon
  rsStreams :: streams
  rsAttempt :: nat
  rsWaits :: "int list"

fun sessionStep :: "(AppDefinition \<Rightarrow> string) \<Rightarrow> sessionEvent \<Rightarrow> daemon \<times> streams \<Rightarrow> daemon \<times> streams" where
  "sessionStep hashf (OnDaemon e) s = (agentStep hashf e (fst s), snd s)"
| "sessionStep hashf (StreamOpens found sid) s = (fst s, startLogStream found sid (snd s))"
| "sessionStep hashf (StreamCancelled sid) s = (fst s, cancelLogStream sid (snd s))"
| "sessionStep hashf (StreamOver h) s = (fst s, streamEnds h (snd s))"

text \<open>The flag is the context's state when the turn is over.\<close>

fun runTurn :: "(AppDefinition \<Rightarrow> string) \<Rightarrow> turn \<Rightarrow> runState \<Rightarrow> runState \<times> bool" where
  "runTurn hashf (DialFailed nanos cancelled) s =
     (case backoffNext nanos (rsAttempt s) of
        (delay, attempt) \<Rightarrow> (s\<lparr>rsAttempt := attempt, rsWaits := rsWaits s @ [delay]\<rparr>, cancelled))"
| "runTurn hashf (DialOK composeOK order evs sids cancelled) s =
     (let d0 = sendHello composeOK order ((rsDaemon s)\<lparr>dConn := True\<rparr>);
          (d1, st1) = fold (sessionStep hashf) evs (d0, rsStreams s)
      in (s\<lparr>rsAttempt := 0, rsDaemon := d1\<lparr>dConn := False\<rparr>, rsStreams := cancelAllLogStreams sids st1\<rparr>, cancelled))"

text \<open>The loop over the turns; the flag tells whether it has returned.\<close>

fun connectLoop :: "(AppDefinition \<Rightarrow> string) \<Rightarrow> turn list \<Rightarrow> runState \<Rightarrow> runState \<times> bool" where
  "connectLoop hashf [] s = (s, False)"
| "connectLoop hashf (t # ts) s =
     (case runTurn hashf t s of (s1, cancelled) \<Rightarrow> if cancelled then (s1, True) else connectLoop hashf ts s1)"

definition runConnections :: "(AppDefinition \<Rightarrow> string) \<Rightarrow> bool \<Rightarrow> turn list \<Rightarrow> runState \<Rightarrow> runState \<times> bool" where
  "runConnections hashf cancelled ts s = (if cancelled then (s, True) else connectLoop hashf ts s)"

fun turnCancelled :: "turn \<Rightarrow> bool" where
  "turnCancelled (DialFailed _ c) = c"
| "turnCancelled (DialOK _ _ _ _ c) = c"

lemma runTurn_cancelled: "snd (runTurn hashf t s) = turnCancelled t"
  by (cases t) (simp_all split: prod.split)

lemma connectLoop_returns: "snd (connectLoop hashf ts s) \<longleftrightarrow> (\<exists>t \<in> set ts. turnCancelled t)"
proof (induction ts arbitrary: s)
  case (Cons t ts)
  with runTurn_cancelled [of hashf t s] show ?case by (auto split: prod.split)
qed simp

lemma cancelAll_table: "smTable (cancelAllLogStreams sids st) = Map.empty"
proof -
  have "smTable (fold cancelCtx hs st) = smTable st" for hs st
    by (induction hs arbitrary: st) (simp_all add: cancelCtx_def)
  then show ?thesis by (simp add: cancelAllLogStreams_def)
qed

lemma runTurn_settles:
  assumes "\<not> dConn (rsDaemon s)" "smTable (rsStreams s) = Map.empty"
  shows "\<not> dConn (rsDaemon (fst (runTurn hashf t s))) \<and> smTable (rsStreams (fst (runTurn hashf t s))) = Map.empty"
  using assms by (cases t) (simp_all add: cancelAll_table Let_def split: prod.split)

text \<open>
  The loop gives up for no failure of the hub: it returns only once its context is cancelled. When
  it does, and between any two turns, the daemon is offline and no log stream is in the table.
\<close>

lemma connectLoop_settles:
  assumes "\<not> dConn (rsDaemon s)" "smTable (rsStreams s) = Map.empty"
  shows "\<not> dConn (rsDaemon (fst (connectLoop hashf ts s)))
    \<and> smTable (rsStreams (fst (connectLoop hashf ts s))) = Map.empty"
  using assms
proof (induction ts arbitrary: s)
  case (Cons t ts)
  obtain s1 c where t: "runTurn hashf t s = (s1, c)" by force
  from runTurn_settles [OF Cons.prems, of hashf t] t Cons.IH [of s1] show ?case by simp
qed simp

text \<open>A connection makes the next delay start from one second again.\<close>

lemma session_resets_backoff:
  assumes "0 \<le> nanos"
  shows "fst (backoffNext nanos (rsAttempt (fst (runTurn hashf (DialOK b order evs sids c) s)))) < second"
  using backoffNext_small [of 0 nanos] assms by (simp add: baseDelay_def Let_def split: prod.split)

text \<open>What \<^verbatim>\<open>Run\<close> does to its caller: an agent that is not enrolled exits the process.\<close>

datatype runResult = RunReturned "string option" | RunExits nat

definition runResultOf :: "State \<Rightarrow> runResult" where
  "runResultOf st = (if stSystemID st = [] \<or> stHubURL st = [] then RunExits 1 else RunReturned None)"

subsection \<open>The command\<close>

text \<open>
  \<open>isService\<close> is what the system tells of the process, \<open>asService\<close> the outcome of the service's life;
  \<open>newD\<close> is \<^verbatim>\<open>daemon.New\<close>.
\<close>

definition maybeRunAsService :: "bool go_result \<Rightarrow> string option \<Rightarrow> string option option" where
  "maybeRunAsService isService asService =
     (case isService of Inr True \<Rightarrow> Some asService | _ \<Rightarrow> None)"

definition cmdRun :: "string option option \<Rightarrow> keyEnv \<Rightarrow> (string \<Rightarrow> fs \<Rightarrow> State go_result) \<Rightarrow> string \<Rightarrow> fs
    \<Rightarrow> runResult \<times> fs" where
  "cmdRun service keys newD dir f =
     (case service of
        Some err \<Rightarrow> (RunReturned err, f)
      | None \<Rightarrow>
          (case LoadOrCreate keys dir f of
             (Inl e, f1) \<Rightarrow> (RunReturned (Some e), f1)
           | (Inr priv, f1) \<Rightarrow>
               (case newD priv f1 of
                  Inl e \<Rightarrow> (RunReturned (Some e), f1)
                | Inr st \<Rightarrow> (runResultOf st, f1))))"

subsection \<open>The Windows service\<close>

datatype svcState = SvcStartPending | SvcRunning | SvcStopPending

record svcStatus =
  vsState :: svcState
  vsAcceptsStop :: bool

datatype svcRequest = Interrogate svcStatus | StopRequest | ShutdownRequest | OtherRequest nat

datatype svcPhase = Serving | Stopping | Exited nat | Died nat

text \<open>\<open>svReturned\<close> is what the daemon's goroutine has put into the channel \<^verbatim>\<open>done\<close>.\<close>

record service =
  svPhase :: svcPhase
  svReported :: "svcStatus list"
  svCancelled :: bool
  svReturned :: "string option option"

definition report :: "svcState \<Rightarrow> bool \<Rightarrow> service \<Rightarrow> service" where
  "report st acc s = s\<lparr>svReported := svReported s @ [\<lparr>vsState = st, vsAcceptsStop = acc\<rparr>]\<rparr>"

text \<open>The start of \<^verbatim>\<open>Execute\<close>, up to the loop.\<close>

definition svcStart :: "string go_result \<Rightarrow> State go_result \<Rightarrow> service" where
  "svcStart key newD =
     (let s0 = report SvcStartPending False
                 \<lparr>svPhase = Serving, svReported = [], svCancelled = False, svReturned = None\<rparr>
      in case key of
           Inl _ \<Rightarrow> s0\<lparr>svPhase := Exited 1\<rparr>
         | Inr _ \<Rightarrow> (case newD of Inl _ \<Rightarrow> s0\<lparr>svPhase := Exited 1\<rparr> | Inr _ \<Rightarrow> report SvcRunning True s0))"

definition onRequest :: "svcRequest \<Rightarrow> service \<Rightarrow> service" where
  "onRequest r s =
     (case r of
        Interrogate cur \<Rightarrow> s\<lparr>svReported := svReported s @ [cur]\<rparr>
      | OtherRequest _ \<Rightarrow> s
      | _ \<Rightarrow> (report SvcStopPending False s)\<lparr>svCancelled := True, svPhase := Stopping\<rparr>)"

definition onDone :: "string option \<Rightarrow> service \<Rightarrow> service" where
  "onDone err s =
     (case svPhase s of
        Serving \<Rightarrow> s\<lparr>svCancelled := True, svPhase := Exited (if err = None then 0 else 1)\<rparr>
      | _ \<Rightarrow> s\<lparr>svPhase := Exited 0\<rparr>)"

text \<open>
  \<open>ret\<close> tells how \<^verbatim>\<open>Run\<close> may end, given whether its context is cancelled. The \<^verbatim>\<open>select\<close> takes either a
  request or what the daemon returned; after a stop request only the latter is waited for.
\<close>

inductive svcStep :: "(bool \<Rightarrow> runResult \<Rightarrow> bool) \<Rightarrow> service \<Rightarrow> service \<Rightarrow> bool" for ret where
  request: "svPhase s = Serving \<Longrightarrow> svcStep ret s (onRequest r s)"
| returns: "svPhase s \<in> {Serving, Stopping} \<Longrightarrow> svReturned s = None \<Longrightarrow> ret (svCancelled s) (RunReturned err) \<Longrightarrow>
    svcStep ret s (s\<lparr>svReturned := Some err\<rparr>)"
| dies: "svPhase s \<in> {Serving, Stopping} \<Longrightarrow> svReturned s = None \<Longrightarrow> ret (svCancelled s) (RunExits code) \<Longrightarrow>
    svcStep ret s (s\<lparr>svPhase := Died code\<rparr>)"
| finish: "svPhase s \<in> {Serving, Stopping} \<Longrightarrow> svReturned s = Some err \<Longrightarrow> svcStep ret s (onDone err s)"

inductive_cases exited_stepE: "svcStep ret (s\<lparr>svPhase := Exited code\<rparr>) s'"

lemma exited_final: "\<not> svcStep ret (s\<lparr>svPhase := Exited code\<rparr>) s'"
  by (auto elim: exited_stepE)

definition svcInv :: "service \<Rightarrow> bool" where
  "svcInv s \<longleftrightarrow>
     (case svPhase s of
        Serving \<Rightarrow> \<not> svCancelled s
      | Stopping \<Rightarrow> svCancelled s \<and> vsState (last (svReported s)) = SvcStopPending
      | Exited code \<Rightarrow>
          (if svReturned s = None
           then code = 1 \<and> \<not> svCancelled s \<and> svReported s = [\<lparr>vsState = SvcStartPending, vsAcceptsStop = False\<rparr>]
           else svCancelled s \<and> (code = 0 \<or> code = 1 \<and> svReturned s \<noteq> Some None))
      | Died code \<Rightarrow> svReturned s = None)"

lemma svcInv_start: "svcInv (svcStart key newD)"
  by (simp add: svcStart_def svcInv_def report_def Let_def split: sum.split)

lemma svcInv_step: "svcStep ret s s' \<Longrightarrow> svcInv s \<Longrightarrow> svcInv s'"
proof (induction rule: svcStep.induct)
  case (request s r)
  then show ?case by (cases r) (simp_all add: svcInv_def onRequest_def report_def)
next
  case (finish s err)
  then show ?case by (auto simp: svcInv_def onDone_def)
qed (auto simp: svcInv_def)

lemma svc_invariant: "(svcStep ret)\<^sup>*\<^sup>* (svcStart key newD) s \<Longrightarrow> svcInv s"
  by (induction rule: rtranclp_induct) (auto intro: svcInv_start svcInv_step)

text \<open>
  The service never leaves its process while the daemon runs: \<^verbatim>\<open>Execute\<close> returns after a failed start,
  or once the daemon has returned.
\<close>

lemma service_waits_for_daemon:
  assumes "(svcStep ret)\<^sup>*\<^sup>* (svcStart key newD) s" "svPhase s = Exited code"
  shows "svReturned s \<noteq> None \<or> code = 1 \<and> svReported s = [\<lparr>vsState = SvcStartPending, vsAcceptsStop = False\<rparr>]"
  using svc_invariant [OF assms(1)] assms(2) by (simp add: svcInv_def split: if_splits)

text \<open>How this daemon ends: \<^verbatim>\<open>Run\<close> returns nothing but nil, and only when cancelled, or exits the process.\<close>

definition daemonEnds :: "State \<Rightarrow> bool \<Rightarrow> runResult \<Rightarrow> bool" where
  "daemonEnds st cancelled r \<longleftrightarrow> r = runResultOf st \<and> (case r of RunReturned _ \<Rightarrow> cancelled | RunExits _ \<Rightarrow> True)"

lemma service_code_invariant:
  assumes "(svcStep (daemonEnds st))\<^sup>*\<^sup>* (svcStart key newD) s"
  shows "svReturned s \<in> {None, Some None} \<and> (svReturned s \<noteq> None \<longrightarrow> svCancelled s)
    \<and> (\<forall>code. svPhase s = Exited code \<longrightarrow> svReturned s = None \<or> code = 0)"
  using assms
proof (induction rule: rtranclp_induct)
  case base
  show ?case by (simp add: svcStart_def report_def Let_def split: sum.split)
next
  case (step s s')
  from step.hyps(2) show ?case
  proof (cases rule: svcStep.cases)
    case (request r)
    with step.IH show ?thesis by (cases r) (auto simp: onRequest_def report_def)
  next
    case (returns err)
    with step.IH show ?thesis by (auto simp: daemonEnds_def runResultOf_def split: if_splits)
  next
    case (dies code)
    with step.IH show ?thesis by auto
  next
    case (finish err)
    with step.IH show ?thesis by (auto simp: onDone_def split: svcPhase.split)
  qed
qed

text \<open>
  The branch for a daemon that ends on its own never reports a failure: with this daemon the service
  returns code one after a failed start only, so the manager is never asked to restart it.
\<close>

lemma service_fails_only_at_start:
  assumes "(svcStep (daemonEnds st))\<^sup>*\<^sup>* (svcStart key newD) s" "svPhase s = Exited 1"
  shows "svReported s = [\<lparr>vsState = SvcStartPending, vsAcceptsStop = False\<rparr>]"
  using service_code_invariant [OF assms(1)] service_waits_for_daemon [OF assms] assms(2) by auto

subsection \<open>The event log\<close>

text \<open>The severities of \<^verbatim>\<open>log/slog\<close>: debug -4, info 0, warn 4, error 8.\<close>

datatype eventEntry = EventError string | EventWarning string | EventInfo string

definition eventEnabled :: "int \<Rightarrow> bool" where
  "eventEnabled level \<longleftrightarrow> level \<ge> 0"

definition attrText :: "string \<times> string \<Rightarrow> string" where
  "attrText a = fst a @ ''='' @ snd a"

definition withAttrs :: "(string \<times> string) list \<Rightarrow> string \<Rightarrow> string" where
  "withAttrs attrs attr = attr @ concat (map (\<lambda>a. attrText a @ '' '') attrs)"

definition handleRecord :: "string \<Rightarrow> int \<Rightarrow> string \<Rightarrow> (string \<times> string) list \<Rightarrow> eventEntry" where
  "handleRecord attr level message attrs =
     (let msg0 = message @ concat (map (\<lambda>a. '' '' @ attrText a) attrs);
          msg = (if attr \<noteq> [] then attr @ '' '' @ msg0 else msg0)
      in if level \<ge> 8 then EventError msg else if level \<ge> 4 then EventWarning msg else EventInfo msg)"

lemma withAttrs_append: "withAttrs (as @ bs) attr = withAttrs bs (withAttrs as attr)"
  by (simp add: withAttrs_def)

end
