(* ===== verification/AgentPaths.thy ===== *)
theory AgentPaths
  imports AgentStore AgentCli LogFollow
begin

text \<open>
  The files of the agent and Go's \<^verbatim>\<open>path/filepath\<close> on unix, as far as the agent names files with it: \<^verbatim>\<open>Clean\<close> and
  \<^verbatim>\<open>Join\<close>. The state directory and the spool (\<^verbatim>\<open>internal/appconfig/store.go\<close>), the logs
  (\<^verbatim>\<open>internal/daemon/apps.go\<close>) and the transcript roots (\<^verbatim>\<open>internal/tokenwatch/watcher.go\<close>).
\<close>

subsection \<open>Cleaning a path\<close>

abbreviation slash :: char where
  "slash \<equiv> CHR ''/''"

definition rooted :: "string \<Rightarrow> bool" where
  "rooted p \<longleftrightarrow> (case p of [] \<Rightarrow> False | c # _ \<Rightarrow> c = slash)"

text \<open>The elements kept so far are a stack, the last element first.\<close>

definition cleanStep :: "bool \<Rightarrow> string \<Rightarrow> string list \<Rightarrow> string list" where
  "cleanStep r e st =
     (if e = [] \<or> e = ''.'' then st
      else if e = ''..'' then
        (case st of
           [] \<Rightarrow> if r then [] else [''..'']
         | x # st1 \<Rightarrow> if x = ''..'' then ''..'' # st else st1)
      else e # st)"

definition pathElems :: "string \<Rightarrow> string list" where
  "pathElems p = rev (fold (cleanStep (rooted p)) (splitOn slash p) [])"

definition renderPath :: "bool \<Rightarrow> string list \<Rightarrow> string" where
  "renderPath r els =
     (if r then slash # joinWith [slash] els else if els = [] then ''.'' else joinWith [slash] els)"

definition cleanPath :: "string \<Rightarrow> string" where
  "cleanPath p = renderPath (rooted p) (pathElems p)"

definition joinPath :: "string list \<Rightarrow> string" where
  "joinPath parts =
     (let ps = dropWhile (\<lambda>p. p = []) parts in if ps = [] then [] else cleanPath (joinWith [slash] ps))"

subsection \<open>Splitting and joining\<close>

lemma splitOn_joinWith:
  "ss \<noteq> [] \<Longrightarrow> \<forall>s \<in> set ss. c \<notin> set s \<Longrightarrow> splitOn c (joinWith [c] ss) = ss"
proof (induction ss)
  case (Cons s ss)
  then show ?case by (cases "ss = []") (simp_all add: splitOn_free joinWith_Cons splitOn_sep)
qed simp

lemma joinWith_last: "ss \<noteq> [] \<Longrightarrow> joinWith sep (ss @ [s]) = joinWith sep ss @ sep @ s"
proof (induction ss)
  case (Cons t ss)
  then show ?case by (cases "ss = []") (simp_all add: joinWith_Cons)
qed simp

subsection \<open>Clean paths\<close>

definition plainElem :: "string \<Rightarrow> bool" where
  "plainElem e \<longleftrightarrow> e \<noteq> [] \<and> e \<noteq> ''.'' \<and> e \<noteq> ''..'' \<and> slash \<notin> set e"

text \<open>Elements that are kept lie above those that lead upwards, and a rooted path has none of these.\<close>

definition cleanStack :: "bool \<Rightarrow> string list \<Rightarrow> bool" where
  "cleanStack r st \<longleftrightarrow> (\<exists>up n. st = up @ replicate n ''..'' \<and> list_all plainElem up \<and> (r \<longrightarrow> n = 0))"

lemma cleanStack_step:
  assumes "cleanStack r st" "slash \<notin> set e"
  shows "cleanStack r (cleanStep r e st)"
proof -
  from assms(1) obtain up n where st: "st = up @ replicate n ''..''" "list_all plainElem up" "r \<longrightarrow> n = 0"
    by (auto simp: cleanStack_def)
  consider "e = [] \<or> e = ''.''" | "e = ''..''" | "plainElem e" using assms(2) by (auto simp: plainElem_def)
  then show ?thesis
  proof cases
    case 1
    with assms(1) show ?thesis by (simp add: cleanStep_def)
  next
    case 3
    then have "cleanStep r e st = (e # up) @ replicate n ''..''" by (auto simp: cleanStep_def plainElem_def st(1))
    with 3 st show ?thesis unfolding cleanStack_def by (intro exI [of _ "e # up"] exI [of _ n]) simp
  next
    case 2
    show ?thesis
    proof (cases up)
      case (Cons x up')
      with st(2) 2 have "cleanStep r e st = up' @ replicate n ''..''" by (simp add: cleanStep_def st(1) plainElem_def)
      with st Cons show ?thesis by (auto simp: cleanStack_def)
    next
      case Nil
      show ?thesis
      proof (cases "r \<and> n = 0")
        case True
        with 2 Nil st(1) have "cleanStep r e st = []" by (simp add: cleanStep_def)
        then show ?thesis unfolding cleanStack_def by (intro exI [of _ "[]"] exI [of _ 0]) simp
      next
        case False
        with 2 Nil st have "cleanStep r e st = replicate (Suc n) ''..''" "\<not> r"
          by (cases n; auto simp: cleanStep_def)+
        then show ?thesis unfolding cleanStack_def by (intro exI [of _ "[]"] exI [of _ "Suc n"]) simp
      qed
    qed
  qed
qed

lemma cleanStack_fold:
  "cleanStack r st \<Longrightarrow> \<forall>e \<in> set es. slash \<notin> set e \<Longrightarrow> cleanStack r (fold (cleanStep r) es st)"
  by (induction es arbitrary: st) (simp_all add: cleanStack_step)

lemma cleanStack_elems: "cleanStack (rooted p) (rev (pathElems p))"
proof -
  have "cleanStack (rooted p) []" by (simp add: cleanStack_def exI [of _ "[]"])
  from cleanStack_fold [OF this, of "splitOn slash p"] splitOn_pieces_free [of _ slash p]
  show ?thesis by (auto simp: pathElems_def)
qed

lemma fold_plain: "list_all plainElem es \<Longrightarrow> fold (cleanStep r) es st = rev es @ st"
  by (induction es arbitrary: st) (simp_all add: cleanStep_def plainElem_def)

lemma fold_upwards: "fold (cleanStep False) (replicate n ''..'') (replicate m ''..'') = replicate (n + m) ''..''"
proof (induction n arbitrary: m)
  case (Suc n)
  have "cleanStep False ''..'' (replicate m ''..'') = replicate (Suc m) ''..''" by (cases m) (simp_all add: cleanStep_def)
  with Suc.IH [of "Suc m"] show ?case by simp
qed simp

lemma fold_cleanStack:
  assumes "cleanStack r st"
  shows "fold (cleanStep r) (rev st) [] = st"
proof -
  from assms obtain up n where st: "st = up @ replicate n ''..''" "list_all plainElem up" "r \<longrightarrow> n = 0"
    by (auto simp: cleanStack_def)
  have "fold (cleanStep r) (replicate n ''..'') [] = replicate n ''..''"
    using st(3) fold_upwards [of n 0] by (cases r) simp_all
  with st fold_plain [of "rev up" r] show ?thesis by (simp add: list_all_iff)
qed

lemma cleanStack_elem: "cleanStack r st \<Longrightarrow> e \<in> set st \<Longrightarrow> e \<noteq> [] \<and> slash \<notin> set e"
proof -
  assume "cleanStack r st" "e \<in> set st"
  then obtain up n where "list_all plainElem up" "e \<in> set (up @ replicate n ''..'')"
    unfolding cleanStack_def by blast
  then have "plainElem e \<or> e = ''..''" by (auto simp: list_all_iff)
  then show ?thesis by (elim disjE) (simp_all add: plainElem_def)
qed

lemma render_rooted:
  assumes "\<forall>e \<in> set els. e \<noteq> [] \<and> slash \<notin> set e"
  shows "rooted (renderPath r els) = r"
proof (cases els)
  case (Cons e es)
  with assms have "e \<noteq> []" "slash \<notin> set e" by simp_all
  then obtain x xs where "e = x # xs" "x \<noteq> slash" by (cases e) auto
  then show ?thesis by (cases es) (auto simp: renderPath_def rooted_def Cons)
qed (simp add: renderPath_def rooted_def)

lemma elems_render:
  assumes "cleanStack r (rev els)"
  shows "pathElems (renderPath r els) = els"
proof -
  have ok: "\<forall>e \<in> set els. e \<noteq> [] \<and> slash \<notin> set e" using cleanStack_elem [OF assms] by simp
  have rt: "rooted (renderPath r els) = r" by (rule render_rooted [OF ok])
  have f: "fold (cleanStep r) els [] = rev els" using fold_cleanStack [OF assms] by simp
  have e: "cleanStep r [] st = st" "cleanStep r ''.'' st = st" for r st by (simp_all add: cleanStep_def)
  show ?thesis
  proof (cases "els = []")
    case True
    with rt show ?thesis by (cases r) (simp_all add: pathElems_def renderPath_def cleanStep_def)
  next
    case False
    with ok have "splitOn slash (joinWith [slash] els) = els" by (simp add: splitOn_joinWith)
    with f False rt show ?thesis by (cases r) (simp_all add: pathElems_def renderPath_def e)
  qed
qed

theorem clean_idempotent: "cleanPath (cleanPath p) = cleanPath p"
proof -
  have "\<forall>e \<in> set (pathElems p). e \<noteq> [] \<and> slash \<notin> set e" using cleanStack_elem [OF cleanStack_elems] by fastforce
  then show ?thesis by (simp add: cleanPath_def render_rooted elems_render [OF cleanStack_elems])
qed

text \<open>What is appended to a path is walked from where the path leads.\<close>

lemma elems_append:
  assumes "p \<noteq> []"
  shows "pathElems (p @ slash # f) = rev (fold (cleanStep (rooted p)) (splitOn slash f) (rev (pathElems p)))"
    and "rooted (p @ slash # f) = rooted p"
proof -
  show "rooted (p @ slash # f) = rooted p" using assms by (cases p) (simp_all add: rooted_def)
  then show "pathElems (p @ slash # f) = rev (fold (cleanStep (rooted p)) (splitOn slash f) (rev (pathElems p)))"
    by (simp add: pathElems_def splitOn_sep)
qed

lemma elems_plain:
  assumes "p \<noteq> []" "plainElem f"
  shows "pathElems (p @ slash # f) = pathElems p @ [f]"
  using assms by (simp add: elems_append splitOn_free plainElem_def cleanStep_def)

lemma render_snoc: "els \<noteq> [] \<Longrightarrow> renderPath r (els @ [f]) = renderPath r els @ slash # f"
  by (simp add: renderPath_def joinWith_last)

lemma join_plain:
  assumes "cleanPath dir = dir" "dir \<noteq> [slash]" "dir \<noteq> ''.''" "plainElem f"
  shows "joinPath [dir, f] = dir @ slash # f"
proof -
  have ne: "dir \<noteq> []" using assms(1) by (auto simp: cleanPath_def renderPath_def rooted_def pathElems_def cleanStep_def)
  have "pathElems dir \<noteq> []"
  proof
    assume "pathElems dir = []"
    with assms(1-3) show False by (cases "rooted dir") (simp_all add: cleanPath_def renderPath_def)
  qed
  then have "cleanPath (dir @ slash # f) = dir @ slash # f"
    using assms(1) by (simp add: cleanPath_def elems_plain [OF ne assms(4)] elems_append(2) [OF ne] render_snoc)
  with ne show ?thesis by (simp add: joinPath_def)
qed

subsection \<open>The state directory\<close>

datatype goos = Darwin | Windows | OtherOS

text \<open>
  \<open>custom\<close> is the variable \<^verbatim>\<open>BREAKERBOX_STATE_DIR\<close>, \<open>home\<close> the home directory (empty when there is none);
  \<open>winJoin\<close> is \<^verbatim>\<open>filepath.Join\<close> under the rules of Windows.
\<close>

definition DefaultStateDir :: "(string list \<Rightarrow> string) \<Rightarrow> string \<Rightarrow> goos \<Rightarrow> string \<Rightarrow> string \<Rightarrow> bool \<Rightarrow> string" where
  "DefaultStateDir winJoin custom os home programData isRoot =
     (if custom \<noteq> [] then custom
      else case os of
          Darwin \<Rightarrow> joinPath [home, ''Library'', ''Application Support'', ''breakerbox-agent'']
        | Windows \<Rightarrow> winJoin [programData, ''breakerbox-agent'']
        | OtherOS \<Rightarrow> if isRoot then ''/var/lib/breakerbox-agent''
            else joinPath [home, ''.local'', ''share'', ''breakerbox-agent''])"

definition spoolDir :: "string \<Rightarrow> string" where
  "spoolDir dir = joinPath [dir, ''spool'']"

definition logPath :: "string \<Rightarrow> string \<Rightarrow> string" where
  "logPath dir appID = joinPath [dir, ''logs'', appID @ ''.log'']"

definition checkpointPath :: "string \<Rightarrow> string" where
  "checkpointPath dir = joinPath [dir, ''tokenwatch.json'']"

definition overridePath :: "string \<Rightarrow> string" where
  "overridePath dataDir = joinPath [dataDir, ''pricing.json'']"

definition roots :: "string option \<Rightarrow> string \<times> string" where
  "roots home =
     (case home of
        None \<Rightarrow> ([], [])
      | Some h \<Rightarrow> (joinPath [h, ''.claude'', ''projects''], joinPath [h, ''.codex'', ''sessions'']))"

text \<open>The directories the agent uses are clean, so the plain concatenations of the store's model are what \<^verbatim>\<open>Join\<close> gives.\<close>

lemma store_paths:
  assumes "cleanPath dir = dir" "dir \<noteq> [slash]" "dir \<noteq> ''.''"
  shows "statePath dir = joinPath [dir, ''state.json'']" "keyPath dir = joinPath [dir, ''agent_ed25519.key'']"
  using join_plain [OF assms, of "''state.json''"] join_plain [OF assms, of "''agent_ed25519.key''"]
  by (simp_all add: statePath_def keyPath_def plainElem_def)

lemma joinPath_clean: "parts \<noteq> [] \<Longrightarrow> hd parts \<noteq> [] \<Longrightarrow> cleanPath (joinPath parts) = joinPath parts"
  by (cases parts) (simp_all add: joinPath_def clean_idempotent)

subsection \<open>Log files\<close>

text \<open>The log of an application whose id has no slash lies in the directory of the logs, under its own name.\<close>

theorem log_path_contained:
  assumes "dir \<noteq> []" "slash \<notin> set appID"
  shows "logPath dir appID = joinPath [dir, ''logs''] @ slash # appID @ ''.log''"
proof -
  have p: "plainElem ''logs''" "plainElem (appID @ ''.log'')"
    using assms(2) by (auto simp: plainElem_def append_eq_Cons_conv)
  have l: "dir @ slash # ''logs'' \<noteq> []" by simp
  have "cleanPath ((dir @ slash # ''logs'') @ slash # appID @ ''.log'') = cleanPath (dir @ slash # ''logs'') @ slash # appID @ ''.log''"
    using elems_plain [OF l p(2)] elems_plain [OF assms(1) p(1)] elems_append(2) [OF l, of "appID @ ''.log''"]
    using render_snoc [of "pathElems dir @ [''logs'']" _ "appID @ ''.log''"] by (simp add: cleanPath_def)
  with assms(1) show ?thesis by (simp add: logPath_def joinPath_def)
qed

text \<open>The id comes from the hub and is not checked: with a slash in it the file may be anywhere.\<close>

lemma log_path_escapes:
  "logPath ''/var/lib/breakerbox-agent'' ''../../../../tmp/x'' = ''/tmp/x.log''"
  by code_simp

text \<open>
  \<^verbatim>\<open>openLog\<close> makes the directory, rotates a log that has grown too large and opens it for appending;
  \<open>mkdirErr\<close> and \<open>openErr\<close> are what the system refuses.
\<close>

definition openAppLog :: "string option \<Rightarrow> string option \<Rightarrow> string \<Rightarrow> string \<Rightarrow> (string \<rightharpoonup> string)
    \<Rightarrow> string go_result \<times> (string \<rightharpoonup> string)" where
  "openAppLog mkdirErr openErr dir appID files =
     (let path = logPath dir appID in
      case mkdirErr of
        Some e \<Rightarrow> (Inl e, files)
      | None \<Rightarrow>
          (let files1 = rotateLogIfNeeded path files in
           case openErr of
             Some e \<Rightarrow> (Inl e, files1)
           | None \<Rightarrow> (Inr path, if files1 path = None then files1(path \<mapsto> []) else files1)))"

text \<open>An opened log is below the limit; what was in it is still there, in the file or in its older generation.\<close>

lemma opened_log:
  assumes "openAppLog mkdirErr openErr dir appID files = (Inr path, files')"
  shows "path = logPath dir appID \<and> (\<exists>b. files' path = Some b \<and> length b < maxLogFileSize)
    \<and> (\<forall>b. files path = Some b \<longrightarrow> files' path = Some b \<or> files' (path @ ''.1'') = Some b)"
proof -
  have pos: "0 < maxLogFileSize" by (simp add: maxLogFileSize_def)
  from assms show ?thesis
    by (cases "files (logPath dir appID)")
      (auto simp: openAppLog_def rotateLogIfNeeded_def Let_def pos split: option.splits if_splits)
qed

end
