(* ===== verification/AgentSecurity.thy ===== *)
theory AgentSecurity
  imports AgentControl
begin

text \<open>
  The agent's security model (\<^verbatim>\<open>SECURITY.md\<close>): nothing runs on the host that the host has not
  approved. The invariant \<open>vetted\<close> ties every approved process application to a decision of
  the host, in memory and on disk, and every process ever spawned to such a decision; it is
  kept by each operation and so holds in every reachable state, whatever frames the hub sends.
\<close>

subsection \<open>Frame facts\<close>

lemma sendF_fields [simp]:
  "dApps (sendF f d) = dApps d" "dProcs (sendF f d) = dProcs d" "dStartTimes (sendF f d) = dStartTimes d"
  "dRestarts (sendF f d) = dRestarts d" "dConn (sendF f d) = dConn d"
  "dPreApproved (sendF f d) = dPreApproved d" "dDocker (sendF f d) = dDocker d"
  "dProxy (sendF f d) = dProxy d" "dDockerStatus (sendF f d) = dDockerStatus d"
  "dDisk (sendF f d) = dDisk d" "dDiskOK (sendF f d) = dDiskOK d" "dLive (sendF f d) = dLive d"
  "dNextProc (sendF f d) = dNextProc d" "dCalls (sendF f d) = dCalls d"
  "dApproved (sendF f d) = dApproved d" "dImported (sendF f d) = dImported d"
  by (simp_all add: sendF_def)

lemma persist_fields [simp]:
  "dApps (persist d) = dApps d" "dProcs (persist d) = dProcs d" "dStartTimes (persist d) = dStartTimes d"
  "dRestarts (persist d) = dRestarts d" "dConn (persist d) = dConn d"
  "dPreApproved (persist d) = dPreApproved d" "dDocker (persist d) = dDocker d"
  "dProxy (persist d) = dProxy d" "dDockerStatus (persist d) = dDockerStatus d"
  "dDiskOK (persist d) = dDiskOK d" "dLive (persist d) = dLive d" "dSent (persist d) = dSent d"
  "dNextProc (persist d) = dNextProc d" "dCalls (persist d) = dCalls d"
  "dApproved (persist d) = dApproved d" "dImported (persist d) = dImported d"
  by (simp_all add: persist_def)

lemma dDisk_persist: "dDisk (persist d) = (if dDiskOK d then dApps d else dDisk d)"
  by (simp add: persist_def)

lemma putApp_fields [simp]:
  "dApps (putApp k a d) = (dApps d)(k \<mapsto> a)" "dProcs (putApp k a d) = dProcs d"
  "dStartTimes (putApp k a d) = dStartTimes d" "dRestarts (putApp k a d) = dRestarts d"
  "dConn (putApp k a d) = dConn d" "dPreApproved (putApp k a d) = dPreApproved d"
  "dDocker (putApp k a d) = dDocker d" "dProxy (putApp k a d) = dProxy d"
  "dDockerStatus (putApp k a d) = dDockerStatus d" "dDisk (putApp k a d) = dDisk d"
  "dDiskOK (putApp k a d) = dDiskOK d" "dLive (putApp k a d) = dLive d" "dSent (putApp k a d) = dSent d"
  "dNextProc (putApp k a d) = dNextProc d" "dCalls (putApp k a d) = dCalls d"
  "dApproved (putApp k a d) = dApproved d" "dImported (putApp k a d) = dImported d"
  by (simp_all add: putApp_def)

lemmas event_defs = sendEvent_def sendEventWithRestarts_def failCmd_def

subsection \<open>The invariant\<close>

definition hostDecided :: "daemon \<Rightarrow> string \<Rightarrow> string \<Rightarrow> AppDefinition \<Rightarrow> bool" where
  "hostDecided d appID hash def \<longleftrightarrow> (appID, hash, def) \<in> set (dApproved d) \<or> hash \<in> set (dImported d)"

definition appVetted :: "daemon \<Rightarrow> string \<Rightarrow> AppState \<Rightarrow> bool" where
  "appVetted d appID app \<longleftrightarrow>
     (asApproval app = ApprovalApproved \<and> \<not> isDockerKind (defKind (asDefinition app)) \<longrightarrow>
      hostDecided d appID (asHash app) (asDefinition app))"

definition vetted :: "daemon \<Rightarrow> bool" where
  "vetted d \<longleftrightarrow>
     (\<forall>appID app. dApps d appID = Some app \<longrightarrow> appVetted d appID app)
     \<and> (\<forall>appID app. dDisk d appID = Some app \<longrightarrow> appVetted d appID app)
     \<and> set (dPreApproved d) \<subseteq> set (dImported d)
     \<and> (\<forall>ex. CallSpawn ex \<in> set (dCalls d) \<longrightarrow> hostDecided d (exApp ex) (exHash ex) (exDef ex))"

lemma vettedI:
  assumes "\<And>appID app. dApps d appID = Some app \<Longrightarrow> appVetted d appID app"
    and "\<And>appID app. dDisk d appID = Some app \<Longrightarrow> appVetted d appID app"
    and "set (dPreApproved d) \<subseteq> set (dImported d)"
    and "\<And>ex. CallSpawn ex \<in> set (dCalls d) \<Longrightarrow> hostDecided d (exApp ex) (exHash ex) (exDef ex)"
  shows "vetted d"
  using assms by (simp add: vetted_def)

text \<open>Only six fields matter.\<close>

lemma vetted_cong:
  assumes "vetted d" "dApps d' = dApps d" "dDisk d' = dDisk d" "dPreApproved d' = dPreApproved d"
    "dCalls d' = dCalls d" "dApproved d' = dApproved d" "dImported d' = dImported d"
  shows "vetted d'"
  using assms by (simp add: vetted_def appVetted_def hostDecided_def)

lemma vetted_sendF [simp]: "vetted (sendF f d) = vetted d"
  by (auto simp: vetted_def appVetted_def hostDecided_def)

lemma vetted_events [simp]:
  "vetted (sendEvent ports appID status pid ec d) = vetted d"
  "vetted (sendEventWithRestarts appID status pid ec n d) = vetted d"
  "vetted (failCmd c m d) = vetted d"
  by (simp_all add: event_defs)

lemma vetted_volatile [simp]:
  "vetted (d\<lparr>dRestarts := r\<rparr>) = vetted d" "vetted (d\<lparr>dStartTimes := t\<rparr>) = vetted d"
  "vetted (d\<lparr>dProcs := p\<rparr>) = vetted d" "vetted (d\<lparr>dLive := l\<rparr>) = vetted d"
  "vetted (d\<lparr>dNextProc := n\<rparr>) = vetted d" "vetted (d\<lparr>dConn := c\<rparr>) = vetted d"
  "vetted (d\<lparr>dDiskOK := k\<rparr>) = vetted d" "vetted (d\<lparr>dProxy := x\<rparr>) = vetted d"
  "vetted (d\<lparr>dDockerStatus := s\<rparr>) = vetted d"
  by (simp_all add: vetted_def appVetted_def hostDecided_def)

lemma vetted_setDockerStatus [simp]: "vetted (setDockerStatus appID s d) = vetted d"
  by (simp add: setDockerStatus_def)

lemma vetted_persist: "vetted d \<Longrightarrow> vetted (persist d)"
  by (auto simp: persist_def vetted_def appVetted_def hostDecided_def)

fun isSpawn :: "hostCall \<Rightarrow> bool" where
  "isSpawn (CallSpawn _) = True"
| "isSpawn _ = False"

lemma vetted_call: "vetted d \<Longrightarrow> \<not> isSpawn c \<Longrightarrow> vetted (call c d)"
  by (cases c) (auto simp: call_def vetted_def appVetted_def hostDecided_def)

lemma vetted_spawn:
  "vetted d \<Longrightarrow> hostDecided d (exApp ex) (exHash ex) (exDef ex) \<Longrightarrow> vetted (call (CallSpawn ex) d)"
  by (auto simp: call_def vetted_def appVetted_def hostDecided_def)

text \<open>Storing an application state that is itself covered by a decision.\<close>

lemma vetted_store:
  assumes "vetted d" "appVetted d appID app"
  shows "vetted (putApp appID app d)"
  using assms by (auto simp: putApp_def vetted_def appVetted_def hostDecided_def)

lemma vetted_forget: "vetted d \<Longrightarrow> vetted (d\<lparr>dApps := (dApps d)(appID := None)\<rparr>)"
  by (auto simp: vetted_def appVetted_def hostDecided_def)

lemma vettedD: "vetted d \<Longrightarrow> dApps d appID = Some app \<Longrightarrow> appVetted d appID app"
  by (simp add: vetted_def)

text \<open>An update that leaves definition, hash and approval alone needs no new decision.\<close>

lemma vetted_restore:
  assumes "vetted d" "dApps d appID = Some app"
    "asDefinition app' = asDefinition app" "asHash app' = asHash app" "asApproval app' = asApproval app"
  shows "vetted (putApp appID app' d)"
  using vettedD [OF assms(1,2)] assms(3-5) by (intro vetted_store assms(1)) (simp add: appVetted_def)

subsection \<open>Every operation keeps it\<close>

lemma vetted_startDockerApp: "vetted d \<Longrightarrow> vetted (fst (startDockerApp h appID def d))"
  by (auto simp: startDockerApp_def Let_def vetted_call split: AppKind.split option.split)

lemma vetted_stopDockerApp: "vetted d \<Longrightarrow> vetted (fst (stopDockerApp h appID def d))"
  by (auto simp: stopDockerApp_def Let_def vetted_call split: AppKind.split option.split)

lemma vetted_recordStart: "vetted d \<Longrightarrow> vetted (recordStart now appID def p d)"
  by (auto simp: recordStart_def Let_def split: option.split intro!: vetted_persist vetted_restore)

lemma call_fields [simp]:
  "dApps (call c d) = dApps d" "dProcs (call c d) = dProcs d" "dRestarts (call c d) = dRestarts d"
  "dStartTimes (call c d) = dStartTimes d" "dLive (call c d) = dLive d" "dConn (call c d) = dConn d"
  "dNextProc (call c d) = dNextProc d" "dDiskOK (call c d) = dDiskOK d" "dDisk (call c d) = dDisk d"
  "dDocker (call c d) = dDocker d" "dDockerStatus (call c d) = dDockerStatus d" "dSent (call c d) = dSent d"
  "dPreApproved (call c d) = dPreApproved d"
  "dApproved (call c d) = dApproved d" "dImported (call c d) = dImported d"
  by (simp_all add: call_def)

lemma vetted_launch:
  assumes "vetted d" "hostDecided d appID (asHash app) (asDefinition app)"
  shows "vetted (fst (launch h appID app d))"
  using assms
  by (auto simp: launch_def Let_def vetted_spawn split: sum.split intro!: vetted_recordStart)

lemma hostDecided_sendEvent [simp]:
  "hostDecided (sendEvent ports x st pid ec d) appID hash def = hostDecided d appID hash def"
  by (simp add: hostDecided_def sendEvent_def)

lemma vetted_startApp:
  assumes "vetted d"
  shows "vetted (fst (startApp h appID d))"
proof (cases "dApps d appID")
  case (Some app)
  have "hostDecided d appID (asHash app) (asDefinition app)"
    if "asApproval app = ApprovalApproved" "\<not> isDockerKind (defKind (asDefinition app))"
    using vettedD [OF assms Some] that by (simp add: appVetted_def)
  with Some assms show ?thesis
    by (auto simp: startApp_def split: option.split intro!: vetted_startDockerApp vetted_launch)
qed (simp add: startApp_def assms)

lemma vetted_cancelRestart [simp]: "vetted (cancelRestart appID d) = vetted d"
  by (simp add: cancelRestart_def)

lemma vetted_stopApp: "vetted d \<Longrightarrow> vetted (fst (stopApp h appID d))"
  unfolding stopApp_def Let_def
  by (auto split: option.split intro!: vetted_stopDockerApp vetted_persist vetted_restore vetted_call
      simp: vetted_call)

lemma vetted_handleUnexpectedExit: "vetted d \<Longrightarrow> vetted (handleUnexpectedExit now appID ec d)"
  by (auto simp: handleUnexpectedExit_def Let_def split: prod.split)

text \<open>What the timer callback keeps: whatever its parts keep.\<close>

lemma timerFires_keeps:
  assumes "P d" "\<And>d r. P d \<Longrightarrow> P (d\<lparr>dRestarts := r\<rparr>)"
    and "\<And>d. P d \<Longrightarrow> P (sendEvent [] k StatusStopped 0 None d)"
    and "\<And>d. P d \<Longrightarrow> P (fst (startApp h k d))"
    and "\<And>d. P d \<Longrightarrow> P (handleUnexpectedExit (hrNow h) k (- 1) d)"
  shows "P (timerFires h k d)"
proof -
  have "P (case startApp h k d1 of (d2, None) \<Rightarrow> d2
      | (d2, Some _) \<Rightarrow> handleUnexpectedExit (hrNow h) k (- 1) d2)" if "P d1" for d1
    using assms(4) [OF that] assms(5) by (cases "startApp h k d1") (simp split: option.split)
  then show ?thesis
    using assms(1-3) by (simp add: timerFires_def Let_def split: option.split timer.split)
qed

lemma vetted_timerFires: "vetted d \<Longrightarrow> vetted (timerFires h appID d)"
  by (rule timerFires_keeps) (auto intro: vetted_startApp vetted_handleUnexpectedExit)

lemma vetted_procExited: "vetted d \<Longrightarrow> vetted (procExited now uid appID ec l d)"
  by (auto simp: procExited_def Let_def split: option.split intro!: vetted_handleUnexpectedExit)

lemma vetted_installSpec: "vetted d \<Longrightarrow> vetted (installSpec spec d)"
  unfolding installSpec_def Let_def vetted_sendF
  by (rule vettedI)
    (auto simp: vetted_def appVetted_def hostDecided_def newApproval_def
      dest: set_remove1_subset [THEN subsetD] split: if_splits)

lemma vetted_applySpec: "vetted (fst s) \<Longrightarrow> vetted (fst (applySpec spec s))"
  by (cases s)
    (auto simp: applySpec_def split: option.split intro!: vetted_installSpec vetted_restore)

lemma vetted_fold_specs: "vetted (fst s) \<Longrightarrow> vetted (fst (fold applySpec specs s))"
  by (induction specs arbitrary: s) (simp_all add: vetted_applySpec)

lemma vetted_removeApp: "vetted d \<Longrightarrow> vetted (removeApp appID d)"
proof -
  assume v: "vetted d"
  have "vetted (d'\<lparr>dRestarts := r, dApps := (dApps d')(appID := None)\<rparr>)" if "vetted d'" for d' r
    using vetted_forget [of "d'\<lparr>dRestarts := r\<rparr>" appID] that by simp
  with v show ?thesis
    by (auto simp: removeApp_def Let_def vetted_call split: option.split)
qed

lemma vetted_fold: "(\<And>x d. vetted d \<Longrightarrow> vetted (f x d)) \<Longrightarrow> vetted d \<Longrightarrow> vetted (fold f xs d)"
  by (induction xs arbitrary: d) auto

lemma vetted_applyAppSync: "vetted d \<Longrightarrow> vetted (applyAppSync order specs d)"
  using vetted_fold_specs [of "(d, False)" specs]
  by (auto simp: applyAppSync_def Let_def split: prod.splits
      intro!: vetted_persist vetted_fold vetted_removeApp)

lemma vetted_act: "vetted d \<Longrightarrow> vetted (act hs a d)"
  by (simp add: act_def vetted_startApp vetted_stopApp)

lemma vetted_reconcile: "vetted d \<Longrightarrow> vetted (reconcile hs order d)"
  by (auto simp: reconcile_def intro: vetted_fold vetted_act)

lemma vetted_persistDesired: "vetted d \<Longrightarrow> vetted (persistDesired appID ds d)"
  by (auto simp: persistDesired_def split: option.split intro!: vetted_persist vetted_restore)

lemma vetted_runVerb: "vetted d \<Longrightarrow> runVerb h v appID d = Some r \<Longrightarrow> vetted (fst r)"
  using vetted_stopApp [OF vetted_persistDesired, of d h appID appID DesiredRunning]
  by (cases v)
    (auto intro!: vetted_startApp vetted_stopApp vetted_persistDesired split: prod.splits option.splits)

lemma vetted_execute: "vetted d \<Longrightarrow> vetted (execute h cmd d)"
  using vetted_runVerb [of "sendF (FCmdAck (cmdID cmd)) d" h "cmdVerb cmd" "cmdAppID cmd"]
  by (fastforce simp: execute_def Let_def split: option.split prod.split)

lemma vetted_applySpoolOp:
  assumes "vetted d"
  shows "vetted (applySpoolOp hashf op d)"
proof -
  have grow: "vetted (d\<lparr>dApproved := dApproved d @ xs\<rparr>)" for xs
    using assms by (auto simp: vetted_def appVetted_def hostDecided_def)
  have imp: "vetted (d\<lparr>dPreApproved := dPreApproved d @ [h], dImported := dImported d @ [h]\<rparr>)" for h
    using assms by (auto simp: vetted_def appVetted_def hostDecided_def)
  have "vetted (setApproval appID ApprovalApproved app
      (d\<lparr>dApproved := dApproved d @ [(appID, asHash app, asDefinition app)]\<rparr>))" for appID app
    using vetted_store [OF grow, of "[(appID, asHash app, asDefinition app)]" appID
        "app\<lparr>asApproval := ApprovalApproved\<rparr>"]
    by (auto simp: setApproval_def appVetted_def hostDecided_def intro: vetted_persist)
  moreover have "vetted (setApproval appID ApprovalRejected app d)" for appID app
    using vetted_store [OF assms, of appID "app\<lparr>asApproval := ApprovalRejected\<rparr>"]
    by (auto simp: setApproval_def appVetted_def intro: vetted_persist)
  ultimately show ?thesis
    using assms imp by (auto simp: applySpoolOp_def split: option.split)
qed

lemma vetted_pollDockerApps: "vetted d \<Longrightarrow> vetted (pollDockerApps engine order d)"
  by (auto simp: pollDockerApps_def pollApp_def Let_def split: prod.split intro!: vetted_fold)

lemma vetted_newDaemon: "vetted d \<Longrightarrow> vetted (newDaemon docker d)"
  by (auto simp: newDaemon_def vetted_def appVetted_def hostDecided_def)

lemma vetted_clearReaped: "vetted d \<Longrightarrow> vetted (clearReaped appID d)"
  by (auto simp: clearReaped_def split: option.split intro!: vetted_restore)

lemma vetted_bootRun: "vetted d \<Longrightarrow> vetted (bootRun hs o1 o2 d)"
  by (auto simp: bootRun_def resurrect_def
      intro!: vetted_fold vetted_persist vetted_startApp vetted_clearReaped)

lemma vetted_handleFrame: "vetted d \<Longrightarrow> vetted (handleFrame hs order f d)"
  by (induction hs order f d rule: handleFrame.induct)
    (auto intro: vetted_reconcile vetted_applyAppSync vetted_execute)

lemma vetted_agentStep: "vetted d \<Longrightarrow> vetted (agentStep hashf e d)"
  by (cases e)
    (auto simp: sendHello_def Let_def intro: vetted_handleFrame vetted_applySpoolOp vetted_procExited
      vetted_timerFires vetted_pollDockerApps vetted_bootRun vetted_newDaemon)

lemma vetted_fresh: "vetted freshAgent"
  by (simp add: freshAgent_def vetted_def)

lemma reachable_vetted: "reachable hashf d \<Longrightarrow> vetted d"
  by (induction rule: reachable.induct) (auto intro: vetted_fresh vetted_agentStep)

end
