(* ===== verification/AgentRestart.thy ===== *)
theory AgentRestart
  imports AgentSecurity
begin

text \<open>
  Properties of the agent's lifecycle machinery: the backoff delays, the crash-restart policy
  as a whole (how often an application that keeps crashing is restarted, and that it is given
  up), and that a stop by the user always wins over pending restarts.
\<close>

subsection \<open>Backoff delays\<close>

lemma backoffDelay_eq:
  assumes "0 < m"
  shows "backoffDelay count m = min m (second * 2 ^ nat (min (count - 1) 30))"
proof -
  have "nat (min (count - 1) 30) \<le> 30" by simp
  from shl64_second [OF this]
  have s: "shl64 second (nat (min (count - 1) 30)) = second * 2 ^ nat (min (count - 1) 30)" .
  have pick: "0 < x \<Longrightarrow> (if x > m \<or> x \<le> 0 then m else x) = min m x" for x :: int
    by auto
  show ?thesis
    unfolding backoffDelay_def Let_def s by (rule pick) simp
qed

lemma backoffDelay_mono:
  assumes "0 < m" "c \<le> c'"
  shows "backoffDelay c m \<le> backoffDelay c' m"
proof -
  have "(2::int) ^ nat (min (c - 1) 30) \<le> 2 ^ nat (min (c' - 1) 30)"
    using assms(2) by (intro power_increasing) auto
  then have "second * 2 ^ nat (min (c - 1) 30) \<le> second * 2 ^ nat (min (c' - 1) 30)"
    by (simp add: second_def)
  then show ?thesis
    unfolding backoffDelay_eq [OF assms(1)] by linarith
qed

text \<open>The delay before the \<open>count\<close>-th restart is the cap or one second doubled count - 1
  times (at most 30 doublings), whichever is smaller; it is positive, never above the cap, and
  the 64-bit shift never overflows.\<close>

theorem backoff_delay_doubles:
  assumes "0 < m"
  shows "backoffDelay count m = min m (second * 2 ^ nat (min (count - 1) 30))
    \<and> 0 < backoffDelay count m \<and> backoffDelay count m \<le> m
    \<and> (\<forall>c'\<ge>count. backoffDelay count m \<le> backoffDelay c' m)"
  using backoffDelay_mono [OF assms] assms by (simp add: backoffDelay_eq)

theorem backoff_delay_doubles_witness:
  "backoffDelay 4 (60 * second) = 8 * second \<and> backoffDelay 8 (60 * second) = 60 * second"
  using backoff_delay_doubles [of "60 * second" 4] backoff_delay_doubles [of "60 * second" 8]
  by (simp add: second_def)

subsection \<open>One crash\<close>

abbreviation maxR :: "AppState \<Rightarrow> int" where
  "maxR app \<equiv> fst (policyFor (asDefinition app))"

abbreviation minUp :: "AppState \<Rightarrow> int" where
  "minUp app \<equiv> fst (snd (policyFor (asDefinition app)))"

abbreviation boMax :: "AppState \<Rightarrow> int" where
  "boMax app \<equiv> snd (snd (policyFor (asDefinition app)))"

definition crashes :: "daemon \<Rightarrow> string \<Rightarrow> int" where
  "crashes d appID = (case dRestarts d appID of None \<Rightarrow> 0 | Some rs \<Rightarrow> rsCount rs)"

definition pendingAt :: "daemon \<Rightarrow> string \<Rightarrow> int option" where
  "pendingAt d appID = (case dRestarts d appID of None \<Rightarrow> None
     | Some rs \<Rightarrow> (case rsTimer rs of Some (TimerPending due) \<Rightarrow> Some due | _ \<Rightarrow> None))"

lemma sendEvents_fields [simp]:
  "dApps (sendEvent a b c e f d) = dApps d" "dProcs (sendEvent a b c e f d) = dProcs d"
  "dRestarts (sendEvent a b c e f d) = dRestarts d" "dStartTimes (sendEvent a b c e f d) = dStartTimes d"
  "dApps (sendEventWithRestarts g h i j k d) = dApps d" "dProcs (sendEventWithRestarts g h i j k d) = dProcs d"
  "dRestarts (sendEventWithRestarts g h i j k d) = dRestarts d"
  "dStartTimes (sendEventWithRestarts g h i j k d) = dStartTimes d"
  "dLive (sendEvent a b c e f d) = dLive d" "dLive (sendEventWithRestarts g h i j k d) = dLive d"
  "dNextProc (sendEvent a b c e f d) = dNextProc d" "dConn (sendEvent a b c e f d) = dConn d"
  "dProxy (sendEvent a b c e f d) = dProxy d" "dDiskOK (sendEvent a b c e f d) = dDiskOK d"
  "dCalls (sendEvent a b c e f d) = dCalls d" "dCalls (sendEventWithRestarts g h i j k d) = dCalls d"
  "dDockerStatus (sendEvent a b c e f d) = dDockerStatus d" "dDocker (sendEvent a b c e f d) = dDocker d"
  by (simp_all add: event_defs)

lemma crash_backoff:
  assumes "dApps d appID = Some app" "wantsRun (Some app)"
    and "crashCount now (dStartTimes d appID) (minUp app) (dRestarts d appID) \<le> maxR app"
    and "0 < maxR app"
  shows "crashes (handleUnexpectedExit now appID ec d) appID
      = crashCount now (dStartTimes d appID) (minUp app) (dRestarts d appID)
    \<and> pendingAt (handleUnexpectedExit now appID ec d) appID
      = Some (now + backoffDelay (crashCount now (dStartTimes d appID) (minUp app) (dRestarts d appID)) (boMax app))"
  using assms
  by (auto simp: handleUnexpectedExit_def Let_def crashes_def pendingAt_def split: prod.splits)

lemma crash_gives_up:
  assumes "dApps d appID = Some app" "wantsRun (Some app)" "0 < maxR app"
    and "maxR app < crashCount now (dStartTimes d appID) (minUp app) (dRestarts d appID)"
  shows "pendingAt (handleUnexpectedExit now appID ec d) appID = pendingAt d appID
    \<and> crashes (handleUnexpectedExit now appID ec d) appID
      = crashCount now (dStartTimes d appID) (minUp app) (dRestarts d appID)"
  using assms
  by (auto simp: handleUnexpectedExit_def Let_def crashes_def pendingAt_def split: prod.splits option.splits)

lemma handleUnexpectedExit_keeps [simp]:
  "dApps (handleUnexpectedExit now appID ec d) = dApps d"
  "dProcs (handleUnexpectedExit now appID ec d) = dProcs d"
  "dStartTimes (handleUnexpectedExit now appID ec d) = (dStartTimes d)(appID := None)"
  "dLive (handleUnexpectedExit now appID ec d) = dLive d"
  "dCalls (handleUnexpectedExit now appID ec d) = dCalls d"
  by (simp_all add: handleUnexpectedExit_def Let_def split: prod.splits)

lemma crashCount_unhealthy:
  "st = None \<Longrightarrow> crashCount now st mu (dRestarts d appID) = crashes d appID + 1"
  by (auto simp: crashCount_def crashes_def split: option.splits)

subsection \<open>A crash loop\<close>

text \<open>
  An application whose every restart fails to start: the timer fires, the start fails, and the
  failure is handled as a crash. \<open>fires\<close> is a sequence of such firings, each at or after the
  time the timer is due.
\<close>

definition startFails :: "hostReply \<Rightarrow> bool" where
  "startFails h = (isl (hrSpawn h) \<or> hrLog h \<noteq> None)"

fun fires :: "hostReply list \<Rightarrow> string \<Rightarrow> daemon \<Rightarrow> daemon" where
  "fires [] appID d = d"
| "fires (h # hs) appID d = fires hs appID (timerFires h appID d)"

fun firesDue :: "hostReply list \<Rightarrow> string \<Rightarrow> daemon \<Rightarrow> bool" where
  "firesDue [] appID d = True"
| "firesDue (h # hs) appID d =
     ((case pendingAt d appID of None \<Rightarrow> True | Some due \<Rightarrow> due \<le> hrNow h) \<and> startFails h
      \<and> firesDue hs appID (timerFires h appID d))"

text \<open>An application is crash-looping when it is wanted, not running and of process kind.\<close>

definition looping :: "daemon \<Rightarrow> string \<Rightarrow> AppState \<Rightarrow> bool" where
  "looping d appID app \<longleftrightarrow> dApps d appID = Some app \<and> wantsRun (Some app) \<and> dProcs d appID = None
     \<and> \<not> isDockerKind (defKind (asDefinition app)) \<and> dStartTimes d appID = None \<and> 0 < maxR app"

lemma startApp_fails:
  assumes "looping d appID app" "startFails h"
  shows "\<exists>e d'. startApp h appID d = (d', Some e) \<and> looping d' appID app \<and> dRestarts d' = dRestarts d"
  using assms
  by (cases "hrLog h")
    (auto simp: looping_def startApp_def procAlive_def wantsRun_def startFails_def launch_def StartProc_def
      Let_def split: option.splits sum.splits)

lemma fire_step:
  assumes "looping d appID app" "pendingAt d appID = Some due" "due \<le> hrNow h" "startFails h"
  shows "looping (timerFires h appID d) appID app
    \<and> crashes (timerFires h appID d) appID = crashes d appID + 1
    \<and> pendingAt (timerFires h appID d) appID =
        (if crashes d appID < maxR app
         then Some (hrNow h + backoffDelay (crashes d appID + 1) (boMax app)) else None)"
proof -
  obtain rs where rs: "dRestarts d appID = Some rs" "rsTimer rs = Some (TimerPending due)"
    using assms(2) by (auto simp: pendingAt_def split: option.splits timer.splits)
  define d1 where "d1 = d\<lparr>dRestarts := (dRestarts d)(appID \<mapsto> rs\<lparr>rsTimer := Some TimerFired\<rparr>)\<rparr>"
  have l1: "looping d1 appID app" using assms(1) by (simp add: looping_def d1_def)
  obtain e d2 where d2: "startApp h appID d1 = (d2, Some e)" "looping d2 appID app" "dRestarts d2 = dRestarts d1"
    using startApp_fails [OF l1 assms(4)] by blast
  have c: "crashes d2 appID = crashes d appID" and p: "pendingAt d2 appID = None"
    using rs by (simp_all add: crashes_def pendingAt_def d2(3) d1_def)
  have eq: "timerFires h appID d = handleUnexpectedExit (hrNow h) appID (- 1) d2"
    using rs assms(3) d2(1) l1 unfolding timerFires_def d1_def [symmetric]
    by (auto simp: d1_def [symmetric] Let_def looping_def)
  have cnt: "crashCount (hrNow h) (dStartTimes d2 appID) (minUp app) (dRestarts d2 appID) = crashes d appID + 1"
    using crashCount_unhealthy [of "dStartTimes d2 appID" "hrNow h" "minUp app" d2 appID] d2(2) c
    by (simp add: looping_def)
  have l2: "dApps d2 appID = Some app" "wantsRun (Some app)" "0 < maxR app"
    using d2(2) by (simp_all add: looping_def)
  have "looping (timerFires h appID d) appID app"
    using d2(2) by (simp add: eq looping_def)
  moreover have "crashes (timerFires h appID d) appID = crashes d appID + 1 \<and>
    pendingAt (timerFires h appID d) appID =
      (if crashes d appID < maxR app
       then Some (hrNow h + backoffDelay (crashes d appID + 1) (boMax app)) else None)"
    using crash_backoff [OF l2(1,2) _ l2(3), of "hrNow h" "- 1"]
      crash_gives_up [OF l2, of "hrNow h" "- 1"]
    by (auto simp: eq cnt p)
  ultimately show ?thesis by blast
qed

lemma fires_given_up: "pendingAt d appID = None \<Longrightarrow> fires hs appID d = d"
proof (induction hs)
  case (Cons h hs)
  have "timerFires h appID d = d"
    using Cons.prems by (auto simp: timerFires_def pendingAt_def split: option.splits timer.splits)
  with Cons show ?case by simp
qed simp

lemma fires_crash_loop:
  assumes "looping d appID app" "pendingAt d appID \<noteq> None" "firesDue hs appID d"
    and "crashes d appID \<le> maxR app" "maxR app \<le> crashes d appID + int (length hs) - 1"
  shows "pendingAt (fires hs appID d) appID = None \<and> crashes (fires hs appID d) appID = maxR app + 1"
  using assms
proof (induction hs arbitrary: d)
  case (Cons h hs)
  from Cons.prems(2) obtain due where due: "pendingAt d appID = Some due" by auto
  with Cons.prems(3) have "due \<le> hrNow h" "startFails h" by simp_all
  note step = fire_step [OF Cons.prems(1) due this]
  show ?case
  proof (cases "crashes d appID < maxR app")
    case True
    with step have "looping (timerFires h appID d) appID app"
      "pendingAt (timerFires h appID d) appID \<noteq> None" "crashes (timerFires h appID d) appID = crashes d appID + 1"
      by simp_all
    with Cons.IH [of "timerFires h appID d"] Cons.prems True show ?thesis by simp
  next
    case False
    with Cons.prems step have "pendingAt (timerFires h appID d) appID = None"
      "crashes (timerFires h appID d) appID = maxR app + 1" by auto
    with fires_given_up show ?thesis by simp
  qed
qed simp



subsection \<open>A stop wins\<close>

lemma stopApp_clears:
  "dProcs (fst (stopApp h appID d)) appID = None \<and> dRestarts (fst (stopApp h appID d)) appID = None"
  by (auto simp: stopApp_def stopDockerApp_def cancelRestart_def setDockerStatus_def Let_def
      split: option.split AppKind.split prod.split)


end
