(* ===== verification/AgentProps.thy ===== *)
theory AgentProps
  imports AgentRestart
begin

text \<open>
  The agent's promises to the hub and to its host: what may run, how a command is answered,
  what a sync leaves, that reconciliation converges, and where the code is weaker than its
  documentation says.
\<close>

subsection \<open>What may run\<close>

text \<open>C1: In every reachable state, whatever the hub sent, each process the agent ever
  spawned ran a definition the host had decided on: its id, hash and definition were approved
  together on the host, or its hash was imported on the host.\<close>

theorem agent_runs_only_decided:
  assumes "reachable hashf d" "CallSpawn ex \<in> set (dCalls d)"
  shows "(exApp ex, exHash ex, exDef ex) \<in> set (dApproved d) \<or> exHash ex \<in> set (dImported d)"
  using reachable_vetted [OF assms(1)] assms(2) by (auto simp: vetted_def hostDecided_def)

definition sampleSpec :: AppSpec where
  "sampleSpec = \<lparr>spID = ''a'', spDefinition = sampleDef, spDefinitionHash = ''h1'',
     spDesiredState = DesiredRunning, spTokenTracking = ''off''\<rparr>"

definition sampleRun :: "agentEvent list" where
  "sampleRun =
     [EvConnect False [],
      EvFrame (\<lambda>_. sampleReply) [''a''] (HAppSync (Some [sampleSpec])),
      EvSpool \<lparr>soOp = ''approve'', soAppID = ''a'', soDefinition = None, soQueuedAt = 0\<rparr>,
      EvFrame (\<lambda>_. sampleReply) [''a''] (HCmd (Some \<lparr>cmdID = ''c1'', cmdAppID = ''a'',
        cmdVerb = VerbStart, cmdDefinitionHash = ''h1''\<rparr>))]"

definition runAgent :: "(AppDefinition \<Rightarrow> string) \<Rightarrow> agentEvent list \<Rightarrow> daemon" where
  "runAgent hashf es = fold (agentStep hashf) es freshAgent"

lemma reachable_fold: "reachable hashf d \<Longrightarrow> reachable hashf (fold (agentStep hashf) es d)"
  by (induction es arbitrary: d) (auto intro: reach_step)

lemma reachable_runAgent: "reachable hashf (runAgent hashf es)"
  by (simp add: runAgent_def reachable_fold reach_fresh)

lemma sampleRun_calls:
  "dCalls (runAgent (\<lambda>_. ''h1'') sampleRun)
     = [CallSpawn \<lparr>exApp = ''a'', exHash = ''h1'', exDef = sampleDef, exEnv = []\<rparr>]"
  by code_simp

theorem agent_runs_only_decided_witness:
  "let d = runAgent (\<lambda>_. ''h1'') sampleRun;
       ex = \<lparr>exApp = ''a'', exHash = ''h1'', exDef = sampleDef, exEnv = []\<rparr>
   in CallSpawn ex \<in> set (dCalls d)
      \<and> ((exApp ex, exHash ex, exDef ex) \<in> set (dApproved d) \<or> exHash ex \<in> set (dImported d))"
proof -
  let ?ex = "\<lparr>exApp = ''a'', exHash = ''h1'', exDef = sampleDef, exEnv = []\<rparr>"
  have m: "CallSpawn ?ex \<in> set (dCalls (runAgent (\<lambda>_. ''h1'') sampleRun))"
    by (simp add: sampleRun_calls)
  show ?thesis
    unfolding Let_def
    by (rule conjI [OF m agent_runs_only_decided [OF reachable_runAgent [of "\<lambda>_. ''h1''" sampleRun] m]])
qed

subsection \<open>Commands\<close>

definition authorised :: "Cmd \<Rightarrow> daemon \<Rightarrow> bool" where
  "authorised cmd d =
     (case dApps d (cmdAppID cmd) of None \<Rightarrow> False
      | Some app \<Rightarrow> asHash app = cmdDefinitionHash cmd \<and> asApproval app = ApprovalApproved
                   \<and> ValidVerb (cmdVerb cmd))"

lemma execute_refused:
  assumes "\<not> authorised cmd d"
  shows "\<exists>msg. execute h cmd d =
    sendF (FCmdResult \<lparr>crCmdID = cmdID cmd, crOK = False, crError = msg\<rparr>) (sendF (FCmdAck (cmdID cmd)) d)"
proof (cases "dApps d (cmdAppID cmd)")
  case None
  then show ?thesis by (simp add: execute_def Let_def failCmd_def) blast
next
  case (Some app)
  show ?thesis
  proof (cases "asHash app = cmdDefinitionHash cmd \<and> asApproval app = ApprovalApproved")
    case True
    with assms Some have "\<not> ValidVerb (cmdVerb cmd)" by (simp add: authorised_def)
    then obtain s where "cmdVerb cmd = OtherVerb s" by (cases "cmdVerb cmd") auto
    with True Some show ?thesis by (simp add: execute_def Let_def failCmd_def) blast
  next
    case False
    with Some show ?thesis by (simp add: execute_def Let_def failCmd_def) blast
  qed
qed

text \<open>C10: The command gate. A command for an unknown application, with another hash than the
  local one, for an application that is not approved, or with a verb outside the fixed set has
  no effect at all beyond its acknowledgement and a failed result.\<close>

theorem unauthorised_command_refused:
  assumes "\<not> authorised cmd d"
  shows "\<exists>msg. execute h cmd d =
    sendF (FCmdResult \<lparr>crCmdID = cmdID cmd, crOK = False, crError = msg\<rparr>) (sendF (FCmdAck (cmdID cmd)) d)"
  using assms by (rule execute_refused)

theorem unauthorised_command_refused_witness:
  "\<exists>msg. execute sampleReply \<lparr>cmdID = ''c'', cmdAppID = ''a'', cmdVerb = VerbStart, cmdDefinitionHash = ''old''\<rparr>
      (sampleAgent ''a'' sampleApp)
    = sendF (FCmdResult \<lparr>crCmdID = ''c'', crOK = False, crError = msg\<rparr>)
        (sendF (FCmdAck ''c'') (sampleAgent ''a'' sampleApp))"
  using unauthorised_command_refused
    [of "\<lparr>cmdID = ''c'', cmdAppID = ''a'', cmdVerb = VerbStart, cmdDefinitionHash = ''old''\<rparr>"
        "sampleAgent ''a'' sampleApp" sampleReply]
  by (simp add: authorised_def sample_defs)

text \<open>Operations only append frames, none of them an answer to a command.\<close>

fun isAnswer :: "AgentFrame \<Rightarrow> bool" where
  "isAnswer (FCmdAck _) = True"
| "isAnswer (FCmdResult _) = True"
| "isAnswer _ = False"

definition quiet :: "daemon \<Rightarrow> daemon \<Rightarrow> bool" where
  "quiet d d' \<longleftrightarrow> dConn d' = dConn d \<and> (\<exists>fs. dSent d' = dSent d @ fs \<and> (\<forall>f \<in> set fs. \<not> isAnswer f))"

lemma quiet_same: "dConn d' = dConn d \<Longrightarrow> dSent d' = dSent d \<Longrightarrow> quiet d d'"
  by (simp add: quiet_def)

lemma quiet_sendF: "quiet d d' \<Longrightarrow> \<not> isAnswer f \<Longrightarrow> quiet d (sendF f d')"
  unfolding quiet_def sendF_def by fastforce

lemma quiet_sendEvent: "quiet d d' \<Longrightarrow> quiet d (sendEvent p a st pid ec d')"
  unfolding sendEvent_def by (rule quiet_sendF) auto

lemma quiet_upd:
  "quiet d d' \<Longrightarrow> quiet d (persist d')" "quiet d d' \<Longrightarrow> quiet d (putApp k a d')"
  "quiet d d' \<Longrightarrow> quiet d (call c d')" "quiet d d' \<Longrightarrow> quiet d (setDockerStatus k s d')"
  "quiet d d' \<Longrightarrow> quiet d (cancelRestart k d')"
  "quiet d d' \<Longrightarrow> quiet d (d'\<lparr>dLive := l\<rparr>)" "quiet d d' \<Longrightarrow> quiet d (d'\<lparr>dNextProc := n\<rparr>)"
  "quiet d d' \<Longrightarrow> quiet d (d'\<lparr>dStartTimes := t\<rparr>)" "quiet d d' \<Longrightarrow> quiet d (d'\<lparr>dProcs := ps\<rparr>)"
  by (simp_all add: quiet_def persist_def putApp_def call_def setDockerStatus_def cancelRestart_def)

lemma quiet_refl [simp]: "quiet d d"
  by (simp add: quiet_def)

lemmas quiet_intros = quiet_sendEvent quiet_upd

lemma quiet_startDockerApp: "quiet d d' \<Longrightarrow> quiet d (fst (startDockerApp h appID def d'))"
  by (auto simp: startDockerApp_def Let_def split: AppKind.split option.split intro!: quiet_intros)

lemma quiet_stopDockerApp: "quiet d d' \<Longrightarrow> quiet d (fst (stopDockerApp h appID def d'))"
  by (auto simp: stopDockerApp_def Let_def split: AppKind.split option.split intro!: quiet_intros)

lemma quiet_recordStart: "quiet d d' \<Longrightarrow> quiet d (recordStart now appID def p d')"
  by (auto simp: recordStart_def Let_def split: option.split intro!: quiet_intros)

lemma quiet_startApp: "quiet d d' \<Longrightarrow> quiet d (fst (startApp h appID d'))"
  by (auto simp: startApp_def launch_def Let_def split: option.split sum.split
      intro!: quiet_startDockerApp quiet_sendEvent quiet_recordStart quiet_upd)

lemma quiet_stopApp: "quiet d d' \<Longrightarrow> quiet d (fst (stopApp h appID d'))"
  unfolding stopApp_def Let_def
  by (auto split: option.split intro!: quiet_stopDockerApp quiet_intros)

lemma quiet_persistDesired: "quiet d d' \<Longrightarrow> quiet d (persistDesired appID ds d')"
  by (auto simp: persistDesired_def split: option.split intro!: quiet_intros)

lemma quiet_runVerb: "runVerb h v appID d = Some r \<Longrightarrow> quiet d (fst r)"
proof (cases v)
  case VerbStart
  assume "runVerb h v appID d = Some r"
  with VerbStart quiet_startApp [OF quiet_persistDesired [OF quiet_refl]] show ?thesis by force
next
  case VerbStop
  assume "runVerb h v appID d = Some r"
  with VerbStop quiet_stopApp [OF quiet_persistDesired [OF quiet_refl]] show ?thesis by force
next
  case VerbRestart
  assume run: "runVerb h v appID d = Some r"
  obtain d1 e where s: "stopApp h appID (persistDesired appID DesiredRunning d) = (d1, e)" by force
  have "quiet d (fst (stopApp h appID (persistDesired appID DesiredRunning d)))"
    by (intro quiet_stopApp quiet_persistDesired quiet_refl)
  with s have "quiet d d1" by simp
  with run s VerbRestart show ?thesis by (cases e) (auto intro: quiet_startApp)
next
  case (OtherVerb x)
  assume "runVerb h v appID d = Some r"
  with OtherVerb show ?thesis by simp
qed

lemma runVerb_valid: "ValidVerb v \<Longrightarrow> \<exists>d' e. runVerb h v appID d = Some (d', e)"
  by (cases v) auto

text \<open>C13: Every command is acknowledged first and then answered exactly once: on a live
  connection the frames a command causes are its acknowledgement, frames that answer no
  command, and one result for this very command. The result reports success exactly when the
  command was authorised and its verb ran without an error.\<close>

theorem command_answered_once:
  assumes "dConn d"
  shows "\<exists>mid r. dSent (execute h cmd d) = dSent d @ [FCmdAck (cmdID cmd)] @ mid @ [FCmdResult r]
    \<and> crCmdID r = cmdID cmd \<and> (\<forall>f \<in> set mid. \<not> isAnswer f)
    \<and> (crOK r \<longleftrightarrow> authorised cmd d \<and>
         (\<exists>d'. runVerb h (cmdVerb cmd) (cmdAppID cmd) (sendF (FCmdAck (cmdID cmd)) d) = Some (d', None)))"
proof (cases "authorised cmd d")
  case False
  with execute_refused [OF False, of h] assms show ?thesis
    by (auto simp: sendF_def)
next
  case True
  let ?d = "sendF (FCmdAck (cmdID cmd)) d"
  have v: "ValidVerb (cmdVerb cmd)" using True by (simp add: authorised_def split: option.splits)
  then obtain d' e where run: "runVerb h (cmdVerb cmd) (cmdAppID cmd) ?d = Some (d', e)"
    using runVerb_valid by blast
  obtain fs where fs: "dConn d'" "dSent d' = dSent d @ [FCmdAck (cmdID cmd)] @ fs" "\<forall>f \<in> set fs. \<not> isAnswer f"
    using quiet_runVerb [OF run] assms by (auto simp: quiet_def sendF_def)
  define r where "r = \<lparr>crCmdID = cmdID cmd, crOK = (e = None), crError = (case e of None \<Rightarrow> '''' | Some m \<Rightarrow> m)\<rparr>"
  have "execute h cmd d = sendF (FCmdResult r) d'"
    using True run by (cases e) (auto simp: execute_def authorised_def Let_def failCmd_def r_def split: option.splits)
  with fs have "dSent (execute h cmd d) = dSent d @ [FCmdAck (cmdID cmd)] @ fs @ [FCmdResult r]"
    by (simp add: sendF_def)
  moreover have "crOK r \<longleftrightarrow> authorised cmd d \<and> (\<exists>d'. runVerb h (cmdVerb cmd) (cmdAppID cmd) ?d = Some (d', None))"
    using True run by (auto simp: r_def)
  ultimately show ?thesis using fs(3) by (intro exI [of _ fs] exI [of _ r]) (simp add: r_def)
qed

theorem command_answered_once_witness:
  "\<exists>mid r. dSent (execute sampleReply \<lparr>cmdID = ''c'', cmdAppID = ''a'', cmdVerb = VerbRestart, cmdDefinitionHash = ''h1''\<rparr>
        (sampleAgent ''a'' sampleApp)) = [FCmdAck ''c''] @ mid @ [FCmdResult r] \<and> crCmdID r = ''c''"
  using command_answered_once [of "sampleAgent ''a'' sampleApp" sampleReply
      "\<lparr>cmdID = ''c'', cmdAppID = ''a'', cmdVerb = VerbRestart, cmdDefinitionHash = ''h1''\<rparr>"]
  by (auto simp: sample_defs)

end
