(* ===== verification/AgentSync.thy ===== *)
theory AgentSync
  imports AgentProps
begin

text \<open>
  The agent follows the hub: the effect of a full-state sync, its idempotence, the supervision
  invariant (which process belongs to which application), and the convergence of the actual
  state to the desired one by reconciliation.
\<close>

subsection \<open>One entry of the sync\<close>

lemma applySpec_other:
  "appID \<noteq> spID spec \<Longrightarrow> dApps (fst (applySpec spec s)) appID = dApps (fst s) appID"
  by (cases s) (auto simp: applySpec_def installSpec_def Let_def split: option.splits)

lemma applySpec_pre: "set (dPreApproved (fst (applySpec spec s))) \<subseteq> set (dPreApproved (fst s))"
  by (cases s)
    (auto simp: applySpec_def installSpec_def Let_def split: option.splits
      dest: set_remove1_subset [THEN subsetD])

definition follows :: "AppState option \<Rightarrow> string set \<Rightarrow> AppSpec \<Rightarrow> AppState \<Rightarrow> bool" where
  "follows old pre spec app \<longleftrightarrow>
     asHash app = spDefinitionHash spec \<and> asDesiredState app = spDesiredState spec
     \<and> asTokenTracking app = spTokenTracking spec
     \<and> (case old of
          Some loc \<Rightarrow> if asHash loc = spDefinitionHash spec
            then asDefinition app = asDefinition loc \<and> asApproval app = asApproval loc
            else asDefinition app = spDefinition spec \<and> asApproval app \<in> {ApprovalPending, ApprovalApproved}
        | None \<Rightarrow> asDefinition app = spDefinition spec \<and> asApproval app \<in> {ApprovalPending, ApprovalApproved})
     \<and> (asApproval app = ApprovalApproved \<longrightarrow>
          (\<exists>loc. old = Some loc \<and> asHash loc = asHash app \<and> asApproval loc = ApprovalApproved)
          \<or> isDockerKind (defKind (asDefinition app)) \<or> asHash app \<in> pre)"

lemma applySpec_self:
  "\<exists>app. dApps (fst (applySpec spec s)) (spID spec) = Some app
     \<and> follows (dApps (fst s) (spID spec)) (set (dPreApproved (fst s))) spec app"
proof (cases "dApps (fst s) (spID spec)")
  case None
  then show ?thesis
    by (cases s) (auto simp: applySpec_def installSpec_def newApproval_def Let_def follows_def)
next
  case (Some loc)
  then show ?thesis
    by (cases s; cases "asHash loc = spDefinitionHash spec")
      (auto simp: applySpec_def installSpec_def newApproval_def Let_def follows_def)
qed

lemma follows_mono: "follows old pre spec app \<Longrightarrow> pre \<subseteq> pre' \<Longrightarrow> follows old pre' spec app"
  by (auto simp: follows_def)

lemma fold_specs_other:
  "appID \<notin> spID ` set specs \<Longrightarrow> dApps (fst (fold applySpec specs s)) appID = dApps (fst s) appID"
  by (induction specs arbitrary: s) (auto simp: applySpec_other)

lemma fold_specs_pre: "set (dPreApproved (fst (fold applySpec specs s))) \<subseteq> set (dPreApproved (fst s))"
proof (induction specs arbitrary: s)
  case (Cons spec specs)
  from Cons.IH [of "applySpec spec s"] applySpec_pre [of spec s] show ?case by simp
qed simp

lemma fold_specs_self:
  assumes "distinct (map spID specs)" "spec \<in> set specs"
  shows "\<exists>app. dApps (fst (fold applySpec specs s)) (spID spec) = Some app
     \<and> follows (dApps (fst s) (spID spec)) (set (dPreApproved (fst s))) spec app"
  using assms
proof (induction specs arbitrary: s)
  case (Cons sp specs)
  show ?case
  proof (cases "spec = sp")
    case True
    with Cons.prems applySpec_self [of sp s] show ?thesis by (simp add: fold_specs_other)
  next
    case False
    with Cons.prems have mem: "spec \<in> set specs" by simp
    with Cons.prems(1) have ne: "spID spec \<noteq> spID sp" by (metis distinct.simps(2) image_eqI list.map(2) set_map)
    then obtain app where "dApps (fst (fold applySpec specs (applySpec sp s))) (spID spec) = Some app"
      "follows (dApps (fst (applySpec sp s)) (spID spec)) (set (dPreApproved (fst (applySpec sp s)))) spec app"
      using Cons.IH [of "applySpec sp s"] Cons.prems(1) mem by auto
    with ne follows_mono [OF _ applySpec_pre [of sp s]] show ?thesis
      by (auto simp: applySpec_other)
  qed
qed simp

subsection \<open>The whole sync\<close>

lemma removeApp_apps [simp]: "dApps (removeApp appID d) = (dApps d)(appID := None)"
  by (auto simp: removeApp_def Let_def split: option.splits)

lemma fold_removeApp_apps: "dApps (fold removeApp xs d) i = (if i \<in> set xs then None else dApps d i)"
  by (induction xs arbitrary: d) auto

lemma applyAppSync_apps:
  "dApps (applyAppSync order specs d) i =
     (if i \<in> set order \<and> i \<notin> spID ` set specs then None
      else dApps (fst (fold applySpec specs (d, False))) i)"
  by (auto simp: applyAppSync_def Let_def fold_removeApp_apps filter_empty_conv split: prod.splits)

lemma sync_installs:
  assumes "distinct (map spID specs)" "dom (dApps d) \<subseteq> set order"
  shows "dom (dApps (applyAppSync order specs d)) = spID ` set specs
    \<and> (\<forall>spec \<in> set specs. \<exists>app. dApps (applyAppSync order specs d) (spID spec) = Some app
         \<and> follows (dApps d (spID spec)) (set (dPreApproved d)) spec app)"
proof
  show "\<forall>spec \<in> set specs. \<exists>app. dApps (applyAppSync order specs d) (spID spec) = Some app
      \<and> follows (dApps d (spID spec)) (set (dPreApproved d)) spec app"
    using fold_specs_self [OF assms(1), of _ "(d, False)"] by (auto simp: applyAppSync_apps)
  then have "spID ` set specs \<subseteq> dom (dApps (applyAppSync order specs d))" by fastforce
  moreover have "i \<in> spID ` set specs" if "dApps (applyAppSync order specs d) i \<noteq> None" for i
  proof (rule ccontr)
    assume "i \<notin> spID ` set specs"
    with that assms(2) fold_specs_other [of i specs "(d, False)"] show False
      by (auto simp: applyAppSync_apps split: if_splits)
  qed
  ultimately show "dom (dApps (applyAppSync order specs d)) = spID ` set specs" by blast
qed

text \<open>C4: A sync makes the hub authoritative for what exists and what is desired, and the host
  for what is approved. Afterwards the agent knows exactly the listed applications, each with
  the hub's hash, desired state and tracking mode; an unchanged hash keeps the local
  definition and approval, a changed one takes the hub's definition and is approved only for
  container kinds or for a hash imported on this host, and is pending otherwise.\<close>

theorem sync_follows_hub:
  assumes "distinct (map spID specs)" "dom (dApps d) \<subseteq> set order"
  shows "dom (dApps (applyAppSync order specs d)) = spID ` set specs
    \<and> (\<forall>spec \<in> set specs. \<exists>app. dApps (applyAppSync order specs d) (spID spec) = Some app
         \<and> follows (dApps d (spID spec)) (set (dPreApproved d)) spec app)"
  using sync_installs [OF assms] .

theorem sync_follows_hub_witness:
  "dom (dApps (applyAppSync [''b''] [sampleSpec] (sampleAgent ''b'' sampleApp))) = {''a''}"
proof -
  have "distinct (map spID [sampleSpec])" "dom (dApps (sampleAgent ''b'' sampleApp)) \<subseteq> set [''b'']"
    by (simp_all add: sampleAgent_def)
  from sync_follows_hub [OF this] show ?thesis by (simp add: sampleSpec_def)
qed

subsection \<open>Idempotence\<close>

lemma applySpec_settled:
  "dApps d (spID spec) = Some app \<Longrightarrow> asHash app = spDefinitionHash spec \<Longrightarrow>
   asDesiredState app = spDesiredState spec \<Longrightarrow> asTokenTracking app = spTokenTracking spec \<Longrightarrow>
   applySpec spec (d, b) = (d, b)"
  by (simp add: applySpec_def)

lemma fold_specs_settled:
  assumes "\<forall>spec \<in> set specs. \<exists>app. dApps d (spID spec) = Some app \<and> asHash app = spDefinitionHash spec
     \<and> asDesiredState app = spDesiredState spec \<and> asTokenTracking app = spTokenTracking spec"
  shows "fold applySpec specs (d, b) = (d, b)"
  using assms by (induction specs) (auto simp: applySpec_settled)

text \<open>The sync is idempotent: receiving the same full state again changes nothing at all,
  sends no frame and writes no file.\<close>

theorem sync_idempotent:
  assumes "distinct (map spID specs)" "dom (dApps d) \<subseteq> set order"
  defines "d' \<equiv> applyAppSync order specs d"
  shows "applyAppSync order' specs d' = d'"
proof -
  have dom: "dom (dApps d') = spID ` set specs"
    and each: "\<forall>spec \<in> set specs. \<exists>app. dApps d' (spID spec) = Some app
      \<and> follows (dApps d (spID spec)) (set (dPreApproved d)) spec app"
    using sync_installs [OF assms(1,2)] by (simp_all add: d'_def)
  have "fold applySpec specs (d', False) = (d', False)"
    using each by (intro fold_specs_settled) (fastforce simp: follows_def)
  moreover have "filter (\<lambda>i. dApps d' i \<noteq> None \<and> i \<notin> spID ` set specs) order' = []"
    using dom by (auto simp: filter_empty_conv)
  ultimately show ?thesis by (simp add: applyAppSync_def)
qed

theorem sync_idempotent_witness:
  "let d' = applyAppSync [''b''] [sampleSpec] (sampleAgent ''b'' sampleApp)
   in applyAppSync [''a''] [sampleSpec] d' = d'"
  using sync_idempotent [of "[sampleSpec]" "sampleAgent ''b'' sampleApp" "[''b'']" "[''a'']"]
  by (auto simp: sample_defs Let_def)

subsection \<open>Supervision\<close>

definition supervised :: "daemon \<Rightarrow> bool" where
  "supervised d \<longleftrightarrow>
     (\<forall>i p. dProcs d i = Some p \<longrightarrow> prID p < dNextProc d)
     \<and> (\<forall>i j p q. dProcs d i = Some p \<longrightarrow> dProcs d j = Some q \<longrightarrow> prID p = prID q \<longrightarrow> i = j)
     \<and> (\<forall>u. dLive d u \<longrightarrow> u < dNextProc d)"

lemma supervised_cong:
  "dProcs d' = dProcs d \<Longrightarrow> dNextProc d' = dNextProc d \<Longrightarrow> dLive d' = dLive d \<Longrightarrow> supervised d \<Longrightarrow> supervised d'"
  by (simp add: supervised_def)

lemma supervised_drop:
  "supervised d \<Longrightarrow> dProcs d' = (dProcs d)(k := None) \<Longrightarrow> dNextProc d' = dNextProc d \<Longrightarrow>
   (\<And>u. dLive d' u \<Longrightarrow> dLive d u) \<Longrightarrow> supervised d'"
  unfolding supervised_def by (auto split: if_splits; blast)

lemma supervised_new:
  assumes "supervised d" "dProcs d' = (dProcs d)(k \<mapsto> p)" "prID p = dNextProc d"
    "dNextProc d' = Suc (dNextProc d)" "dLive d' = (dLive d)(prID p := True)"
  shows "supervised d'"
  using assms unfolding supervised_def
  by (auto simp: less_Suc_eq split: if_splits) (metis less_irrefl_nat)+

lemma startDockerApp_procs [simp]:
  "dProcs (fst (startDockerApp h k def d)) = dProcs d" "dLive (fst (startDockerApp h k def d)) = dLive d"
  "dNextProc (fst (startDockerApp h k def d)) = dNextProc d" "dApps (fst (startDockerApp h k def d)) = dApps d"
  "dRestarts (fst (startDockerApp h k def d)) = dRestarts d"
  "i \<noteq> k \<Longrightarrow> dDockerStatus (fst (startDockerApp h k def d)) i = dDockerStatus d i"
  by (auto simp: startDockerApp_def setDockerStatus_def Let_def split: AppKind.split option.split)

lemma stopDockerApp_procs [simp]:
  "dProcs (fst (stopDockerApp h k def d)) = dProcs d" "dLive (fst (stopDockerApp h k def d)) = dLive d"
  "dNextProc (fst (stopDockerApp h k def d)) = dNextProc d" "dApps (fst (stopDockerApp h k def d)) = dApps d"
  "dRestarts (fst (stopDockerApp h k def d)) = dRestarts d"
  "i \<noteq> k \<Longrightarrow> dDockerStatus (fst (stopDockerApp h k def d)) i = dDockerStatus d i"
  by (auto simp: stopDockerApp_def setDockerStatus_def Let_def split: AppKind.split option.split)

lemma recordStart_fields [simp]:
  "dProcs (recordStart now k def p d) = (dProcs d)(k \<mapsto> p)" "dLive (recordStart now k def p d) = dLive d"
  "dNextProc (recordStart now k def p d) = dNextProc d" "dRestarts (recordStart now k def p d) = dRestarts d"
  "dDockerStatus (recordStart now k def p d) = dDockerStatus d"
  "i \<noteq> k \<Longrightarrow> dApps (recordStart now k def p d) i = dApps d i"
  by (auto simp: recordStart_def Let_def split: option.split)

text \<open>What a start does to the process table: nothing, or one fresh, live process.\<close>

lemma startApp_cases:
  defines "d' \<equiv> \<lambda>h k d. fst (startApp h k d)"
  shows "(dProcs (d' h k d) = dProcs d \<and> dLive (d' h k d) = dLive d \<and> dNextProc (d' h k d) = dNextProc d)
    \<or> (\<exists>p. dProcs (d' h k d) = (dProcs d)(k \<mapsto> p) \<and> prID p = dNextProc d
         \<and> dLive (d' h k d) = (dLive d)(prID p := True) \<and> dNextProc (d' h k d) = Suc (dNextProc d))"
  unfolding d'_def
  by (auto simp: startApp_def launch_def StartProc_def Let_def split: option.split sum.split)

lemma supervised_startApp:
  assumes "supervised d"
  shows "supervised (fst (startApp h k d))"
  using startApp_cases [of h k d]
proof
  assume "dProcs (fst (startApp h k d)) = dProcs d \<and> dLive (fst (startApp h k d)) = dLive d
    \<and> dNextProc (fst (startApp h k d)) = dNextProc d"
  with assms show ?thesis by (auto intro: supervised_cong)
next
  assume "\<exists>p. dProcs (fst (startApp h k d)) = (dProcs d)(k \<mapsto> p) \<and> prID p = dNextProc d
    \<and> dLive (fst (startApp h k d)) = (dLive d)(prID p := True)
    \<and> dNextProc (fst (startApp h k d)) = Suc (dNextProc d)"
  with assms show ?thesis by (auto intro: supervised_new)
qed

lemma stopApp_procs:
  "dProcs (fst (stopApp h k d)) = (dProcs d)(k := None)"
  "dNextProc (fst (stopApp h k d)) = dNextProc d"
  "dLive (fst (stopApp h k d)) u \<Longrightarrow> dLive d u"
  "i \<noteq> k \<Longrightarrow> dApps (fst (stopApp h k d)) i = dApps d i"
  "i \<noteq> k \<Longrightarrow> dDockerStatus (fst (stopApp h k d)) i = dDockerStatus d i"
  by (auto simp: stopApp_def cancelRestart_def Let_def split: option.splits if_splits)

lemma supervised_stopApp: "supervised d \<Longrightarrow> supervised (fst (stopApp h k d))"
  by (rule supervised_drop [of d _ k]) (auto simp: stopApp_procs(1,2) dest: stopApp_procs(3))

lemma supervised_handleUnexpectedExit:
  "supervised d \<Longrightarrow> supervised (handleUnexpectedExit now k ec d)"
  by (rule supervised_cong [of _ d])
    (simp_all add: handleUnexpectedExit_def sendEventWithRestarts_def Let_def split: prod.splits)

lemma supervised_timerFires: "supervised d \<Longrightarrow> supervised (timerFires h k d)"
  by (rule timerFires_keeps)
    (auto intro: supervised_startApp supervised_handleUnexpectedExit, auto simp: supervised_def)

lemma supervised_procExited:
  assumes "supervised d"
  shows "supervised (procExited now uid k ec l d)"
proof -
  let ?d1 = "d\<lparr>dLive := (dLive d)(uid := dLive d uid \<and> l)\<rparr>"
  have "supervised ?d1" using assms by (auto simp: supervised_def)
  moreover from this have "supervised (?d1\<lparr>dProcs := (dProcs ?d1)(k := None)\<rparr>)"
    by (rule supervised_drop [of _ _ k]) simp_all
  ultimately show ?thesis
    by (auto simp: procExited_def Let_def split: option.split intro: supervised_handleUnexpectedExit)
qed

lemma applySpec_procs:
  "dProcs (fst (applySpec spec s)) = dProcs (fst s)" "dLive (fst (applySpec spec s)) = dLive (fst s)"
  "dNextProc (fst (applySpec spec s)) = dNextProc (fst s)"
  by (cases s, simp add: applySpec_def installSpec_def Let_def split: option.split)+

lemma supervised_applySpec: "supervised (fst s) \<Longrightarrow> supervised (fst (applySpec spec s))"
  by (rule supervised_cong) (simp_all add: applySpec_procs)

lemma supervised_fold_specs: "supervised (fst s) \<Longrightarrow> supervised (fst (fold applySpec specs s))"
  by (induction specs arbitrary: s) (simp_all add: supervised_applySpec)

lemma supervised_removeApp: "supervised d \<Longrightarrow> supervised (removeApp k d)"
  by (rule supervised_drop [of d _ k]) (auto simp: removeApp_def Let_def split: option.splits)

lemma supervised_fold: "(\<And>x d. supervised d \<Longrightarrow> supervised (f x d)) \<Longrightarrow> supervised d \<Longrightarrow> supervised (fold f xs d)"
  by (induction xs arbitrary: d) auto

lemma supervised_persist: "supervised (persist d) = supervised d"
  by (simp add: supervised_def)

lemma supervised_applyAppSync: "supervised d \<Longrightarrow> supervised (applyAppSync order specs d)"
  using supervised_fold_specs [of "(d, False)" specs]
  by (auto simp: applyAppSync_def Let_def supervised_persist split: prod.splits
      intro!: supervised_fold supervised_removeApp)

lemma supervised_persistDesired: "supervised d \<Longrightarrow> supervised (persistDesired k ds d)"
  by (auto simp: persistDesired_def split: option.split intro!: supervised_cong [of _ d])

lemma supervised_runVerb: "supervised d \<Longrightarrow> runVerb h v k d = Some r \<Longrightarrow> supervised (fst r)"
  using supervised_stopApp [OF supervised_persistDesired, of d h k k DesiredRunning]
  by (cases v)
    (auto intro!: supervised_startApp supervised_stopApp supervised_persistDesired
      split: prod.splits option.splits)

lemma supervised_sendF: "supervised (sendF f d) = supervised d"
  by (simp add: supervised_def)

lemma supervised_execute: "supervised d \<Longrightarrow> supervised (execute h cmd d)"
  using supervised_runVerb [of "sendF (FCmdAck (cmdID cmd)) d" h "cmdVerb cmd" "cmdAppID cmd"]
  by (fastforce simp: execute_def failCmd_def supervised_sendF Let_def split: option.split prod.split)

lemma supervised_reconcile: "supervised d \<Longrightarrow> supervised (reconcile hs order d)"
  by (auto simp: reconcile_def act_def intro!: supervised_fold supervised_startApp supervised_stopApp)

lemma supervised_agentStep: "supervised d \<Longrightarrow> supervised (agentStep hashf e d)"
proof (cases e)
  case (EvFrame hs order f)
  assume s: "supervised d"
  have "supervised (handleFrame hs order f d)"
    using s by (induction hs order f d rule: handleFrame.induct)
      (auto intro: supervised_reconcile supervised_applyAppSync supervised_execute)
  with EvFrame show ?thesis by simp
next
  case (EvSpool op)
  assume "supervised d"
  with EvSpool show ?thesis
    by (auto simp: applySpoolOp_def setApproval_def supervised_sendF supervised_persist split: option.split
        intro: supervised_cong [of _ d])
next
  case (EvPoll engine order)
  assume "supervised d"
  moreover have "supervised d' \<Longrightarrow> supervised (pollApp engine t d')" for t d'
    by (rule supervised_cong [of _ d']) (simp_all add: pollApp_def setDockerStatus_def Let_def split: prod.splits)
  ultimately show ?thesis using EvPoll by (auto simp: pollDockerApps_def intro: supervised_fold)
next
  case (EvReboot docker hs o1 o2)
  assume "supervised d"
  then have "supervised (newDaemon docker d)" by (simp add: supervised_def newDaemon_def)
  moreover have "supervised d' \<Longrightarrow> supervised (clearReaped k d')" for k d'
    by (rule supervised_cong [of _ d']) (auto simp: clearReaped_def split: option.split)
  moreover have "supervised d' \<Longrightarrow> supervised (resurrect hs k d')" for k d'
    by (auto simp: resurrect_def intro: supervised_startApp)
  ultimately show ?thesis
    using EvReboot by (auto simp: bootRun_def supervised_persist intro!: supervised_fold)
qed (auto simp: sendHello_def Let_def supervised_sendF intro: supervised_procExited supervised_timerFires
    supervised_cong [of _ d])

lemma reachable_supervised: "reachable hashf d \<Longrightarrow> supervised d"
proof (induction rule: reachable.induct)
  case reach_fresh
  show ?case by (simp add: supervised_def freshAgent_def)
qed (rule supervised_agentStep)

subsection \<open>Reconciliation converges\<close>

text \<open>
  What an action leaves of another application, and what it achieves for its own. \<open>untouched\<close>
  is everything reconciliation reads about application \<open>i\<close>.
\<close>

definition untouched :: "string \<Rightarrow> daemon \<Rightarrow> daemon \<Rightarrow> bool" where
  "untouched i d d' \<longleftrightarrow> dApps d' i = dApps d i \<and> dProcs d' i = dProcs d i
     \<and> procAlive d' i = procAlive d i \<and> dDockerStatus d' i = dDockerStatus d i"

lemma startApp_other:
  assumes "supervised d" "i \<noteq> k"
  shows "untouched i d (fst (startApp h k d))"
proof -
  have "dApps (fst (startApp h k d)) i = dApps d i"
    "dDockerStatus (fst (startApp h k d)) i = dDockerStatus d i"
    using assms(2)
    by (auto simp: startApp_def launch_def Let_def split: option.split sum.split)
  moreover have "procAlive (fst (startApp h k d)) i = procAlive d i \<and> dProcs (fst (startApp h k d)) i = dProcs d i"
    using startApp_cases [of h k d] assms
    by (auto simp: procAlive_def supervised_def split: option.split) (metis less_irrefl_nat)+
  ultimately show ?thesis by (simp add: untouched_def)
qed

lemma stopApp_live:
  "dLive (fst (stopApp h k d)) u = dLive d u \<or> (\<exists>p. dProcs d k = Some p \<and> prID p = u)"
  by (auto simp: stopApp_def cancelRestart_def Let_def split: option.split)

lemma stopApp_other:
  assumes "supervised d" "i \<noteq> k"
  shows "untouched i d (fst (stopApp h k d))"
proof -
  have "procAlive (fst (stopApp h k d)) i = procAlive d i"
  proof (cases "dProcs d i")
    case (Some p)
    with assms stopApp_live [of h k d "prID p"] show ?thesis
      by (auto simp: procAlive_def stopApp_procs supervised_def)
  qed (simp add: procAlive_def stopApp_procs assms(2))
  with assms(2) show ?thesis by (simp add: untouched_def stopApp_procs)
qed

lemma untouched_trans: "untouched i a b \<Longrightarrow> untouched i b c \<Longrightarrow> untouched i a c"
  by (simp add: untouched_def)

lemma act_other: "supervised d \<Longrightarrow> i \<noteq> fst a \<Longrightarrow> untouched i d (act hs a d)"
  by (simp add: act_def startApp_other stopApp_other)

lemma supervised_act: "supervised d \<Longrightarrow> supervised (act hs a d)"
  by (simp add: act_def supervised_startApp supervised_stopApp)

text \<open>A host that answers every request with success.\<close>

definition obliging :: "hostReply \<Rightarrow> bool" where
  "obliging h \<longleftrightarrow> hrLog h = None \<and> \<not> isl (hrSpawn h) \<and> hrStop h = None \<and> hrDockerStart h = None
     \<and> hrDockerStop h = None \<and> hrComposeStart h = None \<and> hrComposeStop h = None"

text \<open>An application that can be started here: a command, or a container engine.\<close>

definition startable :: "daemon \<Rightarrow> AppState \<Rightarrow> bool" where
  "startable d app \<longleftrightarrow>
     (if isDockerKind (defKind (asDefinition app)) then dDocker d else defCmd (asDefinition app) \<noteq> [])"

text \<open>\<open>settled\<close>: the actual state of the application is the desired one.\<close>

definition settled :: "daemon \<Rightarrow> string \<Rightarrow> bool" where
  "settled d i \<longleftrightarrow> (\<forall>app. dApps d i = Some app \<longrightarrow>
     (asDesiredState app = DesiredRunning \<longrightarrow> appAlive d i app)
     \<and> (asDesiredState app = DesiredStopped \<longrightarrow> \<not> appAlive d i app))"

lemma settled_untouched: "untouched i d d' \<Longrightarrow> settled d' i = settled d i"
  by (simp add: settled_def untouched_def appAlive_def dockerAlive_def)

lemma startApp_self:
  assumes "dApps d k = Some app" "asApproval app = ApprovalApproved" "asDesiredState app = DesiredRunning"
    "\<not> appAlive d k app" "obliging h" "startable d app"
    "isDockerKind (defKind (asDefinition app)) \<Longrightarrow> dProcs d k = None"
  shows "settled (fst (startApp h k d)) k"
proof (cases "isDockerKind (defKind (asDefinition app))")
  case True
  with assms have "startApp h k d = startDockerApp h k (asDefinition app) d"
    by (simp add: startApp_def procAlive_def)
  moreover have "dDockerStatus (fst (startDockerApp h k (asDefinition app) d)) k = Some StatusRunning"
    using assms True by (auto simp: startDockerApp_def setDockerStatus_def startable_def obliging_def
        isDockerKind_def Let_def)
  ultimately show ?thesis
    using assms True by (simp add: settled_def appAlive_def dockerAlive_def)
next
  case False
  with assms obtain pid where "hrSpawn h = Inr pid" by (cases "hrSpawn h") (auto simp: obliging_def)
  with assms False show ?thesis
    by (auto simp: startApp_def launch_def StartProc_def Let_def settled_def appAlive_def procAlive_def
        obliging_def startable_def recordStart_def)
qed

lemma stopApp_self:
  assumes "dApps d k = Some app" "asDesiredState app = DesiredStopped" "obliging h" "startable d app"
  shows "settled (fst (stopApp h k d)) k"
proof (cases "isDockerKind (defKind (asDefinition app))")
  case True
  with assms have "dDockerStatus (fst (stopApp h k d)) k = Some StatusStopped"
    "dApps (fst (stopApp h k d)) k = Some app"
    by (auto simp: stopApp_def stopDockerApp_def setDockerStatus_def cancelRestart_def startable_def
        obliging_def isDockerKind_def Let_def)
  with True assms(2) show ?thesis by (simp add: settled_def appAlive_def dockerAlive_def)
next
  case False
  then have "\<exists>app'. dApps (fst (stopApp h k d)) k = Some app' \<and> asDesiredState app' = DesiredStopped
      \<and> asDefinition app' = asDefinition app"
    using assms by (auto simp: stopApp_def cancelRestart_def Let_def split: option.split)
  with False show ?thesis by (auto simp: settled_def appAlive_def procAlive_def stopApp_procs)
qed

text \<open>The applications reconciliation is responsible for.\<close>

definition inCharge :: "daemon \<Rightarrow> string \<Rightarrow> bool" where
  "inCharge d i \<longleftrightarrow> (\<exists>app. dApps d i = Some app \<and> asApproval app = ApprovalApproved \<and> startable d app
     \<and> (isDockerKind (defKind (asDefinition app)) \<longrightarrow> dProcs d i = None)
     \<and> (asDesiredState app = DesiredRunning \<longrightarrow> appAlive d i app \<or> \<not> timerArmed d i))"

lemma decide_None_settled: "inCharge d i \<Longrightarrow> decide d i = None \<Longrightarrow> settled d i"
  by (auto simp: inCharge_def decide_def settled_def split: if_splits)

lemma startApp_docker [simp]: "dDocker (fst (startApp h k d)) = dDocker d"
  by (auto simp: startApp_def startDockerApp_def launch_def recordStart_def setDockerStatus_def Let_def
      split: option.split sum.split AppKind.split)

lemma stopApp_docker [simp]: "dDocker (fst (stopApp h k d)) = dDocker d"
  by (auto simp: stopApp_def stopDockerApp_def setDockerStatus_def cancelRestart_def Let_def
      split: option.split AppKind.split prod.split)

lemma act_docker: "dDocker (act hs a d) = dDocker d"
  by (simp add: act_def)

lemma act_self:
  assumes "inCharge d0 i" "decide d0 i = Some b" "untouched i d0 d" "dDocker d = dDocker d0" "\<And>k. obliging (hs k)"
  shows "settled (act hs (i, b) d) i"
proof -
  obtain app where a0: "dApps d0 i = Some app" "asApproval app = ApprovalApproved" "startable d0 app"
    "isDockerKind (defKind (asDefinition app)) \<longrightarrow> dProcs d0 i = None"
    using assms(1) unfolding inCharge_def by blast
  have app: "dApps d i = Some app" "asApproval app = ApprovalApproved" "startable d app"
    "isDockerKind (defKind (asDefinition app)) \<Longrightarrow> dProcs d i = None" "dApps d0 i = Some app"
    using a0 assms(3,4) by (simp_all add: untouched_def startable_def)
  have alive: "appAlive d i app = appAlive d0 i app"
    using assms(3) by (simp add: untouched_def appAlive_def dockerAlive_def)
  show ?thesis
  proof (cases b)
    case True
    with assms(2) app(2,5) alive have "asDesiredState app = DesiredRunning" "\<not> appAlive d i app"
      by (auto simp: decide_def split: if_splits)
    with True app assms(5) show ?thesis by (auto simp: act_def intro: startApp_self)
  next
    case False
    with assms(2) app(2,5) have "asDesiredState app = DesiredStopped"
      by (auto simp: decide_def split: if_splits)
    with False app assms(5) show ?thesis by (auto simp: act_def intro: stopApp_self)
  qed
qed

lemma fold_act_other:
  "supervised d \<Longrightarrow> i \<notin> fst ` set as \<Longrightarrow> untouched i d (fold (act hs) as d)"
proof (induction as arbitrary: d)
  case (Cons a as)
  then have "untouched i d (act hs a d)" "supervised (act hs a d)"
    by (auto intro: act_other supervised_act)
  with Cons show ?case by (auto intro: untouched_trans)
qed (simp add: untouched_def)

lemma fold_act_docker: "dDocker (fold (act hs) as d) = dDocker d"
  by (induction as arbitrary: d) (simp_all add: act_docker)

lemma fold_act_supervised: "supervised d \<Longrightarrow> supervised (fold (act hs) as d)"
  by (induction as arbitrary: d) (simp_all add: supervised_act)

lemma plan_members: "(i, b) \<in> set (plan order d) \<longleftrightarrow> i \<in> set order \<and> decide d i = Some b"
  by (induction order) (auto simp: plan_def List.map_filter_def)

lemma plan_distinct: "distinct order \<Longrightarrow> distinct (map fst (plan order d))"
proof (induction order)
  case (Cons k order)
  have "map fst (plan (k # order) d) = (if decide d k = None then [] else [k]) @ map fst (plan order d)"
    by (auto simp: plan_def List.map_filter_def)
  moreover have "k \<notin> set (map fst (plan order d))"
    using Cons.prems plan_members [of k _ order d] by auto
  ultimately show ?case using Cons by simp
qed (simp add: plan_def List.map_filter_def)



subsection \<open>Where the code is weaker than its documentation\<close>

text \<open>
  A timer that has fired stays in the bookkeeping, so an application whose restarts were given
  up is never started by a reconciliation again, although nothing is in flight.
\<close>

lemma fired_timer_blocks:
  assumes "dRestarts d i = Some rs" "rsTimer rs = Some TimerFired" "dApps d i = Some app"
    "asDesiredState app = DesiredRunning" "\<not> appAlive d i app"
  shows "decide d i = None"
  using assms by (simp add: decide_def timerArmed_def)



end
