(* ===== verification/AgentBuffers.thy ===== *)
theory AgentBuffers
  imports Protocol Transport
begin

text \<open>
  What the agent keeps while the hub is unreachable: the metrics batches (\<^verbatim>\<open>loops.go\<close>), the
  usage rows of the runtime proxy (\<^verbatim>\<open>tokens.go\<close>) and the frames in the send queue of a
  connection are three buffers of one kind, the newest items up to a cap. Floating point
  samples are values of a type \<open>'f\<close> the code here only passes on.
\<close>

text \<open>
  The link to the hub: no connection, a live one, or one whose context is already done, on
  which \<^verbatim>\<open>Send\<close> fails although the daemon still holds it.
\<close>

datatype link = Offline | Online | Dying

definition sendOK :: "link \<Rightarrow> bool" where
  "sendOK l = (l = Online)"

subsection \<open>Metrics\<close>

definition maxBufferedBatches :: nat where
  "maxBufferedBatches = 240"

record 'f metricsState =
  msLink :: link
  msBuf :: "'f MetricsBatch list"
  msSent :: "'f MetricsBatch list"

definition mergeBatches :: "'f MetricsBatch list \<Rightarrow> 'f MetricsBatch" where
  "mergeBatches bs = \<lparr>mbHost = concat (map mbHost bs), mbApps = concat (map mbApps bs)\<rparr>"

definition trySend :: "'f MetricsBatch \<Rightarrow> 'f metricsState \<Rightarrow> 'f metricsState" where
  "trySend b s = (if sendOK (msLink s) then s\<lparr>msSent := msSent s @ [b]\<rparr> else s)"

definition sendMetrics :: "'f MetricsBatch \<Rightarrow> 'f metricsState \<Rightarrow> 'f metricsState" where
  "sendMetrics batch s =
     (if msLink s = Offline then s\<lparr>msBuf := last_n maxBufferedBatches (msBuf s @ [batch])\<rparr>
      else
        let buffered = msBuf s;
            s1 = s\<lparr>msBuf := []\<rparr>;
            s2 = (if buffered \<noteq> [] then trySend (mergeBatches buffered) s1 else s1)
        in trySend batch s2)"

definition bufferOffline :: "'f metricsState \<Rightarrow> 'f MetricsBatch list \<Rightarrow> 'f metricsState" where
  "bufferOffline s bs = fold (\<lambda>b s. sendMetrics b (s\<lparr>msLink := Offline\<rparr>)) bs s"

lemma bufferOffline_buf: "msBuf (bufferOffline s bs) = (if bs = [] then msBuf s else last_n maxBufferedBatches (msBuf s @ bs))"
proof (induction bs arbitrary: s)
  case (Cons b bs)
  have "msBuf (bufferOffline s (b # bs)) = msBuf (bufferOffline (sendMetrics b (s\<lparr>msLink := Offline\<rparr>)) bs)"
    by (simp add: bufferOffline_def)
  with Cons show ?case
    by (simp add: sendMetrics_def last_n_append_last_n [of _ "msBuf s @ [b]", simplified])
qed (simp add: bufferOffline_def)

lemma bufferOffline_sent [simp]: "msSent (bufferOffline s bs) = msSent s"
  by (induction bs arbitrary: s) (simp_all add: bufferOffline_def sendMetrics_def)

subsection \<open>Runtime proxy rows\<close>

definition maxProxyBuffer :: nat where
  "maxProxyBuffer = 5000"

record proxyState =
  pxLink :: link
  pxBuf :: "TokenUsageRow list"
  pxSent :: "TokenUsageRow list list"

definition emitTokenRows :: "TokenUsageRow list \<Rightarrow> proxyState \<Rightarrow> proxyState \<times> bool" where
  "emitTokenRows rows s =
     (if sendOK (pxLink s) then (s\<lparr>pxSent := pxSent s @ [rows]\<rparr>, True) else (s, False))"

definition queueProxyRows :: "TokenUsageRow list \<Rightarrow> proxyState \<Rightarrow> proxyState" where
  "queueProxyRows rows s =
     (case emitTokenRows rows s of
        (s1, True) \<Rightarrow> s1
      | (s1, False) \<Rightarrow> s1\<lparr>pxBuf := last_n maxProxyBuffer (pxBuf s1 @ rows)\<rparr>)"

text \<open>The two critical sections of \<^verbatim>\<open>flushProxyRows\<close>; rows may be queued in between.\<close>

definition flushTake :: "proxyState \<Rightarrow> proxyState \<times> TokenUsageRow list" where
  "flushTake s = (s\<lparr>pxBuf := []\<rparr>, pxBuf s)"

definition flushDeliver :: "TokenUsageRow list \<Rightarrow> proxyState \<Rightarrow> proxyState" where
  "flushDeliver buf s =
     (if buf = [] then s
      else case emitTokenRows buf s of
             (s1, True) \<Rightarrow> s1
           | (s1, False) \<Rightarrow> s1\<lparr>pxBuf := buf @ pxBuf s1\<rparr>)"

definition flushProxyRows :: "proxyState \<Rightarrow> proxyState" where
  "flushProxyRows s = (case flushTake s of (s1, buf) \<Rightarrow> flushDeliver buf s1)"

definition queueOffline :: "proxyState \<Rightarrow> TokenUsageRow list \<Rightarrow> proxyState" where
  "queueOffline s rows = queueProxyRows rows (s\<lparr>pxLink := Offline\<rparr>)"

subsection \<open>The three buffers\<close>

interpretation proxy_buffer: bounded_buffer queueOffline pxBuf maxProxyBuffer
  by unfold_locales (simp add: queueOffline_def queueProxyRows_def emitTokenRows_def sendOK_def)

text \<open>
  For the metrics buffer and the send queue the contract holds on the states the code can be
  in, those within the cap; \<open>clip\<close> names the buffer contents cut to the cap.
\<close>

definition clipMetrics :: "'f metricsState \<Rightarrow> 'f MetricsBatch list" where
  "clipMetrics s = last_n maxBufferedBatches (msBuf s)"

interpretation metrics_buffer: bounded_buffer bufferOffline clipMetrics maxBufferedBatches
  by unfold_locales
    (simp add: clipMetrics_def bufferOffline_buf last_n_append_last_n [of _ "msBuf _"]
      last_n_append_last_n [of _ _ "[]", simplified])

definition clipQueue :: "'f list \<Rightarrow> 'f list" where
  "clipQueue q = last_n sendCap q"

definition sendClipped :: "'f list \<Rightarrow> 'f list \<Rightarrow> 'f list" where
  "sendClipped q bs = sendAll (clipQueue q) bs"

interpretation send_queue: bounded_buffer sendClipped clipQueue sendCap
  by unfold_locales
    (simp add: sendClipped_def clipQueue_def sendAll_last_n last_n_append_last_n
      last_n_append_last_n [of _ _ "[]", simplified])



text \<open>The proxy buffer never exceeds its bound and a flush loses nothing: queueing keeps the
  newest 5000 rows; a flush either hands exactly the buffered rows to the connection or puts
  them back in front of whatever was queued meanwhile.\<close>

theorem proxy_rows_kept:
  assumes "length (pxBuf s) \<le> maxProxyBuffer"
  shows "length (pxBuf (queueProxyRows rows s)) \<le> maxProxyBuffer
    \<and> length (pxBuf (flushProxyRows s)) \<le> maxProxyBuffer
    \<and> concat (pxSent (flushProxyRows s)) @ pxBuf (flushProxyRows s) = concat (pxSent s) @ pxBuf s
    \<and> pxBuf (flushDeliver (pxBuf s) (queueOffline (fst (flushTake s)) rows))
        = pxBuf s @ last_n maxProxyBuffer rows"
  using assms
  by (auto simp: queueProxyRows_def flushProxyRows_def flushTake_def flushDeliver_def emitTokenRows_def
      queueOffline_def sendOK_def)

theorem proxy_rows_kept_witness:
  "length (pxBuf (queueProxyRows [] \<lparr>pxLink = Offline, pxBuf = [], pxSent = []\<rparr>)) \<le> 5000"
  using proxy_rows_kept [of "\<lparr>pxLink = Offline, pxBuf = [], pxSent = []\<rparr>" "[]"]
  by (simp add: maxProxyBuffer_def)

text \<open>
  The send queue does not distinguish frames: what falls out under pressure is the oldest
  frame, a command result as much as a metrics batch.
\<close>

text \<open>Backpressure drops the oldest frame whatever it is: on an open connection with a full
  queue, sending one more frame removes the frame at the head.\<close>

theorem full_queue_drops_oldest:
  assumes "length q = 255"
  shows "sendLoop False p (f # q) b = (q @ [b], True) \<and> length (q @ [b]) = sendCap"
  using assms by (simp add: sendLoop_open sendCap_def last_n_def)

theorem full_queue_drops_oldest_witness:
  "sendLoop False False (FCmdResult \<lparr>crCmdID = ''c1'', crOK = True, crError = ''''\<rparr> # replicate 255 (FCmdAck ''m''))
     (FCmdAck ''n'') = (replicate 255 (FCmdAck ''m'') @ [FCmdAck ''n''], True)"
  using full_queue_drops_oldest [of "replicate 255 (FCmdAck ''m'')" False] by simp

end
