(* ===== verification/HubControl.thy ===== *)
theory HubControl
  imports HubProps
begin

text \<open>
  Further properties of the hub's control plane: what is dispatched to an agent, and that the
  status of a system follows its registered connection.
\<close>

subsection \<open>Dispatched commands\<close>

definition wireCmds :: "'f hub \<Rightarrow> (nat \<times> Cmd) list" where
  "wireCmds h = List.map_filter (\<lambda>(c, f). case f of HCmd (Some q) \<Rightarrow> Some (c, q) | _ \<Rightarrow> None) (huWire h)"

lemma wireCmds_cong: "huWire h = huWire h' \<Longrightarrow> wireCmds h = wireCmds h'"
  by (simp add: wireCmds_def)

lemma map_filter_append: "List.map_filter f (xs @ ys) = List.map_filter f xs @ List.map_filter f ys"
  by (simp add: List.map_filter_def)

lemma wireCmds_connSend [simp]:
  "wireCmds (snd (connSend env c HHelloAck h)) = wireCmds h"
  "wireCmds (snd (connSend env c (HAppSync s) h)) = wireCmds h"
  by (simp_all add: connSend_def wireCmds_def map_filter_append)

lemma wireCmds_sync [simp]:
  "wireCmds (snd (sendAppSync env i c h)) = wireCmds h"
  "wireCmds (SyncSystem env i h) = wireCmds h"
  by (simp_all add: sendAppSync_def SyncSystem_def split: option.split)

lemma wireCmds_update [simp]:
  "wireCmds (snd (updateApp env i r h)) = wireCmds h"
  "wireCmds (snd (updateSystem env i s h)) = wireCmds h"
  "wireCmds (snd (updateCommand env i q h)) = wireCmds h"
  "wireCmds (setSystemStatus env i st h) = wireCmds h"
  "wireCmds (snd (createApp env r h)) = wireCmds h"
  "wireCmds (saveDispatched env i q e h) = wireCmds h"
  "wireCmds (connOpen env c i s h) = wireCmds h"
  "wireCmds (connClose env c h) = wireCmds h"
  "wireCmds (sweep env h) = wireCmds h"
  by (simp_all add: wireCmds_def createApp_def)

lemma wireCmds_onHello: "wireCmds (snd (onHello env c caps h)) = wireCmds h"
proof (cases "huLive h c")
  case (Some lv)
  let ?cur = "helloRecord env caps (lvCurrent lv)"
  let ?h0 = "h\<lparr>huLive := (huLive h)(c \<mapsto> lv\<lparr>lvCurrent := ?cur\<rparr>)\<rparr>"
  have snd_case: "wireCmds (snd (case r of (None, h2) \<Rightarrow> sendAppSync env i c h2 | (Some e, h2) \<Rightarrow> (Some e, h2)))
      = wireCmds (snd r)" for r i
    by (cases r; cases "fst r") auto
  show ?thesis
    using Some by (simp add: onHello_def Let_def snd_case split: option.split) (simp add: wireCmds_def)
qed (simp add: onHello_def)

lemma wireCmds_onAppRegister: "wireCmds (snd (onAppRegister env c i def h)) = wireCmds h"
proof -
  have "wireCmds (snd (case r of (None, h1) \<Rightarrow> sendAppSync env i c h1 | (Some e, h1) \<Rightarrow> (Some e, h1)))
      = wireCmds (snd r)" for r
    by (cases r; cases "fst r") auto
  then show ?thesis by (simp add: onAppRegister_def)
qed

lemma wireCmds_ingest [simp]:
  "wireCmds (snd (ingestMetrics env i b h)) = wireCmds h"
  "wireCmds (snd (ingestTokens env i rows h)) = wireCmds h"
  "wireCmds (deliverLog chunk h) = wireCmds h"
  by (simp_all add: ingestMetrics_def ingestTokens_def deliverLog_def Let_def wireCmds_def
      split: option.split prod.split)

lemma wireCmds_serveFrame: "wireCmds (serveFrame env c m h) = wireCmds h"
proof -
  have "wireCmds (snd (handleAgentFrame env c i m h)) = wireCmds h" for i
  proof (cases m)
    case (AFrame f)
    then show ?thesis
      by (cases f) (simp_all add: wireCmds_onHello wireCmds_onAppRegister onAppEvent_def onCmdAck_def
          onCmdResult_def onApprovalEvent_def split: option.split)
  qed simp_all
  then show ?thesis by (simp add: serveFrame_def split: option.split)
qed

lemma wireCmds_saveApp: "wireCmds (snd (saveApp env a i k d h)) = wireCmds h"
proof -
  have "wireCmds (snd (afterSave env i k res)) = wireCmds (snd res)" for k res
    by (simp add: afterSave_def split: option.split)
  then show ?thesis by (simp add: saveApp_def Let_def split: option.split)
qed

lemma withDesired_find:
  assumes "findRecord i (huApps h) = Some r"
  shows "\<exists>r'. findRecord i (huApps (withDesired env i v r h)) = Some r' \<and> arHash r' = arHash r"
  using assms by (cases v) (simp_all add: withDesired_def updateApp_find)

lemma withDesired_frame [simp, frame_simps]:
  "huConns (withDesired env i v r h) = huConns h"
  "huCommands (withDesired env i v r h) = huCommands h"
  "huSystems (withDesired env i v r h) = huSystems h"
  "huLive (withDesired env i v r h) = huLive h"
  "huCancelled (withDesired env i v r h) = huCancelled h"
  "wireCmds (withDesired env i v r h) = wireCmds h"
  by (cases v; simp add: withDesired_def)+

lemma createCommand_Inr:
  assumes "createCommand env user appID t h = (Inr cid, h1)"
  obtains r where "findRecord appID (huApps h) = Some r" "arApproval r = ApprovalApproved"
    "ValidVerb (verbOf t)" "cid = enNewID env"
    "h1 = (withDesired env appID (verbOf t) r h)\<lparr>huCommands :=
       saveRecord cid (newCommand env appID (verbOf t) user r) (huCommands h)\<rparr>"
  using assms by (auto simp: createCommand_def Let_def split: if_splits option.splits)

lemma createCommand_wire: "wireCmds (snd (createCommand env user appID t h)) = wireCmds h"
proof -
  have "wireCmds (h1\<lparr>huCommands := x\<rparr>) = wireCmds h1" for h1 :: "'a hub" and x by (simp add: wireCmds_def)
  then show ?thesis by (simp add: createCommand_def Let_def split: option.split)
qed

lemma wireCmds_Dispatch:
  "wireCmds (snd (Dispatch env i q h)) = wireCmds h
   \<or> (\<exists>c. huConns h i = Some c \<and> wireCmds (snd (Dispatch env i q h)) = wireCmds h @ [(c, q)])"
  by (simp add: Dispatch_def connSend_def wireCmds_def map_filter_append split: option.split)

text \<open>C37: The hub dispatches only what was asked for and approved. A command frame that a step puts on a
  connection answers a client's command request in this very step: its verb is one of the
  three, its application exists and is approved, it carries that application's current hash
  and the id of the new command record, and it goes to the live connection of the application's
  own system.\<close>

theorem hub_dispatches_only_approved:
  assumes "(c, q) \<in> set (wireCmds (hubStep env e h))" "(c, q) \<notin> set (wireCmds h)"
  shows "\<exists>user t r. e = HCommand user (cmdAppID q) t \<and> findRecord (cmdAppID q) (huApps h) = Some r
    \<and> arApproval r = ApprovalApproved \<and> cmdDefinitionHash q = arHash r \<and> cmdVerb q = verbOf t
    \<and> ValidVerb (cmdVerb q) \<and> cmdID q = enNewID env \<and> huConns h (arSystem r) = Some c"
proof (cases e)
  case (HCommand user appID t)
  obtain res h1 where cc: "createCommand env user appID t h = (res, h1)" by force
  have w1: "wireCmds h1 = wireCmds h" using createCommand_wire [of env user appID t h] cc by simp
  show ?thesis
  proof (cases res)
    case (Inl x)
    with assms HCommand cc w1 show ?thesis by (simp add: requestCommand_def)
  next
    case (Inr cid)
    from cc Inr obtain r where r: "findRecord appID (huApps h) = Some r" "arApproval r = ApprovalApproved"
      "ValidVerb (verbOf t)" "cid = enNewID env"
      and h1: "h1 = (withDesired env appID (verbOf t) r h)\<lparr>huCommands :=
        saveRecord cid (newCommand env appID (verbOf t) user r) (huCommands h)\<rparr>"
      using createCommand_Inr by metis
    let ?rec = "newCommand env appID (verbOf t) user r"
    obtain r' where r': "findRecord appID (huApps h1) = Some r'" "arHash r' = arHash r"
      using withDesired_find [OF r(1), of env "verbOf t"] by (auto simp: h1)
    let ?q = "\<lparr>cmdID = cid, cmdAppID = appID, cmdVerb = verbOf t, cmdDefinitionHash = arHash r\<rparr>"
    have "wireCmds (hubStep env e h) = wireCmds (snd (Dispatch env (arSystem r) ?q h1))"
      using HCommand cc Inr r'
      by (simp add: requestCommand_def afterCreate_def h1 coll.find_saved dispatchCommand_def newCommand_def Let_def)
    with wireCmds_Dispatch [of env "arSystem r" ?q h1] assms w1
    have "huConns h1 (arSystem r) = Some c \<and> q = ?q" by auto
    with HCommand r h1 show ?thesis by simp
  qed
qed (use assms in \<open>auto simp: wireCmds_serveFrame wireCmds_saveApp split: sum.splits\<close>)

text \<open>The sample hub with one approved application and what a request for it puts on the wire.\<close>

definition webApp :: AppRec where
  "webApp = \<lparr>arSystem = ''s1'', arName = ''web'', arKind = KindProcess, arDefinition = Some webDef,
     arHash = ''web'', arApproval = ApprovalApproved, arDesired = DesiredStopped, arStatus = StatusStopped,
     arPID = 0, arStartedAt = None, arPorts = [], arTracking = [], arRestart = None, arCreated = 1\<rparr>"

definition webHub :: "int hub" where
  "webHub = sampleHub\<lparr>huApps := [(''a1'', webApp)]\<rparr>"

theorem hub_dispatches_only_approved_witness:
  "let q = \<lparr>cmdID = ''c1'', cmdAppID = ''a1'', cmdVerb = VerbStart, cmdDefinitionHash = ''web''\<rparr>;
       e = HCommand (Some ''u1'') ''a1'' ''start''
   in (1, q) \<in> set (wireCmds (hubStep (sampleEnv 9 ''c1'') e webHub))
      \<and> (\<exists>user t r. e = HCommand user ''a1'' t \<and> findRecord ''a1'' (huApps webHub) = Some r
            \<and> arApproval r = ApprovalApproved \<and> huConns webHub (arSystem r) = Some 1)"
proof -
  let ?q = "\<lparr>cmdID = ''c1'', cmdAppID = ''a1'', cmdVerb = VerbStart, cmdDefinitionHash = ''web''\<rparr>"
  let ?e = "HCommand (Some ''u1'') ''a1'' ''start'' :: int hubEvent"
  have a: "(1, ?q) \<in> set (wireCmds (hubStep (sampleEnv 9 ''c1'') ?e webHub))" by code_simp
  have b: "(1, ?q) \<notin> set (wireCmds webHub)" by code_simp
  from a hub_dispatches_only_approved [OF a b] show ?thesis by (simp add: Let_def) blast
qed

subsection \<open>The status of a system follows its connection\<close>

text \<open>
  The status invariant, with what it needs of the registry: a registered connection is being
  served for its system, and a connection that is served and not cancelled is the registered one.
\<close>

definition statusOK :: "'f hub \<Rightarrow> bool" where
  "statusOK h \<longleftrightarrow> (\<forall>i r. findRecord i (huSystems h) = Some r \<longrightarrow> (syStatus r = ''online'') = (huConns h i \<noteq> None))"

definition registryOK :: "'f hub \<Rightarrow> bool" where
  "registryOK h \<longleftrightarrow>
     (\<forall>i c. huConns h i = Some c \<longrightarrow> (\<exists>lv. huLive h c = Some lv \<and> lvSystem lv = i \<and> c \<notin> set (huCancelled h)))
     \<and> (\<forall>c lv. huLive h c = Some lv \<and> c \<notin> set (huCancelled h) \<longrightarrow> huConns h (lvSystem lv) = Some c)"

text \<open>
  The store accepts every save, and saving a record loaded earlier leaves one of the two statuses,
  the saved or the stored.
\<close>

definition acceptingEnv :: "'f hubEnv \<Rightarrow> bool" where
  "acceptingEnv env \<longleftrightarrow> (\<forall>i. enSave env i)
     \<and> (\<forall>l c s. syStatus (enMergeSystem env l c s) \<in> {syStatus c, syStatus s})"

text \<open>The number of a new connection is not that of one being served or cancelled.\<close>

fun freshConn :: "'f hubEvent \<Rightarrow> 'f hub \<Rightarrow> bool" where
  "freshConn (HConnect _ c _ _ _) h \<longleftrightarrow> huLive h c = None \<and> c \<notin> set (huCancelled h)"
| "freshConn _ h \<longleftrightarrow> True"

fun freshConns :: "('f hubEnv \<times> 'f hubEvent) list \<Rightarrow> 'f hub \<Rightarrow> bool" where
  "freshConns [] h \<longleftrightarrow> True"
| "freshConns ((env, e) # es) h \<longleftrightarrow> freshConn e h \<and> freshConns es (hubStep env e h)"

definition plane :: "'f hub \<Rightarrow> SystemRec table \<times> (string \<rightharpoonup> nat) \<times> (nat \<rightharpoonup> liveConn) \<times> nat list" where
  "plane h = (huSystems h, huConns h, huLive h, huCancelled h)"

lemma plane_invariants:
  assumes "plane h = plane h'"
  shows "statusOK h = statusOK h'" "registryOK h = registryOK h'"
  using assms by (simp_all add: plane_def statusOK_def registryOK_def)

lemma setSystemStatus_systems:
  assumes "enSave env i"
  shows "findRecord k (huSystems (setSystemStatus env i st h)) =
    (if k = i then map_option (\<lambda>r. r\<lparr>syStatus := st, syLastSeen := enNow env\<rparr>) (findRecord i (huSystems h))
     else findRecord k (huSystems h))"
  using assms
  by (cases "findRecord i (huSystems h)") (simp_all add: setSystemStatus_def updateSystem_def coll.find_save)

lemma connOpen_ok:
  assumes "statusOK h" "registryOK h" "acceptingEnv env" "huLive h c = None" "c \<notin> set (huCancelled h)"
  shows "statusOK (connOpen env c i sys h) \<and> registryOK (connOpen env c i sys h)"
proof
  let ?h = "connOpen env c i sys h"
  have sv: "enSave env i" using assms(3) by (simp add: acceptingEnv_def)
  have cn: "huConns ?h = (huConns h)(i \<mapsto> c)"
    by (simp add: connOpen_def connRegister_def regAdd_get)
  have lv: "huLive ?h = (huLive h)(c \<mapsto> \<lparr>lvSystem = i, lvLoaded = sys, lvCurrent = sys\<rparr>)"
    by (simp add: connOpen_def connRegister_def)
  have ca: "set (huCancelled ?h) = set (huCancelled h) \<union> set_option (huConns h i)"
    by (auto simp: connOpen_def connRegister_def regAdd_def Let_def split: option.split)
  show "statusOK ?h"
    using assms(1) unfolding statusOK_def cn
    by (auto simp: connOpen_def connRegister_def setSystemStatus_systems [OF sv])
  have "huConns h j \<noteq> Some c" for j
    using assms(2,4) unfolding registryOK_def by fastforce
  then show "registryOK ?h"
    using assms(2,4,5) unfolding registryOK_def cn lv ca by (auto split: if_splits) (metis option.inject)+
qed

lemma connClose_result:
  assumes "huLive h c = Some lv"
  shows "huConns (connClose env c h) =
      (if huConns h (lvSystem lv) = Some c then (huConns h)(lvSystem lv := None) else huConns h)"
    and "huLive (connClose env c h) = (huLive h)(c := None)"
    and "huCancelled (connClose env c h) = c # huCancelled h"
    and "enSave env (lvSystem lv) \<Longrightarrow> findRecord k (huSystems (connClose env c h)) =
      (if huConns h (lvSystem lv) = Some c \<and> k = lvSystem lv
       then map_option (\<lambda>r. r\<lparr>syStatus := ''offline'', syLastSeen := enNow env\<rparr>) (findRecord k (huSystems h))
       else findRecord k (huSystems h))"
  using assms
  by (cases "huConns h (lvSystem lv) = Some c";
      simp add: connClose_def connUnregister_def regRemove_def Let_def setSystemStatus_systems)+

lemma connClose_ok:
  assumes "statusOK h" "registryOK h" "acceptingEnv env"
  shows "statusOK (connClose env c h) \<and> registryOK (connClose env c h)"
proof (cases "huLive h c")
  case None
  with assms show ?thesis by (simp add: connClose_def)
next
  case (Some lv)
  have sv: "enSave env (lvSystem lv)" using assms(3) by (simp add: acceptingEnv_def)
  note res = connClose_result(1-3) [OF Some, of env] connClose_result(4) [OF Some sv]
  have "statusOK (connClose env c h)"
    using assms(1) unfolding statusOK_def res by (auto split: if_splits)
  moreover have "registryOK (connClose env c h)"
  proof -
    have own: "j = lvSystem lv" if "huConns h j = Some c" for j
      using assms(2) that Some unfolding registryOK_def by fastforce
    have kept: "d \<noteq> c \<and> huConns h j = Some d" if "huConns (connClose env c h) j = Some d" for j d
      using that own [of j] unfolding res by (auto split: if_splits)
    have stays: "huConns (connClose env c h) j = Some d" if "huConns h j = Some d" "d \<noteq> c" for j d
      using that unfolding res by auto
    show ?thesis
      unfolding registryOK_def
    proof (intro conjI allI impI)
      fix j d assume "huConns (connClose env c h) j = Some d"
      with kept have "d \<noteq> c" "huConns h j = Some d" by blast+
      with assms(2) show "\<exists>lv. huLive (connClose env c h) d = Some lv \<and> lvSystem lv = j
          \<and> d \<notin> set (huCancelled (connClose env c h))"
        unfolding registryOK_def res by auto
    next
      fix d l assume "huLive (connClose env c h) d = Some l \<and> d \<notin> set (huCancelled (connClose env c h))"
      then have "d \<noteq> c" "huLive h d = Some l" "d \<notin> set (huCancelled h)" unfolding res by auto
      with assms(2) stays show "huConns (connClose env c h) (lvSystem l) = Some d"
        unfolding registryOK_def by blast
    qed
  qed
  ultimately show ?thesis ..
qed

lemma onHello_plane:
  assumes "huLive h c = Some lv" "c \<notin> set (huCancelled h)" "acceptingEnv env"
  shows "\<exists>lv'. lvSystem lv' = lvSystem lv \<and> huLive (snd (onHello env c caps h)) = (huLive h)(c \<mapsto> lv')"
    and "huConns (snd (onHello env c caps h)) = huConns h"
    and "huCancelled (snd (onHello env c caps h)) = huCancelled h"
    and "huSystems (snd (onHello env c caps h)) = huSystems h \<or>
      (\<exists>r stored. findRecord (lvSystem lv) (huSystems h) = Some stored \<and> syStatus r \<in> {''online'', syStatus stored}
        \<and> huSystems (snd (onHello env c caps h)) = saveRecord (lvSystem lv) r (huSystems h))"
proof -
  let ?i = "lvSystem lv" and ?cur = "helloRecord env caps (lvCurrent lv)"
  have ack: "P (snd (case r of (None, h2) \<Rightarrow> sendAppSync env i c h2 | (Some e, h2) \<Rightarrow> (Some e, h2)))
      \<longleftrightarrow> P (snd r)" if "\<And>h2. P (snd (sendAppSync env i c h2)) = P h2" for P :: "'a hub \<Rightarrow> bool" and r i
    using that by (cases r; cases "fst r") auto
  have "\<exists>lv' ss. lvSystem lv' = ?i \<and> plane (snd (onHello env c caps h)) =
      (ss, huConns h, (huLive h)(c \<mapsto> lv'), huCancelled h)
      \<and> (ss = huSystems h \<or> (\<exists>r stored. findRecord ?i (huSystems h) = Some stored
          \<and> syStatus r \<in> {''online'', syStatus stored} \<and> ss = saveRecord ?i r (huSystems h)))"
  proof (cases "findRecord ?i (huSystems h)")
    case None
    with assms(1) show ?thesis
      by (auto simp: onHello_def Let_def plane_def intro!: exI [of _ "lv\<lparr>lvCurrent := ?cur\<rparr>"])
  next
    case (Some stored)
    let ?m = "enMergeSystem env (lvLoaded lv) ?cur stored"
    let ?h1 = "h\<lparr>huSystems := saveRecord ?i ?m (huSystems h),
      huLive := (huLive h)(c \<mapsto> lv\<lparr>lvLoaded := ?cur, lvCurrent := ?cur\<rparr>),
      huNotify := onSystemUpdate (huSettings h) (enPost env) (enNow env) ?i (syName ?cur) (syStatus ?cur) (huNotify h)\<rparr>"
    have pl: "plane (snd (connSend env c f x)) = plane x" "plane (snd (sendAppSync env j c x)) = plane x"
      for f j and x :: "'a hub" by (simp_all add: plane_def)
    have "snd (onHello env c caps h) = snd (case connSend env c HHelloAck ?h1 of
        (None, h2) \<Rightarrow> sendAppSync env ?i c h2 | (Some e, h2) \<Rightarrow> (Some e, h2))"
      using assms(1,3) Some by (simp add: onHello_def Let_def acceptingEnv_def)
    then have "plane (snd (onHello env c caps h)) = plane ?h1"
      using ack [of "\<lambda>x. plane x = plane ?h1" ?i "connSend env c HHelloAck ?h1"] by (simp add: pl)
    moreover have "syStatus ?m \<in> {''online'', syStatus stored}"
      using assms(3) by (auto simp: acceptingEnv_def helloRecord_def dest!: spec)
    ultimately show ?thesis
      using Some by (intro exI [of _ "lv\<lparr>lvLoaded := ?cur, lvCurrent := ?cur\<rparr>"] exI) (auto simp: plane_def)
  qed
  then show "\<exists>lv'. lvSystem lv' = ?i \<and> huLive (snd (onHello env c caps h)) = (huLive h)(c \<mapsto> lv')"
    "huConns (snd (onHello env c caps h)) = huConns h"
    "huCancelled (snd (onHello env c caps h)) = huCancelled h"
    "huSystems (snd (onHello env c caps h)) = huSystems h \<or>
      (\<exists>r stored. findRecord ?i (huSystems h) = Some stored \<and> syStatus r \<in> {''online'', syStatus stored}
        \<and> huSystems (snd (onHello env c caps h)) = saveRecord ?i r (huSystems h))"
    by (auto simp: plane_def)
qed

lemma onHello_ok:
  assumes "statusOK h" "registryOK h" "acceptingEnv env" "huLive h c = Some lv" "c \<notin> set (huCancelled h)"
  shows "statusOK (snd (onHello env c caps h)) \<and> registryOK (snd (onHello env c caps h))"
proof
  note pl = onHello_plane [OF assms(4,5,3), of caps]
  have on: "huConns h (lvSystem lv) = Some c" using assms(2,4,5) unfolding registryOK_def by blast
  show "statusOK (snd (onHello env c caps h))"
    using pl(4) assms(1) on unfolding statusOK_def pl(2)
    by (auto simp: coll.find_save split: if_splits)
  show "registryOK (snd (onHello env c caps h))"
    using pl(1) assms(2,4) unfolding registryOK_def pl(2,3) by (auto split: if_splits) force+
qed

lemma plane_keep [simp]:
  "plane (snd (updateApp env i r h)) = plane h"
  "plane (snd (updateCommand env i q h)) = plane h"
  "plane (snd (createApp env r h)) = plane h"
  "plane (snd (sendAppSync env i c h)) = plane h"
  "plane (snd (ingestMetrics env i b h)) = plane h"
  "plane (snd (ingestTokens env i rows h)) = plane h"
  "plane (deliverLog chunk h) = plane h"
  "plane (sweep env h) = plane h"
  "plane (afterCreate env cid h) = plane h"
  "plane (withDesired env i v r h) = plane h"
  "plane (snd (afterSave env i k res)) = plane (snd res)"
  by (simp_all add: plane_def createApp_def ingestMetrics_def ingestTokens_def deliverLog_def Let_def
      split: option.split prod.split)

lemma plane_onAppRegister [simp]: "plane (snd (onAppRegister env c i def h)) = plane h"
proof -
  have "plane (snd (case r of (None, h1) \<Rightarrow> sendAppSync env i c h1 | (Some e, h1) \<Rightarrow> (Some e, h1)))
      = plane (snd r)" for r
    by (cases r; cases "fst r") auto
  then show ?thesis by (simp add: onAppRegister_def)
qed

lemma plane_requestCommand [simp]: "plane (snd (requestCommand env user appID t h)) = plane h"
proof -
  have "plane (h1\<lparr>huCommands := x\<rparr>) = plane h1" for h1 :: "'a hub" and x by (simp add: plane_def)
  then have "plane (snd (createCommand env user appID t h)) = plane h"
    by (simp add: createCommand_def Let_def split: option.split)
  then show ?thesis by (simp add: requestCommand_result split: sum.split)
qed

lemma plane_saveApp [simp]: "plane (snd (saveApp env a i k d h)) = plane h"
  by (simp add: saveApp_def Let_def split: option.split)

lemma serveFrame_ok:
  assumes "statusOK h" "registryOK h" "acceptingEnv env"
  shows "statusOK (serveFrame env c m h) \<and> registryOK (serveFrame env c m h)"
proof (cases "\<exists>lv. huLive h c = Some lv \<and> c \<notin> set (huCancelled h)")
  case False
  with assms show ?thesis by (auto simp: serveFrame_def split: option.split)
next
  case True
  then obtain lv where lv: "huLive h c = Some lv" "c \<notin> set (huCancelled h)" by blast
  then have sf: "serveFrame env c m h = snd (handleAgentFrame env c (lvSystem lv) m h)"
    by (simp add: serveFrame_def)
  show ?thesis
  proof (cases "\<exists>dg caps. m = AFrame (FHello dg caps)")
    case True
    with onHello_ok [OF assms lv] sf show ?thesis by auto
  next
    case False
    have "plane (snd (handleAgentFrame env c (lvSystem lv) m h)) = plane h"
    proof (cases m)
      case (AFrame f)
      with False show ?thesis
        by (cases f) (simp_all add: onAppEvent_def onCmdAck_def onCmdResult_def onApprovalEvent_def
            split: option.split)
    qed simp_all
    with assms(1,2) show ?thesis unfolding sf using plane_invariants by metis
  qed
qed

lemma hubStep_ok:
  assumes "statusOK h" "registryOK h" "acceptingEnv env" "freshConn e h"
  shows "statusOK (hubStep env e h) \<and> registryOK (hubStep env e h)"
proof (cases e)
  case (HConnect verify c i ts sig)
  with assms connOpen_ok [OF assms(1-3)] show ?thesis by (auto split: sum.split)
next
  case (HClose c)
  with connClose_ok [OF assms(1-3)] show ?thesis by simp
next
  case (HFrame c m)
  with serveFrame_ok [OF assms(1-3)] show ?thesis by simp
next
  case (HCommand user appID t)
  then have "plane (hubStep env e h) = plane h" by simp
  with assms(1,2) show ?thesis using plane_invariants by metis
next
  case HSweep
  then have "plane (hubStep env e h) = plane h" by simp
  with assms(1,2) show ?thesis using plane_invariants by metis
next
  case (HSaveApp a i k d)
  then have "plane (hubStep env e h) = plane h" by simp
  with assms(1,2) show ?thesis using plane_invariants by metis
next
  case (HPatchApp u i f)
  with assms(1,2) show ?thesis by simp
qed

lemma runHub_ok:
  "statusOK h \<Longrightarrow> registryOK h \<Longrightarrow> list_all (acceptingEnv \<circ> fst) es \<Longrightarrow> freshConns es h \<Longrightarrow>
     statusOK (runHub es h) \<and> registryOK (runHub es h)"
proof (induction es arbitrary: h)
  case Nil
  then show ?case by (simp add: runHub_def)
next
  case (Cons x es)
  obtain env e where x: "x = (env, e)" by force
  from Cons.prems x hubStep_ok [of h env e]
  have "statusOK (hubStep env e h)" "registryOK (hubStep env e h)" by simp_all
  from Cons.IH [OF this] Cons.prems x show ?case by (simp add: runHub_def)
qed


text \<open>A hub with a verifier that accepts: the second connection supersedes the first, whose late
  disconnect changes nothing.\<close>

definition keyB64 :: string where
  "keyB64 = replicate 42 CHR ''A'' @ ''A=''"

definition connectEvent :: "nat \<Rightarrow> int hubEvent" where
  "connectEvent c = HConnect (\<lambda>_ _ _. True) c ''s1'' ''0'' ''AAAA''"

definition offlineHub :: "int hub" where
  "offlineHub = emptyHub\<lparr>huSystems := [(''s1'', sampleSystem\<lparr>syPublicKey := keyB64\<rparr>)]\<rparr>"


text \<open>
  The two steps of a disconnect are not atomic: a reconnect between them leaves the system offline
  although its agent is connected.
\<close>

lemma reconnect_race_shows_offline:
  "let env = sampleEnv 5 ''x'';
       h1 = hubStep env (connectEvent 1) offlineHub;
       (was, h2) = connUnregister 1 h1;
       h3 = hubStep env (connectEvent 2) h2;
       h4 = setSystemStatus env ''s1'' ''offline'' h3
   in was \<and> huConns h4 ''s1'' = Some 2
      \<and> map_option syStatus (findRecord ''s1'' (huSystems h4)) = Some ''offline''"
  by code_simp

subsection \<open>Reports are not checked against the reporting system\<close>

text \<open>The hub does not check whose application an agent reports on: a report from the connection of
  any system, also of another one than the application's, has the same effect. An approval
  with the current hash approves the application and a status event sets its status.\<close>

theorem reports_from_any_system:
  assumes "findRecord i (huApps h) = Some r" "enSave env i"
    and "huLive h c = Some lv" "c \<notin> set (huCancelled h)"
  shows "findRecord i (huApps (serveFrame env c (AFrame (FApprovalEvent
             \<lparr>apAppID = i, apApproval = ApprovalApproved, apDefinitionHash = arHash r\<rparr>)) h))
           = Some (r\<lparr>arApproval := ApprovalApproved\<rparr>)
    \<and> map_option arStatus (findRecord i (huApps (serveFrame env c (AFrame (FAppEvent
             \<lparr>aeAppID = i, aeStatus = st, aePID = 0, aeExitCode = None, aeRestartCount = 0, aePorts = []\<rparr>)) h)))
           = Some st"
  using assms by (simp add: serveFrame_def onApprovalEvent_def onAppEvent_def updateApp_find)

theorem reports_from_any_system_witness:
  "let h = webHub\<lparr>huApps := [(''a1'', webApp\<lparr>arSystem := ''other'', arApproval := ApprovalPending\<rparr>)]\<rparr>;
       ev = \<lparr>apAppID = ''a1'', apApproval = ApprovalApproved, apDefinitionHash = ''web''\<rparr>
   in map_option (\<lambda>r. (arSystem r, arApproval r))
        (findRecord ''a1'' (huApps (serveFrame (sampleEnv 9 ''x'') 1 (AFrame (FApprovalEvent ev)) h)))
      = Some (''other'', ApprovalApproved)"
proof -
  let ?r = "webApp\<lparr>arSystem := ''other'', arApproval := ApprovalPending\<rparr>"
  let ?h = "webHub\<lparr>huApps := [(''a1'', ?r)]\<rparr>"
  have f: "findRecord ''a1'' (huApps ?h) = Some ?r" by (simp add: findRecord_def)
  have s: "enSave (sampleEnv 9 ''x'') ''a1''" by (simp add: sampleEnv_def)
  have "huLive ?h 1 \<noteq> None" by code_simp
  then obtain lv where lv: "huLive ?h 1 = Some lv" by blast
  have c: "1 \<notin> set (huCancelled ?h)" by code_simp
  from reports_from_any_system [OF f s lv c] show ?thesis by (simp add: Let_def webApp_def)
qed

end
