(* ===== verification/HubClients.thy ===== *)
theory HubClients
  imports HubControl
begin

text \<open>
  Properties of what clients and new agents ask of the hub: enrollment tokens are redeemed once,
  an edited definition loses its approval, commands reach an end, and a hello is answered with
  the full state.
\<close>

subsection \<open>Enrollment\<close>

datatype enrollOp =
    Mint "string option" string
  | Redeem string string string

type_synonym enrollState = "EnrollToken table \<times> SystemRec table"

fun enrollStep :: "(string \<Rightarrow> string) \<Rightarrow> (string \<Rightarrow> string) \<Rightarrow> 'f hubEnv \<Rightarrow> enrollOp \<Rightarrow> enrollState
    \<Rightarrow> (apiError + string) \<times> enrollState" where
  "enrollStep hashf hex4 env (Mint user raw) st =
     (case mintToken hashf env user raw (fst st) of (r, ts) \<Rightarrow> (r, ts, snd st))"
| "enrollStep hashf hex4 env (Redeem token pub name) st = enroll hashf hex4 env token pub name st"

text \<open>
  The successful redemptions of a history: the hash of the token, the new system, the time and the
  expiry of the token.
\<close>

fun redemption :: "(string \<Rightarrow> string) \<Rightarrow> 'f hubEnv \<Rightarrow> enrollOp \<Rightarrow> apiError + string \<Rightarrow> enrollState
    \<Rightarrow> (string \<times> string \<times> int \<times> int) list" where
  "redemption hashf env (Redeem token pub name) (Inr sysID) st =
     (let k = hashf (trimSpace token) in
      [(k, sysID, enNow env, case findRecord k (fst st) of None \<Rightarrow> 0 | Some t \<Rightarrow> etExpiresAt t)])"
| "redemption hashf env (Redeem token pub name) (Inl e) st = []"
| "redemption hashf env (Mint user raw) r st = []"

fun redemptions :: "(string \<Rightarrow> string) \<Rightarrow> (string \<Rightarrow> string) \<Rightarrow> ('f hubEnv \<times> enrollOp) list \<Rightarrow> enrollState
    \<Rightarrow> (string \<times> string \<times> int \<times> int) list" where
  "redemptions hashf hex4 [] st = []"
| "redemptions hashf hex4 ((env, op) # ops) st =
     (let res = enrollStep hashf hex4 env op st
      in redemption hashf env op (fst res) st @ redemptions hashf hex4 ops (snd res))"

definition usedToken :: "string \<Rightarrow> enrollState \<Rightarrow> bool" where
  "usedToken k st \<longleftrightarrow> (case findRecord k (fst st) of None \<Rightarrow> False | Some t \<Rightarrow> etUsedAt t \<noteq> None)"

lemma enroll_Inr:
  assumes "enroll hashf hex4 env token pub name st = (Inr sysID, st')"
  obtains t where "findRecord (hashf (trimSpace token)) (fst st) = Some t" "etUsedAt t = None"
    "enNow env \<le> etExpiresAt t" "sysID = enNewID env" "findRecord sysID (snd st) = None"
    "st' = (saveRecord (hashf (trimSpace token)) (t\<lparr>etUsedAt := Some (enNow env)\<rparr>) (fst st),
            saveRecord sysID (enrolledSystem hex4 name pub) (snd st))"
proof -
  obtain ts ss where st: "st = (ts, ss)" by force
  obtain kt where kt: "enrollCheck hashf env token pub ts = Inr kt"
    using assms st by (auto simp: enroll_def split: sum.splits)
  then obtain t where t: "kt = (hashf (trimSpace token), t)" "findRecord (hashf (trimSpace token)) ts = Some t"
    "etUsedAt t = None" "\<not> etExpiresAt t < enNow env"
    by (auto simp: enrollCheck_def Let_def split: if_splits option.splits)
  from assms st kt t have "enSave env (enNewID env) \<and> findRecord (enNewID env) ss = None \<and> enSave env (fst kt)"
    by (auto simp: enroll_def enrollCommit_def split: if_splits)
  with assms st kt t that show ?thesis by (auto simp: enroll_def enrollCommit_def)
qed

lemma enroll_Inl: "enroll hashf hex4 env token pub name st = (Inl e, st') \<Longrightarrow> st' = st"
  by (cases st) (auto simp: enroll_def enrollCommit_def split: sum.splits if_splits)

lemma enrollStep_used:
  assumes "usedToken k st" "enrollStep hashf hex4 env op st = (r, st')"
  shows "usedToken k st'"
proof (cases op)
  case (Mint user raw)
  with assms show ?thesis
    by (auto simp: usedToken_def mintToken_def Let_def coll.find_save split: option.splits if_splits prod.splits)
next
  case (Redeem token pub name)
  show ?thesis
  proof (cases r)
    case (Inl e)
    with Redeem assms enroll_Inl show ?thesis by (metis enrollStep.simps(2))
  next
    case (Inr sysID)
    with Redeem assms(2) have "enroll hashf hex4 env token pub name st = (Inr sysID, st')" by simp
    from enroll_Inr [OF this] obtain t where
      "st' = (saveRecord (hashf (trimSpace token)) (t\<lparr>etUsedAt := Some (enNow env)\<rparr>) (fst st),
              saveRecord sysID (enrolledSystem hex4 name pub) (snd st))" by metis
    with assms(1) show ?thesis by (simp add: usedToken_def coll.find_save)
  qed
qed

lemma redemptions_unused:
  "usedToken k st \<Longrightarrow> k \<notin> fst ` set (redemptions hashf hex4 ops st)"
proof (induction ops arbitrary: st)
  case (Cons x ops)
  obtain env op where x: "x = (env, op)" by force
  obtain r st' where s: "enrollStep hashf hex4 env op st = (r, st')"
    by (cases "enrollStep hashf hex4 env op st") blast
  from enrollStep_used [OF Cons.prems s] Cons.IH
  have rest: "k \<notin> fst ` set (redemptions hashf hex4 ops st')" by blast
  show ?case
  proof (cases "\<exists>token pub name sysID. op = Redeem token pub name \<and> r = Inr sysID")
    case True
    then obtain token pub name sysID where o: "op = Redeem token pub name" "r = Inr sysID" by blast
    with s have "enroll hashf hex4 env token pub name st = (Inr sysID, st')" by simp
    from enroll_Inr [OF this] obtain t where
      "findRecord (hashf (trimSpace token)) (fst st) = Some t" "etUsedAt t = None" by metis
    with Cons.prems have "hashf (trimSpace token) \<noteq> k" by (auto simp: usedToken_def)
    with rest x s o show ?thesis by (auto simp: Let_def)
  next
    case False
    then have "redemption hashf env op r st = []" by (cases op; cases r) auto
    with rest x s show ?thesis by simp
  qed
qed simp

text \<open>C39: An enrollment token enrolls at most one system. Whatever tokens are minted and however often
  they are presented, one request after the other, the successful redemptions are for different
  tokens, each before the expiry of its token.\<close>

theorem token_enrolls_once:
  "distinct (map fst (redemptions hashf hex4 ops st))
   \<and> list_all (\<lambda>(_, _, now, expires). now \<le> expires) (redemptions hashf hex4 ops st)"
proof (induction ops arbitrary: st)
  case (Cons x ops)
  obtain env op where x: "x = (env, op)" by force
  obtain r st' where s: "enrollStep hashf hex4 env op st = (r, st')"
    by (cases "enrollStep hashf hex4 env op st") blast
  show ?case
  proof (cases "\<exists>token pub name sysID. op = Redeem token pub name \<and> r = Inr sysID")
    case True
    then obtain token pub name sysID where o: "op = Redeem token pub name" "r = Inr sysID" by blast
    with s have e: "enroll hashf hex4 env token pub name st = (Inr sysID, st')" by simp
    let ?k = "hashf (trimSpace token)"
    obtain t where t: "findRecord ?k (fst st) = Some t" "enNow env \<le> etExpiresAt t"
      and st': "st' = (saveRecord ?k (t\<lparr>etUsedAt := Some (enNow env)\<rparr>) (fst st),
            saveRecord sysID (enrolledSystem hex4 name pub) (snd st))"
      using enroll_Inr [OF e] by metis
    have "usedToken ?k st'" by (simp add: usedToken_def st' coll.find_saved)
    then have "?k \<notin> fst ` set (redemptions hashf hex4 ops st')" by (rule redemptions_unused)
    with Cons.IH [of st'] x s o t show ?thesis by (simp add: Let_def)
  next
    case False
    then have "redemption hashf env op r st = []" by (cases op; cases r) auto
    with Cons.IH x s show ?thesis by simp
  qed
qed simp

text \<open>
  The check and the transaction are separate steps: two requests that both pass the check before
  either commits enroll two systems with one token.
\<close>

lemma token_race_enrolls_two:
  "let env1 = sampleEnv 5 ''s1''; env2 = sampleEnv 6 ''s2'';
       ts = snd (mintToken id (sampleEnv 1 []) (Some ''u1'') ''tok'' []);
       c1 = enrollCheck id env1 ''bbe_tok'' keyB64 ts; c2 = enrollCheck id env2 ''bbe_tok'' keyB64 ts
   in case (c1, c2) of
        (Inr kt1, Inr kt2) \<Rightarrow>
          (case enrollCommit env1 kt1 sampleSystem (ts, []) of (r1, st1) \<Rightarrow>
           case enrollCommit env2 kt2 sampleSystem st1 of (r2, st2) \<Rightarrow>
             r1 = Inr ''s1'' \<and> r2 = Inr ''s2'' \<and> map fst (snd st2) = [''s1'', ''s2''])
      | _ \<Rightarrow> False"
  by code_simp

text \<open>The same holds of the first user: two requests that both see no user create two.\<close>

lemma setup_race_creates_two:
  "setupCheck [] = None \<and>
   snd (setupCreate True (Some (''b@x'', ''p'')) (snd (setupCreate True (Some (''a@x'', ''p'')) []))) = [''a@x'', ''b@x'']"
  by (simp add: setupCheck_def setupCreate_def)

lemma setupFirstUser_once:
  "users \<noteq> [] \<Longrightarrow> setupFirstUser ok body users = (Some (Forbidden ''setup already completed''), users)"
  by (simp add: setupFirstUser_def setupCheck_def)

subsection \<open>The end of a command\<close>

lemma updateCommand_find:
  "findRecord i (huCommands (snd (updateCommand env k r h))) =
     (if enSave env k \<and> i = k then Some (r\<lparr>coUpdated := enNow env\<rparr>) else findRecord i (huCommands h))"
  by (simp add: updateCommand_def coll.find_save)

definition timedOut :: "'f hubEnv \<Rightarrow> CommandRec \<Rightarrow> CommandRec" where
  "timedOut env r = r\<lparr>coStatus := ''timeout'', coError := ''agent did not complete the command in time'',
     coUpdated := enNow env\<rparr>"

lemma sweepOnes_find:
  assumes "\<And>k. enSave env k" "distinct (map fst xs)"
  shows "findRecord i (huCommands (fold (sweepOne env) xs h)) =
    (case map_of xs i of Some r \<Rightarrow> Some (timedOut env r) | None \<Rightarrow> findRecord i (huCommands h))"
  using assms(2)
proof (induction xs arbitrary: h)
  case (Cons x xs)
  obtain k r where x: "x = (k, r)" by force
  have one: "findRecord i (huCommands (sweepOne env x h)) =
      (if i = k then Some (timedOut env r) else findRecord i (huCommands h))"
    using assms(1) by (simp add: sweepOne_def updateCommand_find x timedOut_def)
  show ?case
  proof (cases "i = k")
    case True
    with Cons.prems x have "map_of xs i = None" by (simp add: map_of_eq_None_iff)
    with Cons x one True show ?thesis by simp
  next
    case False
    with Cons x one show ?thesis by (simp split: option.split)
  qed
qed simp

lemma map_of_filter_Some:
  "distinct (map fst xs) \<Longrightarrow> map_of (filter P xs) i = (case map_of xs i of None \<Rightarrow> None | Some r \<Rightarrow> if P (i, r) then Some r else None)"
proof (induction xs)
  case (Cons x xs)
  obtain k r where "x = (k, r)" by force
  with Cons show ?case by (auto simp: map_of_eq_None_iff split: option.split)
qed simp

text \<open>The sweeper times out the commands nobody answers, and only those. With at most two hundred of them,
  a pass marks every command that has been dispatched or acknowledged and not updated for a
  minute as timed out, with an error; every other command, in particular every finished one,
  is left exactly as it is.\<close>

theorem sweep_times_out_stale:
  assumes "\<And>k. enSave env k" "distinct (map fst (huCommands h))"
    and "length (filter (isStale (enNow env - dispatchTimeout)) (huCommands h)) \<le> 200"
  shows "findRecord i (huCommands (sweep env h)) =
    (case findRecord i (huCommands h) of
       None \<Rightarrow> None
     | Some r \<Rightarrow> if isStale (enNow env - dispatchTimeout) (i, r) then Some (timedOut env r) else Some r)"
proof -
  let ?P = "isStale (enNow env - dispatchTimeout)"
  have take: "take 200 (filter ?P (huCommands h)) = filter ?P (huCommands h)" using assms(3) by simp
  have "distinct (map fst (filter ?P (huCommands h)))" using assms(2) by (rule distinct_map_filter)
  from sweepOnes_find [OF assms(1) this, of i h] show ?thesis
    unfolding sweep_def take map_of_filter_Some [OF assms(2)] findRecord_def
    by (auto split: option.split)
qed

definition sampleCommand :: "string \<Rightarrow> int \<Rightarrow> CommandRec" where
  "sampleCommand st t = \<lparr>coApp = ''a1'', coSystem = ''s1'', coVerb = VerbStart, coStatus = st,
     coRequestedBy = ''u1'', coResult = None, coError = [], coUpdated = t\<rparr>"

theorem sweep_times_out_stale_witness:
  "let h = webHub\<lparr>huCommands := [(''c1'', sampleCommand ''acked'' 0), (''c2'', sampleCommand ''done'' 0)]\<rparr>;
       env = sampleEnv (61 * second) ''x''
   in map_option coStatus (findRecord ''c1'' (huCommands (sweep env h))) = Some ''timeout''
      \<and> findRecord ''c2'' (huCommands (sweep env h)) = Some (sampleCommand ''done'' 0)"
proof -
  let ?h = "webHub\<lparr>huCommands := [(''c1'', sampleCommand ''acked'' 0), (''c2'', sampleCommand ''done'' 0)]\<rparr>"
  let ?env = "sampleEnv (61 * second) ''x''"
  have s: "enSave ?env k" for k by (simp add: sampleEnv_def)
  have d: "distinct (map fst (huCommands ?h))" by simp
  have l: "length (filter (isStale (enNow ?env - dispatchTimeout)) (huCommands ?h)) \<le> 200" by simp
  note ex = sweep_times_out_stale [OF s d l]
  show ?thesis
    unfolding Let_def ex by (simp add: findRecord_def isStale_def sampleCommand_def sampleEnv_def
        dispatchTimeout_def second_def timedOut_def)
qed

text \<open>
  A store that writes the fields changed since the record was loaded: the status set by the
  dispatch hook ends up in the record whatever has happened to it in between.
\<close>

definition writesChanges :: "'f hubEnv \<Rightarrow> bool" where
  "writesChanges env \<longleftrightarrow> (\<forall>l c s. coStatus l \<noteq> coStatus c \<longrightarrow> coStatus (enMergeCommand env l c s) = coStatus c)"

text \<open>A fast answer is lost. The dispatch hook saves its outcome after the command has been sent; if
  the agent acknowledges and answers in between, the saved outcome overwrites the answer's
  status, the command is shown as dispatched, and a minute later the sweeper turns a command
  that succeeded into a timeout.\<close>

theorem fast_answer_times_out:
  assumes "findRecord cid (huCommands h) = Some r" "coStatus r = ''pending''" "crCmdID res = cid" "crOK res"
    and "dispatchCommand env cid r h = (None, h1)"
    and "\<And>k. enSave env k" "writesChanges env" "\<And>k. enSave env2 k"
    and "distinct (map fst (huCommands h))" "length (huCommands h) \<le> 200" "enNow env + dispatchTimeout < enNow env2"
  defines "h2 \<equiv> snd (onCmdResult env res (snd (onCmdAck env cid h1)))"
  shows "map_option coStatus (findRecord cid (huCommands h2)) = Some ''done''
    \<and> map_option coStatus (findRecord cid (huCommands (saveDispatched env cid r None h2))) = Some ''dispatched''
    \<and> map_option coStatus (findRecord cid (huCommands (sweep env2 (saveDispatched env cid r None h2))))
        = Some ''timeout''"
proof -
  have h1: "huCommands h1 = huCommands h"
    using assms(5) by (auto simp: dispatchCommand_def Dispatch_def connSend_def Let_def split: option.splits if_splits)
  let ?ha = "snd (onCmdAck env cid h1)"
  have ack: "findRecord cid (huCommands ?ha) = Some (r\<lparr>coStatus := ''acked'', coUpdated := enNow env\<rparr>)"
    using assms(1,6) by (simp add: onCmdAck_def h1 updateCommand_find)
  obtain r2 where r2: "findRecord cid (huCommands h2) = Some r2" "coStatus r2 = ''done''"
    using assms(3,4,6) ack by (simp add: h2_def onCmdResult_def updateCommand_find)
  let ?h3 = "saveDispatched env cid r None h2"
  have r3: "findRecord cid (huCommands ?h3) =
      Some ((enMergeCommand env r (r\<lparr>coStatus := ''dispatched''\<rparr>) r2)\<lparr>coUpdated := enNow env\<rparr>)"
    using r2 assms(6) by (simp add: saveDispatched_def updateCommand_find dispatched_def)
  have st: "coStatus (enMergeCommand env r (r\<lparr>coStatus := ''dispatched''\<rparr>) r2) = ''dispatched''"
    using assms(2,7) by (simp add: writesChanges_def)
  have ids: "map fst (huCommands (snd (updateCommand env k x g))) = map fst (huCommands g)"
    if "findRecord k (huCommands g) \<noteq> None" for k x and g :: "'a hub"
    using that coll.ids_find [of k "huCommands g"] by (simp add: updateCommand_def saveRecord_ids)
  have "map fst (huCommands ?h3) = map fst (huCommands h)"
  proof -
    have "map fst (huCommands ?h3) = map fst (huCommands h2)"
      using r2 by (simp add: saveDispatched_def ids)
    also have "\<dots> = map fst (huCommands ?ha)"
      using ack assms(3) by (simp add: h2_def onCmdResult_def ids)
    also have "\<dots> = map fst (huCommands h)"
      using assms(1) by (simp add: onCmdAck_def h1 ids)
    finally show ?thesis .
  qed
  then have keys: "map fst (huCommands ?h3) = map fst (huCommands h)" .
  have d: "distinct (map fst (huCommands ?h3))" unfolding keys by (rule assms(9))
  have l: "length (huCommands ?h3) \<le> 200" using assms(10) arg_cong [OF keys, of length] by simp
  have "findRecord cid (huCommands (sweep env2 ?h3)) =
      (case map_of (filter (isStale (enNow env2 - dispatchTimeout)) (huCommands ?h3)) cid of
         Some r \<Rightarrow> Some (timedOut env2 r) | None \<Rightarrow> findRecord cid (huCommands ?h3))"
  proof -
    have "length (filter (isStale (enNow env2 - dispatchTimeout)) (huCommands ?h3)) \<le> 200"
      using l length_filter_le [of "isStale (enNow env2 - dispatchTimeout)" "huCommands ?h3"] by linarith
    then show ?thesis
      unfolding sweep_def by (simp add: sweepOnes_find [OF assms(8) distinct_map_filter [OF d]])
  qed
  moreover have "isStale (enNow env2 - dispatchTimeout)
      (cid, (enMergeCommand env r (r\<lparr>coStatus := ''dispatched''\<rparr>) r2)\<lparr>coUpdated := enNow env\<rparr>)"
    using st assms(11) by (simp add: isStale_def)
  ultimately have "map_option coStatus (findRecord cid (huCommands (sweep env2 ?h3))) = Some ''timeout''"
    using r3 by (simp add: map_of_filter_Some [OF d] findRecord_def timedOut_def)
  with r2 r3 st show ?thesis by simp
qed

theorem fast_answer_times_out_witness:
  "let h = webHub\<lparr>huCommands := [(''c1'', sampleCommand ''pending'' 0)]\<rparr>; r = sampleCommand ''pending'' 0;
       env = sampleEnv 5 ''x''; env2 = sampleEnv (61 * second) ''x'';
       h1 = snd (dispatchCommand env ''c1'' r h);
       h2 = snd (onCmdResult env \<lparr>crCmdID = ''c1'', crOK = True, crError = []\<rparr> (snd (onCmdAck env ''c1'' h1)))
   in map_option coStatus (findRecord ''c1'' (huCommands h2)) = Some ''done''
      \<and> map_option coStatus (findRecord ''c1'' (huCommands (sweep env2 (saveDispatched env ''c1'' r None h2))))
          = Some ''timeout''"
proof -
  let ?h = "webHub\<lparr>huCommands := [(''c1'', sampleCommand ''pending'' 0)]\<rparr>"
  let ?r = "sampleCommand ''pending'' 0"
  let ?env = "sampleEnv 5 ''x''" and ?env2 = "sampleEnv (61 * second) ''x''"
  let ?res = "\<lparr>crCmdID = ''c1'', crOK = True, crError = []\<rparr>"
  have f: "findRecord ''c1'' (huCommands ?h) = Some ?r" by (simp add: findRecord_def)
  have p: "coStatus ?r = ''pending''" by (simp add: sampleCommand_def)
  have "fst (dispatchCommand ?env ''c1'' ?r ?h) = None" by code_simp
  then have d: "dispatchCommand ?env ''c1'' ?r ?h = (None, snd (dispatchCommand ?env ''c1'' ?r ?h))"
    by (metis prod.collapse)
  have s: "enSave (sampleEnv t n) k" for t n k by (simp add: sampleEnv_def)
  have w: "writesChanges ?env" by (simp add: writesChanges_def sampleEnv_def)
  have a: "crCmdID ?res = ''c1''" "crOK ?res" by simp_all
  have b: "distinct (map fst (huCommands ?h))" "length (huCommands ?h) \<le> 200" by simp_all
  have t: "enNow ?env + dispatchTimeout < enNow ?env2"
    by (simp add: sampleEnv_def dispatchTimeout_def second_def)
  from fast_answer_times_out [OF f p a d s w s b t] show ?thesis unfolding Let_def by blast
qed

subsection \<open>Editing a definition\<close>

text \<open>An edit takes effect only after the host approves it. When a client saves a definition with another
  hash for an existing application, its record carries the new definition and hash and is
  pending, a command request for it is refused without any effect, and the agent of the named
  system is sent the full state.\<close>

theorem edit_needs_new_approval:
  assumes "findRecord appID (huApps h) = Some r" "appID \<noteq> []" "Validate (withDefaults def) = []"
    and "findRecord sysID (huSystems h) \<noteq> None" "enSave env appID"
    and "enHash env (withDefaults def) \<noteq> arHash r"
  defines "h1 \<equiv> snd (saveApp env True sysID appID def h)"
  shows "findRecord appID (huApps h1) = Some (withDefinition (withDefaults def) (enHash env (withDefaults def))
      (r\<lparr>arApproval := ApprovalPending\<rparr>))
    \<and> (ValidVerb (verbOf t) \<longrightarrow> requestCommand env2 user appID t h1
        = (Inl (BadRequest ''app definition is not approved on its host yet''), h1))"
proof -
  have "huApps h1 = huApps (snd (updateApp env appID (editedApp env (withDefaults def) r) h))"
    using assms(1-4) by (auto simp: h1_def saveApp_def Let_def)
  then have f: "findRecord appID (huApps h1) = Some (withDefinition (withDefaults def) (enHash env (withDefaults def))
      (r\<lparr>arApproval := ApprovalPending\<rparr>))"
    using assms(5,6) by (simp add: updateApp_find editedApp_def)
  then have "createCommand env2 user appID t h1
      = (Inl (BadRequest ''app definition is not approved on its host yet''), h1)" if "ValidVerb (verbOf t)"
    using that by (simp add: createCommand_def Let_def withDefinition_def)
  with f show ?thesis by (simp add: requestCommand_def)
qed

theorem edit_needs_new_approval_witness:
  "let def = webDef\<lparr>defName := ''web2''\<rparr>;
       h1 = snd (saveApp (sampleEnv 9 ''x'') True ''s1'' ''a1'' def webHub)
   in map_option arApproval (findRecord ''a1'' (huApps h1)) = Some ApprovalPending
      \<and> requestCommand (sampleEnv 10 ''c1'') None ''a1'' ''start'' h1
        = (Inl (BadRequest ''app definition is not approved on its host yet''), h1)"
proof -
  let ?def = "webDef\<lparr>defName := ''web2''\<rparr>" and ?env = "sampleEnv 9 ''x''"
  have f: "findRecord ''a1'' (huApps webHub) = Some webApp" by (simp add: webHub_def findRecord_def)
  have v: "Validate (withDefaults ?def) = []" by code_simp
  have s: "findRecord ''s1'' (huSystems webHub) \<noteq> None" by code_simp
  have h: "enHash ?env (withDefaults ?def) \<noteq> arHash webApp" by code_simp
  have "enSave ?env ''a1''" by (simp add: sampleEnv_def)
  from edit_needs_new_approval [OF f _ v s this h, of "''start''" "sampleEnv 10 ''c1''" None]
  show ?thesis by (simp add: Let_def verbOf_def withDefinition_def)
qed

text \<open>The system a client names is not compared with the application's own: editing an
  application of one system while naming another saves the definition and pushes the full
  state to the agent of the named system; the agent that runs the application is sent nothing.\<close>

theorem edit_pushes_to_named_system:
  assumes "findRecord appID (huApps h) = Some r" "appID \<noteq> []" "Validate (withDefaults def) = []"
    and "findRecord sysID (huSystems h) \<noteq> None" "enSave env appID"
    and "huConns h sysID = Some c" "huConns h (arSystem r) = Some c'" "c \<noteq> c'"
  defines "h1 \<equiv> snd (saveApp env True sysID appID def h)"
  shows "arSystem (the (findRecord appID (huApps h1))) = arSystem r
    \<and> filter (\<lambda>(k, _). k = c') (huWire h1) = filter (\<lambda>(k, _). k = c') (huWire h)"
proof -
  let ?u = "snd (updateApp env appID (editedApp env (withDefaults def) r) h)"
  have h1: "h1 = SyncSystem env sysID ?u"
    using assms(1-5) by (auto simp: h1_def saveApp_def Let_def afterSave_def updateApp_def)
  then have "findRecord appID (huApps h1) = Some (editedApp env (withDefaults def) r)"
    using assms(5) by (simp add: updateApp_find)
  moreover have "filter (\<lambda>(k, _). k = c') (huWire h1) = filter (\<lambda>(k, _). k = c') (huWire h)"
    using assms(6,8) by (simp add: h1 SyncSystem_def sendAppSync_def connSend_def)
  ultimately show ?thesis by (simp add: editedApp_def withDefinition_def)
qed

theorem edit_pushes_to_named_system_witness:
  "let h = connOpen (sampleEnv 6 ''x'') 2 ''s2'' sampleSystem (webHub\<lparr>huSystems := (''s2'', sampleSystem) # huSystems webHub\<rparr>);
       h1 = snd (saveApp (sampleEnv 9 ''x'') True ''s2'' ''a1'' (webDef\<lparr>defName := ''web2''\<rparr>) h)
   in arSystem (the (findRecord ''a1'' (huApps h1))) = ''s1'' \<and> length (huWire h1) = 1
      \<and> filter (\<lambda>(k, _). k = 1) (huWire h1) = []"
proof -
  let ?h = "connOpen (sampleEnv 6 ''x'') 2 ''s2'' sampleSystem (webHub\<lparr>huSystems := (''s2'', sampleSystem) # huSystems webHub\<rparr>)"
  let ?def = "webDef\<lparr>defName := ''web2''\<rparr>" and ?env = "sampleEnv 9 ''x''"
  have f: "findRecord ''a1'' (huApps ?h) = Some webApp" by (simp add: webHub_def findRecord_def)
  have v: "Validate (withDefaults ?def) = []" by code_simp
  have s: "findRecord ''s2'' (huSystems ?h) \<noteq> None" by code_simp
  have sv: "enSave ?env ''a1''" by (simp add: sampleEnv_def)
  have c: "huConns ?h ''s2'' = Some 2" by code_simp
  have c': "huConns ?h (arSystem webApp) = Some 1" by code_simp
  have w: "huWire ?h = []" by code_simp
  have l: "length (huWire (snd (saveApp ?env True ''s2'' ''a1'' ?def ?h))) = 1" by code_simp
  have "(2::nat) \<noteq> 1" by simp
  from edit_pushes_to_named_system [OF f _ v s sv c c' this] l w show ?thesis
    by (simp add: Let_def webApp_def)
qed

end
