(* ===== verification/WireFrames.thy ===== *)
theory WireFrames
  imports Wire HubPlane
begin

text \<open>
  Frames as bytes: the type and the payload each side sends, and the dispatch on the type with which
  the other side reads them (\<^verbatim>\<open>handleFrame\<close> of the daemon and of the hub).
\<close>

subsection \<open>What the hub sends and the agent reads\<close>

definition encHelloAck :: "int \<Rightarrow> Json" where
  "encHelloAck ts = structJson [[(''server_time_ms'', intJson ts), (''min_supported_protocol'', intJson Version)]]"

fun hubPayload :: "int \<Rightarrow> HubFrame \<Rightarrow> (string \<times> Json) option" where
  "hubPayload ts HHelloAck = Some (''hello_ack'', encHelloAck ts)"
| "hubPayload ts (HAppSync (Some specs)) = Some (''app_sync'', encSync specs)"
| "hubPayload ts (HCmd (Some cmd)) = Some (''cmd'', encCmd cmd)"
| "hubPayload ts (HLogFollow (Some r)) = Some (''log_follow'', encFollow r)"
| "hubPayload ts (HLogCancel (Some s)) = Some (''log_cancel'', encOne ''stream_id'' s)"
| "hubPayload ts _ = None"

definition hubBytes :: "int \<Rightarrow> HubFrame \<Rightarrow> string option" where
  "hubBytes ts f = map_option (\<lambda>(t, p). frameBytes ts t p) (hubPayload ts f)"

definition hubFrameOf :: "Envelope \<Rightarrow> HubFrame" where
  "hubFrameOf e =
     (if envT e = ''hello_ack'' then HHelloAck
      else if envT e = ''app_sync'' then HAppSync (readPayload [] (structDec syncFields) (envD e))
      else if envT e = ''cmd'' then HCmd (readPayload zeroCmd (structDec cmdFields) (envD e))
      else if envT e = ''log_follow'' then HLogFollow (readPayload ('''', '''', 0) (structDec followFields) (envD e))
      else if envT e = ''log_cancel'' then HLogCancel (readPayload '''' (structDec (oneFields ''stream_id'')) (envD e))
      else if envT e = ''ping'' then HPing
      else HUnknown (envT e))"

definition readHubFrame :: "string \<Rightarrow> HubFrame option" where
  "readHubFrame b = map_option hubFrameOf (readEnvelope b)"

fun okHubFrame :: "HubFrame \<Rightarrow> bool" where
  "okHubFrame HHelloAck \<longleftrightarrow> True"
| "okHubFrame (HAppSync (Some specs)) \<longleftrightarrow> list_all okSpec specs"
| "okHubFrame (HCmd (Some cmd)) \<longleftrightarrow> okCmd cmd"
| "okHubFrame (HLogFollow (Some r)) \<longleftrightarrow> okFollow r"
| "okHubFrame (HLogCancel (Some s)) \<longleftrightarrow> validUtf8 s"
| "okHubFrame _ \<longleftrightarrow> False"

subsection \<open>What the agent sends and the hub reads\<close>

text \<open>
  \<open>me\<close> holds what a hello says of the host. Metrics carry floating-point numbers; their decoder is a
  parameter.
\<close>

fun agentPayload :: "Hello \<Rightarrow> AgentFrame \<Rightarrow> string \<times> Json" where
  "agentPayload me (FHello digest caps) = (''hello'', encHello (me\<lparr>heCapabilities := caps, heApps := digest\<rparr>))"
| "agentPayload me (FAppEvent ev) = (''app_event'', encEvent ev)"
| "agentPayload me (FCmdAck cid) = (''cmd_ack'', encOne ''cmd_id'' cid)"
| "agentPayload me (FCmdResult r) = (''cmd_result'', encResult r)"
| "agentPayload me (FLogChunk c) = (''log_chunk'', encChunk c)"
| "agentPayload me (FTokenUsageBatch rows) = (''token_usage_batch'', encBatch rows)"
| "agentPayload me (FApprovalEvent ev) = (''approval_event'', encApproval ev)"
| "agentPayload me (FAppRegister d) = (''app_register'', encRegister d)"

definition agentBytes :: "Hello \<Rightarrow> int \<Rightarrow> AgentFrame \<Rightarrow> string" where
  "agentBytes me ts f = (case agentPayload me f of (t, p) \<Rightarrow> frameBytes ts t p)"

definition msgOf :: "('a \<Rightarrow> 'f agentMsg) \<Rightarrow> 'a option \<Rightarrow> 'f agentMsg" where
  "msgOf f p = (case p of None \<Rightarrow> ABad | Some x \<Rightarrow> f x)"

definition agentMsgOf :: "'f MetricsBatch \<Rightarrow> 'f MetricsBatch decoder \<Rightarrow> Envelope \<Rightarrow> 'f agentMsg" where
  "agentMsgOf zeroMetrics metricsDec e =
     (if envT e = ''hello'' then
        msgOf (\<lambda>he. AFrame (FHello (heApps he) (heCapabilities he))) (readPayload zeroHello (structDec helloFields) (envD e))
      else if envT e = ''metrics'' then msgOf AMetrics (readPayload zeroMetrics metricsDec (envD e))
      else if envT e = ''app_event'' then
        msgOf (AFrame \<circ> FAppEvent) (readPayload zeroEvent (structDec eventFields) (envD e))
      else if envT e = ''cmd_ack'' then
        msgOf (AFrame \<circ> FCmdAck) (readPayload '''' (structDec (oneFields ''cmd_id'')) (envD e))
      else if envT e = ''cmd_result'' then
        msgOf (AFrame \<circ> FCmdResult) (readPayload zeroResult (structDec resultFields) (envD e))
      else if envT e = ''app_register'' then
        msgOf (AFrame \<circ> FAppRegister) (readPayload zeroDefinition (structDec registerFields) (envD e))
      else if envT e = ''token_usage_batch'' then
        msgOf (AFrame \<circ> FTokenUsageBatch) (readPayload [] (structDec batchFields) (envD e))
      else if envT e = ''log_chunk'' then
        msgOf (AFrame \<circ> FLogChunk) (readPayload zeroChunk (structDec chunkFields) (envD e))
      else if envT e = ''approval_event'' then
        msgOf (AFrame \<circ> FApprovalEvent) (readPayload zeroApproval (structDec approvalFields) (envD e))
      else AUnknown)"

definition readAgentMsg :: "'f MetricsBatch \<Rightarrow> 'f MetricsBatch decoder \<Rightarrow> string \<Rightarrow> 'f agentMsg option" where
  "readAgentMsg zeroMetrics metricsDec b = map_option (agentMsgOf zeroMetrics metricsDec) (readEnvelope b)"

fun okAgentFrame :: "Hello \<Rightarrow> AgentFrame \<Rightarrow> bool" where
  "okAgentFrame me (FHello digest caps) \<longleftrightarrow> okHello (me\<lparr>heCapabilities := caps, heApps := digest\<rparr>)"
| "okAgentFrame me (FAppEvent ev) \<longleftrightarrow> okEvent ev"
| "okAgentFrame me (FCmdAck cid) \<longleftrightarrow> validUtf8 cid"
| "okAgentFrame me (FCmdResult r) \<longleftrightarrow> okResult r"
| "okAgentFrame me (FLogChunk c) \<longleftrightarrow> okChunk c"
| "okAgentFrame me (FTokenUsageBatch rows) \<longleftrightarrow> list_all okRow rows"
| "okAgentFrame me (FApprovalEvent ev) \<longleftrightarrow> okApproval ev"
| "okAgentFrame me (FAppRegister d) \<longleftrightarrow> okDefinition d"

subsection \<open>What is sent is what is read\<close>

lemma frame_types: "list_all plainKey [''hello_ack'', ''app_sync'', ''cmd'', ''log_follow'', ''log_cancel'', ''hello'',
    ''app_event'', ''cmd_ack'', ''cmd_result'', ''log_chunk'', ''token_usage_batch'', ''approval_event'', ''app_register'']"
  by code_simp

lemmas valid_types = frame_types [unfolded list.pred_inject] plainKey_valid

lemmas payloads = sync_codec.payload cmd_codec.payload follow_codec.payload cancel_codec.payload
  hello_codec.payload event_codec.payload ack_codec.payload result_codec.payload chunk_codec.payload
  batch_codec.payload approval_codec.payload register_codec.payload

lemmas wf_payloads = sync_codec.wf_enc cmd_codec.wf_enc follow_codec.wf_enc cancel_codec.wf_enc
  hello_codec.wf_enc event_codec.wf_enc ack_codec.wf_enc result_codec.wf_enc chunk_codec.wf_enc
  batch_codec.wf_enc approval_codec.wf_enc register_codec.wf_enc

lemma hub_frame_read:
  assumes "okHubFrame f" "in64 ts"
  shows "\<exists>b. hubBytes ts f = Some b \<and> readHubFrame b = Some f"
proof -
  have ack: "wfJson 9 (encHelloAck ts)" by (simp add: encHelloAck_def wf_codec plain_keys)
  obtain t p where tp: "hubPayload ts f = Some (t, p)" and v: "validUtf8 t" and w: "wfJson 9 p"
    and r: "hubFrameOf \<lparr>envV = Version, envT = t, envID = '''', envTS = ts, envD = Some p\<rparr> = f"
    using assms(1) ack
    by (cases f rule: okHubFrame.cases) (simp_all add: valid_types wf_payloads payloads hubFrameOf_def)
  with readEnvelope_frameBytes [OF assms(2) v w] show ?thesis
    by (simp add: hubBytes_def readHubFrame_def)
qed

lemma agent_frame_read:
  assumes "okAgentFrame me f" "in64 ts"
  shows "readAgentMsg zeroMetrics metricsDec (agentBytes me ts f) = Some (AFrame f)"
proof -
  obtain t p where tp: "agentPayload me f = (t, p)" by (cases "agentPayload me f")
  have "validUtf8 t \<and> wfJson 9 p
      \<and> agentMsgOf zeroMetrics metricsDec \<lparr>envV = Version, envT = t, envID = '''', envTS = ts, envD = Some p\<rparr> = AFrame f"
    using assms(1) tp
    by (cases f; simp add: agentMsgOf_def msgOf_def; elim conjE; hypsubst?; simp add: valid_types wf_payloads payloads)
  with readEnvelope_frameBytes [OF assms(2), of t p] tp show ?thesis
    by (simp add: agentBytes_def readAgentMsg_def)
qed


definition wireCmd :: Cmd where
  "wireCmd = \<lparr>cmdID = ''c'', cmdAppID = ''a'', cmdVerb = VerbStop, cmdDefinitionHash = ''h''\<rparr>"


end
