(* ===== verification/TokenProxy.thy ===== *)
theory TokenProxy
  imports Wire
begin

text \<open>
  The runtime metering proxy (\<^verbatim>\<open>agent/internal/tokenproxy\<close>): usage parsers for whole JSON bodies and
  for event streams, and the handler that forwards a request to the provider and tees the usage out of
  the response. The parsers take the response in the pieces in which the network delivers it.
\<close>

subsection \<open>Usage objects\<close>

record anthropicUsage =
  auInput :: int
  auOutput :: int
  auCacheCreation :: int
  auCacheRead :: int

definition zeroAnthropic :: anthropicUsage where
  "zeroAnthropic = \<lparr>auInput = 0, auOutput = 0, auCacheCreation = 0, auCacheRead = 0\<rparr>"

definition anthropicFields :: "anthropicUsage field list" where
  "anthropicFields =
     [fld ''input_tokens'' auInput auInput_update intDec,
      fld ''output_tokens'' auOutput auOutput_update intDec,
      fld ''cache_creation_input_tokens'' auCacheCreation auCacheCreation_update intDec,
      fld ''cache_read_input_tokens'' auCacheRead auCacheRead_update intDec]"

record openaiUsage =
  ouPrompt :: int
  ouCompletion :: int
  ouInput :: int
  ouOutput :: int
  ouPromptCached :: int
  ouInputCached :: int

definition zeroOpenai :: openaiUsage where
  "zeroOpenai = \<lparr>ouPrompt = 0, ouCompletion = 0, ouInput = 0, ouOutput = 0, ouPromptCached = 0, ouInputCached = 0\<rparr>"

definition cachedFields :: "int field list" where
  "cachedFields = [fld ''cached_tokens'' (\<lambda>s. s) (\<lambda>f. f) intDec]"

definition openaiFields :: "openaiUsage field list" where
  "openaiFields =
     [fld ''prompt_tokens'' ouPrompt ouPrompt_update intDec,
      fld ''completion_tokens'' ouCompletion ouCompletion_update intDec,
      fld ''input_tokens'' ouInput ouInput_update intDec,
      fld ''output_tokens'' ouOutput ouOutput_update intDec,
      fld ''prompt_tokens_details'' ouPromptCached ouPromptCached_update (structDec cachedFields),
      fld ''input_tokens_details'' ouInputCached ouInputCached_update (structDec cachedFields)]"

definition anthropicRow :: "string \<Rightarrow> string \<Rightarrow> anthropicUsage \<Rightarrow> TokenUsageRow" where
  "anthropicRow i model u = zeroRow
     \<lparr>turDedupKey := ''proxy:'' @ i, turModel := model, turInputTokens := auInput u, turOutputTokens := auOutput u,
      turCacheCreationTokens := auCacheCreation u, turCacheReadTokens := auCacheRead u\<rparr>"

definition orElse :: "int \<Rightarrow> int \<Rightarrow> int" where
  "orElse a b = (if a = 0 then b else a)"

definition openaiRow :: "string \<Rightarrow> string \<Rightarrow> openaiUsage \<Rightarrow> TokenUsageRow" where
  "openaiRow i model u =
     (let cached = orElse (ouPromptCached u) (ouInputCached u) in zeroRow
     \<lparr>turDedupKey := ''proxy:'' @ i, turModel := model,
      turInputTokens := wrap64 (orElse (ouPrompt u) (ouInput u) - cached),
      turCacheReadTokens := cached, turOutputTokens := orElse (ouCompletion u) (ouOutput u)\<rparr>)"

subsection \<open>Whole bodies\<close>

definition maxJSONBody :: int where
  "maxJSONBody = 16777216"

record jsonParser =
  jpProvider :: string
  jpBuf :: string

definition newJSONParser :: "string \<Rightarrow> jsonParser" where
  "newJSONParser provider = \<lparr>jpProvider = provider, jpBuf = []\<rparr>"

definition jsonFeed :: "jsonParser \<Rightarrow> string \<Rightarrow> jsonParser" where
  "jsonFeed p b = (if int (length (jpBuf p)) < maxJSONBody then p\<lparr>jpBuf := jpBuf p @ b\<rparr> else p)"

record 'u usageBody =
  ubID :: string
  ubModel :: string
  ubUsage :: "'u option"

definition emptyBody :: "'u usageBody" where
  "emptyBody = \<lparr>ubID = '''', ubModel = '''', ubUsage = None\<rparr>"

definition bodyFields :: "'u \<Rightarrow> 'u field list \<Rightarrow> 'u usageBody field list" where
  "bodyFields zero fs =
     [fld ''id'' ubID ubID_update strDec, fld ''model'' ubModel ubModel_update strDec,
      fld ''usage'' ubUsage ubUsage_update (ptrDec zero (structDec fs))]"

definition readBody :: "'u \<Rightarrow> 'u field list \<Rightarrow> string \<Rightarrow> 'u usageBody option" where
  "readBody zero fs b =
     (let (x, ok) = unmarshal emptyBody (structDec (bodyFields zero fs)) b in if ok then Some x else None)"

definition bodyRow :: "(string \<Rightarrow> string \<Rightarrow> 'u \<Rightarrow> TokenUsageRow) \<Rightarrow> 'u usageBody option \<Rightarrow> TokenUsageRow option" where
  "bodyRow mk p =
     (case p of None \<Rightarrow> None | Some x \<Rightarrow> map_option (mk (ubID x) (ubModel x)) (ubUsage x))"

definition jsonResult :: "jsonParser \<Rightarrow> TokenUsageRow option" where
  "jsonResult p =
     (if jpProvider p = ''anthropic'' then bodyRow anthropicRow (readBody zeroAnthropic anthropicFields (jpBuf p))
      else if jpProvider p = ''openai'' then bodyRow openaiRow (readBody zeroOpenai openaiFields (jpBuf p))
      else None)"

subsection \<open>Event streams\<close>

record sseParser =
  spProvider :: string
  spPartial :: string
  spRow :: TokenUsageRow
  spSawUsage :: bool

definition newSSEParser :: "string \<Rightarrow> sseParser" where
  "newSSEParser provider = \<lparr>spProvider = provider, spPartial = [], spRow = zeroRow, spSawUsage = False\<rparr>"

text \<open>An Anthropic event: its type, the message of a start, the usage of a delta.\<close>

record anthropicEvent =
  anType :: string
  anMessage :: "anthropicUsage usageBody option"
  anUsage :: "anthropicUsage option"

definition anthropicEventFields :: "anthropicEvent field list" where
  "anthropicEventFields =
     [fld ''type'' anType anType_update strDec,
      fld ''message'' anMessage anMessage_update
        (ptrDec emptyBody (structDec (bodyFields zeroAnthropic anthropicFields))),
      fld ''usage'' anUsage anUsage_update (ptrDec zeroAnthropic (structDec anthropicFields))]"

definition readAnthropicEvent :: "string \<Rightarrow> anthropicEvent option" where
  "readAnthropicEvent b =
     (let (x, ok) = unmarshal \<lparr>anType = '''', anMessage = None, anUsage = None\<rparr> (structDec anthropicEventFields) b
      in if ok then Some x else None)"

definition anthropicStep :: "anthropicEvent \<Rightarrow> sseParser \<Rightarrow> sseParser" where
  "anthropicStep ev p =
     (if anType ev = ''message_start'' then
        (case anMessage ev of
           None \<Rightarrow> p
         | Some m \<Rightarrow>
             let p1 = p\<lparr>spRow := (spRow p)\<lparr>turDedupKey := ''proxy:'' @ ubID m, turModel := ubModel m\<rparr>\<rparr>
             in case ubUsage m of
                  None \<Rightarrow> p1
                | Some u \<Rightarrow>
                    p1\<lparr>spRow := (spRow p1)
                         \<lparr>turInputTokens := auInput u, turCacheCreationTokens := auCacheCreation u,
                          turCacheReadTokens := auCacheRead u, turOutputTokens := auOutput u\<rparr>,
                       spSawUsage := True\<rparr>)
      else if anType ev = ''message_delta'' then
        (case anUsage ev of
           None \<Rightarrow> p
         | Some u \<Rightarrow>
             if 0 < auOutput u then p\<lparr>spRow := (spRow p)\<lparr>turOutputTokens := auOutput u\<rparr>, spSawUsage := True\<rparr>
             else p)
      else p)"

definition openaiNamed :: "openaiUsage usageBody \<Rightarrow> TokenUsageRow \<Rightarrow> TokenUsageRow" where
  "openaiNamed c r0 =
     (let r1 = (if ubID c \<noteq> '''' \<and> turDedupKey r0 = '''' then r0\<lparr>turDedupKey := ''proxy:'' @ ubID c\<rparr> else r0)
      in if ubModel c \<noteq> '''' then r1\<lparr>turModel := ubModel c\<rparr> else r1)"

definition openaiStep :: "openaiUsage usageBody \<Rightarrow> sseParser \<Rightarrow> sseParser" where
  "openaiStep c p =
     (let r = openaiNamed c (spRow p)
      in case ubUsage c of
           None \<Rightarrow> p\<lparr>spRow := r\<rparr>
         | Some u \<Rightarrow>
             let v = openaiRow (ubID c) (ubModel c) u
             in p\<lparr>spRow := r\<lparr>turInputTokens := turInputTokens v, turCacheReadTokens := turCacheReadTokens v,
                              turOutputTokens := turOutputTokens v\<rparr>,
                  spSawUsage := True\<rparr>)"

definition consumeEvent :: "string \<Rightarrow> sseParser \<Rightarrow> sseParser" where
  "consumeEvent data p =
     (if spProvider p = ''anthropic'' then
        (case readAnthropicEvent data of None \<Rightarrow> p | Some ev \<Rightarrow> anthropicStep ev p)
      else if spProvider p = ''openai'' then
        (case readBody zeroOpenai openaiFields data of None \<Rightarrow> p | Some c \<Rightarrow> openaiStep c p)
      else p)"

text \<open>A complete line of the stream: only \<^verbatim>\<open>data:\<close> lines count.\<close>

definition lineData :: "string \<Rightarrow> string option" where
  "lineData line0 =
     (let line = trimSuffix line0 [CHR 0x0D] in
      if \<not> hasPrefix line ''data:'' then None
      else let data = trimSpace (trimPrefix line ''data:'') in
           if data = '''' \<or> data = ''[DONE]'' then None else Some data)"

definition consumeLine :: "string \<Rightarrow> sseParser \<Rightarrow> sseParser" where
  "consumeLine line p = (case lineData line of None \<Rightarrow> p | Some data \<Rightarrow> consumeEvent data p)"

definition sseFeed :: "sseParser \<Rightarrow> string \<Rightarrow> sseParser" where
  "sseFeed p b =
     (let (partial, lines) = lineFeed (spPartial p) b in fold consumeLine lines (p\<lparr>spPartial := partial\<rparr>))"

definition sseResult :: "sseParser \<Rightarrow> TokenUsageRow option" where
  "sseResult p = (if \<not> spSawUsage p \<or> turDedupKey (spRow p) = '''' then None else Some (spRow p))"

subsection \<open>The pieces in which the stream arrives do not matter\<close>

lemma anthropicStep_partial: "anthropicStep ev (p\<lparr>spPartial := q\<rparr>) = (anthropicStep ev p)\<lparr>spPartial := q\<rparr>"
proof (cases "anType ev = ''message_start''")
  case True
  then show ?thesis by (simp add: anthropicStep_def Let_def split: option.split)
next
  case False
  then show ?thesis by (simp add: anthropicStep_def split: option.split)
qed

lemma openaiStep_partial: "openaiStep c (p\<lparr>spPartial := q\<rparr>) = (openaiStep c p)\<lparr>spPartial := q\<rparr>"
  by (simp add: openaiStep_def Let_def split: option.split)

lemma consumeEvent_partial: "consumeEvent data (p\<lparr>spPartial := q\<rparr>) = (consumeEvent data p)\<lparr>spPartial := q\<rparr>"
  by (simp add: consumeEvent_def anthropicStep_partial openaiStep_partial split: option.split)

lemma consumeLine_partial: "consumeLine l (p\<lparr>spPartial := q\<rparr>) = (consumeLine l p)\<lparr>spPartial := q\<rparr>"
  by (simp add: consumeLine_def consumeEvent_partial split: option.split)

lemma fold_consume_partial:
  "fold consumeLine ls (p\<lparr>spPartial := q\<rparr>) = (fold consumeLine ls p)\<lparr>spPartial := q\<rparr>"
  by (induction ls arbitrary: p) (simp_all add: consumeLine_partial)

lemma sseFeed_eq:
  "sseFeed p b = (fold consumeLine (snd (lineFeed (spPartial p) b)) p)\<lparr>spPartial := fst (lineFeed (spPartial p) b)\<rparr>"
  by (simp add: sseFeed_def fold_consume_partial split: prod.split)

lemma sseFeed_append: "sseFeed p (a @ b) = sseFeed (sseFeed p a) b"
proof -
  let ?q = "fst (lineFeed (spPartial p) a)"
  have "sseFeed (sseFeed p a) b
      = (fold consumeLine (snd (lineFeed ?q b)) (fold consumeLine (snd (lineFeed (spPartial p) a)) p))
          \<lparr>spPartial := fst (lineFeed ?q b)\<rparr>"
    by (simp add: sseFeed_eq [of "sseFeed p a"]) (simp add: sseFeed_eq fold_consume_partial)
  then show ?thesis by (simp add: sseFeed_eq [of p "a @ b"] lineFeed_append [of _ a b])
qed

lemma sseFeed_chunks:
  "CHR 0x0A \<notin> set (spPartial p) \<Longrightarrow> foldl sseFeed p cs = sseFeed p (concat cs)"
proof (induction cs arbitrary: p)
  case Nil
  then show ?case by (simp add: sseFeed_eq lineFeed_Nil)
next
  case (Cons c cs)
  have "CHR 0x0A \<notin> set (spPartial (sseFeed p c))" by (simp add: sseFeed_eq lineFeed_partial_free)
  from Cons.IH [OF this] show ?case by (simp add: sseFeed_append)
qed

lemma jsonFeed_chunks:
  assumes "int (length (jpBuf p @ concat cs)) \<le> maxJSONBody"
  shows "foldl jsonFeed p cs = p\<lparr>jpBuf := jpBuf p @ concat cs\<rparr>"
  using assms
proof (induction cs arbitrary: p)
  case (Cons c cs)
  have step: "jsonFeed p c = p\<lparr>jpBuf := jpBuf p @ c\<rparr>"
  proof (cases "int (length (jpBuf p)) < maxJSONBody")
    case False
    have "0 \<le> int (length c)" "0 \<le> int (length (concat cs))" by simp_all
    moreover have "int (length (jpBuf p)) + (int (length c) + int (length (concat cs))) \<le> maxJSONBody"
      using Cons.prems by simp
    ultimately have "int (length c) = 0" using False by linarith
    then have "c = []" by simp
    then show ?thesis by (simp add: jsonFeed_def)
  qed (simp add: jsonFeed_def)
  show ?case using Cons.IH [of "jsonFeed p c"] Cons.prems by (simp add: step)
qed simp

subsection \<open>The request sent upstream\<close>

text \<open>
  \<^verbatim>\<open>ensureIncludeUsage\<close> decodes the body into a map of any values and marshals the map again. A
  decoded number is a \<^verbatim>\<open>float64\<close>: \<open>num\<close> gives the literal that is written for the number nearest to
  a literal, or nothing when it is out of range. A repeated member keeps its last value, and members
  are written in the order of their names.
\<close>

type_synonym headers = "(string \<times> string list) list"

fun anyVal :: "(string \<Rightarrow> string option) \<Rightarrow> Json \<Rightarrow> Json option"
and anyElems :: "(string \<Rightarrow> string option) \<Rightarrow> Json list \<Rightarrow> Json list option"
and anyMembers :: "(string \<Rightarrow> string option) \<Rightarrow> (string \<times> Json) list \<Rightarrow> (string \<times> Json) list \<Rightarrow> (string \<times> Json) list option"
where
  "anyVal num JNull = Some JNull"
| "anyVal num (JBool b) = Some (JBool b)"
| "anyVal num (JNum l) = map_option JNum (num l)"
| "anyVal num (JStr s) = Some (JStr s)"
| "anyVal num (JArr vs) = map_option JArr (anyElems num vs)"
| "anyVal num (JObj ms) = map_option (JObj \<circ> sort_key fst) (anyMembers num ms [])"
| "anyElems num [] = Some []"
| "anyElems num (v # vs) =
     (case (anyVal num v, anyElems num vs) of (Some x, Some xs) \<Rightarrow> Some (x # xs) | _ \<Rightarrow> None)"
| "anyMembers num [] acc = Some acc"
| "anyMembers num ((k, v) # ms) acc =
     (case anyVal num v of None \<Rightarrow> None | Some x \<Rightarrow> anyMembers num ms (putEntry k x acc))"

definition setMember :: "string \<Rightarrow> Json \<Rightarrow> (string \<times> Json) list \<Rightarrow> (string \<times> Json) list" where
  "setMember k v m = sort_key fst (putEntry k v m)"

definition streamOptions :: "(string \<times> Json) list \<Rightarrow> (string \<times> Json) list" where
  "streamOptions m = (case map_of m ''stream_options'' of Some (JObj so) \<Rightarrow> so | _ \<Rightarrow> [])"

definition ensureIncludeUsage :: "(string \<Rightarrow> string option) \<Rightarrow> string \<Rightarrow> string" where
  "ensureIncludeUsage num body =
     (case readJson body of
        Some (JObj ms) \<Rightarrow>
          (case anyVal num (JObj ms) of
             Some (JObj m) \<Rightarrow>
               if map_of m ''stream'' \<noteq> Some (JBool True) then body
               else let so = streamOptions m in
                    if map_of so ''include_usage'' \<noteq> None then body
                    else writeJson (JObj (setMember ''stream_options''
                           (JObj (setMember ''include_usage'' (JBool True) so)) m))
           | _ \<Rightarrow> body)
      | _ \<Rightarrow> body)"

subsection \<open>The handler\<close>

record proxyRequest =
  rqMethod :: string
  rqPath :: string
  rqQuery :: string
  rqHeader :: headers
  rqBody :: "string option"

record upstreamRequest =
  urMethod :: string
  urURL :: string
  urHost :: string
  urHeader :: headers
  urBody :: string

record upstreamResponse =
  rsStatus :: int
  rsHeader :: headers
  rsChunks :: "string list"

datatype proxyReply = HttpError int string | Relayed int headers "string list"

text \<open>
  The upstream of a provider: the override of its environment variable (a URL with a host), else the
  built-in one.
\<close>

definition upstreamFor :: "(string \<Rightarrow> (string \<times> string) option) \<Rightarrow> string \<Rightarrow> (string \<times> string) option" where
  "upstreamFor override provider =
     (case override provider of
        Some u \<Rightarrow> Some u
      | None \<Rightarrow> if provider = ''anthropic'' then Some (''https'', ''api.anthropic.com'')
                else if provider = ''openai'' then Some (''https'', ''api.openai.com'')
                else None)"

text \<open>\<^verbatim>\<open>strings.SplitN(path, "/", 3)\<close> after the prefix: app, provider and the rest.\<close>

definition proxyPath :: "string \<Rightarrow> (string \<times> string \<times> string) option" where
  "proxyPath path =
     (case splitOn CHR ''/'' (trimPrefix path ''/t/'') of
        a # p # r # rs \<Rightarrow> Some (a, p, CHR ''/'' # joinWith ''/'' (r # rs))
      | _ \<Rightarrow> None)"

datatype usageParser = NoParser | PJson jsonParser | PSSE sseParser

definition contentType :: "headers \<Rightarrow> string" where
  "contentType hs = (case map_of hs ''Content-Type'' of Some (v # _) \<Rightarrow> v | _ \<Rightarrow> [])"

definition parserFor :: "string \<Rightarrow> upstreamResponse \<Rightarrow> usageParser" where
  "parserFor provider rs =
     (if rsStatus rs \<ge> 300 then NoParser
      else if hasPrefix (contentType (rsHeader rs)) ''text/event-stream'' then PSSE (newSSEParser provider)
      else if hasPrefix (contentType (rsHeader rs)) ''application/json'' then PJson (newJSONParser provider)
      else NoParser)"

fun feedAll :: "usageParser \<Rightarrow> string list \<Rightarrow> usageParser" where
  "feedAll NoParser cs = NoParser"
| "feedAll (PJson p) cs = PJson (foldl jsonFeed p cs)"
| "feedAll (PSSE p) cs = PSSE (foldl sseFeed p cs)"

fun parsedRow :: "usageParser \<Rightarrow> TokenUsageRow option" where
  "parsedRow NoParser = None"
| "parsedRow (PJson p) = jsonResult p"
| "parsedRow (PSSE p) = sseResult p"

definition maxRequestBody :: int where
  "maxRequestBody = 67108864"

text \<open>
  One request. \<open>buildOK\<close> says whether the upstream request can be built, \<open>fetch\<close> is the provider's
  answer and \<open>writes\<close> the number of pieces the client takes before it goes away. The result is the
  reply, the request that was sent and the rows that were emitted.
\<close>

record proxyEnv =
  peOverride :: "string \<Rightarrow> (string \<times> string) option"
  peNum :: "string \<Rightarrow> string option"
  peBuildOK :: "upstreamRequest \<Rightarrow> bool"
  peFetch :: "upstreamRequest \<Rightarrow> string + upstreamResponse"
  peWrites :: nat
  peNowMS :: int

definition relay :: "proxyEnv \<Rightarrow> string \<Rightarrow> string \<Rightarrow> upstreamResponse \<Rightarrow> proxyReply \<times> TokenUsageRow list" where
  "relay env appID provider rs =
     (let fed = take (peWrites env + 1) (rsChunks rs);
          rows = (case parsedRow (feedAll (parserFor provider rs) fed) of
                    None \<Rightarrow> []
                  | Some row \<Rightarrow> [row\<lparr>turAppID := appID, turSource := ''runtime_proxy'', turOccurredAtMS := peNowMS env\<rparr>])
      in (Relayed (rsStatus rs) (rsHeader rs) (take (peWrites env) (rsChunks rs)), rows))"

definition upstreamRequestOf :: "proxyEnv \<Rightarrow> string \<Rightarrow> string \<times> string \<Rightarrow> string \<Rightarrow> string \<Rightarrow> proxyRequest \<Rightarrow> upstreamRequest" where
  "upstreamRequestOf env provider up rest b rq =
     (let limited = (if int (length b) \<le> maxRequestBody then b else take (nat maxRequestBody) b)
      in \<lparr>urMethod = rqMethod rq,
          urURL = fst up @ ''://'' @ snd up @ rest @ (if rqQuery rq \<noteq> '''' then CHR ''?'' # rqQuery rq else []),
          urHost = snd up,
          urHeader = filter (\<lambda>h. fst h \<noteq> ''Accept-Encoding'') (rqHeader rq),
          urBody = (if provider = ''openai'' \<and> rqMethod rq = ''POST'' then ensureIncludeUsage (peNum env) limited else limited)\<rparr>)"

definition handle :: "proxyEnv \<Rightarrow> proxyRequest \<Rightarrow> proxyReply \<times> upstreamRequest option \<times> TokenUsageRow list" where
  "handle env rq =
     (case proxyPath (rqPath rq) of
        None \<Rightarrow> (HttpError 404 ''breakerbox token proxy: bad path'', None, [])
      | Some (appID, provider, rest) \<Rightarrow>
          (case upstreamFor (peOverride env) provider of
             None \<Rightarrow> (HttpError 404 ''breakerbox token proxy: unknown provider'', None, [])
           | Some up \<Rightarrow>
               (case rqBody rq of
                  None \<Rightarrow> (HttpError 502 ''read body'', None, [])
                | Some b \<Rightarrow>
                    (let ur = upstreamRequestOf env provider up rest b rq in
                     if \<not> peBuildOK env ur then (HttpError 502 ''build upstream request'', None, [])
                     else (case peFetch env ur of
                             Inl e \<Rightarrow> (HttpError 502 (''upstream unreachable: '' @ e), Some ur, [])
                           | Inr rs \<Rightarrow> (let (reply, rows) = relay env appID provider rs in (reply, Some ur, rows)))))))"

subsection \<open>Metering does not depend on the delivery\<close>

lemma feedAll_chunks:
  assumes "concat cs = concat ds" "int (length (concat cs)) \<le> maxJSONBody"
  shows "feedAll (parserFor provider rs) cs = feedAll (parserFor provider rs) ds"
proof -
  have "foldl sseFeed (newSSEParser provider) cs = foldl sseFeed (newSSEParser provider) ds"
    using assms(1) by (simp add: sseFeed_chunks newSSEParser_def)
  moreover have "foldl jsonFeed (newJSONParser provider) cs = foldl jsonFeed (newJSONParser provider) ds"
    using assms jsonFeed_chunks [of "newJSONParser provider" cs] jsonFeed_chunks [of "newJSONParser provider" ds]
    by (simp add: newJSONParser_def)
  ultimately show ?thesis by (simp add: parserFor_def)
qed


definition quote :: string where
  "quote = [CHR 0x22]"

definition usageText :: string where
  "usageText = ''data: {\"type\":\"message_start\",\"message\":{\"id\":\"m1\",\"model\":\"x\",\"usage\":{\"input_tokens\":3}}}''
     @ [CHR 0x0A] @ ''data: {\"type\":\"message_delta\",\"usage\":{\"output_tokens\":17}}'' @ [CHR 0x0A]"

definition usageResponse :: "string list \<Rightarrow> upstreamResponse" where
  "usageResponse cs = \<lparr>rsStatus = 200, rsHeader = [(''Content-Type'', [''text/event-stream''])], rsChunks = cs\<rparr>"

definition sampleProxyEnv :: proxyEnv where
  "sampleProxyEnv = \<lparr>peOverride = \<lambda>_. None, peNum = Some, peBuildOK = \<lambda>_. True, peFetch = \<lambda>_. Inr (usageResponse [usageText]),
     peWrites = 5, peNowMS = 9\<rparr>"


subsection \<open>The usage of an Anthropic stream\<close>

definition streamEvents :: "string \<Rightarrow> anthropicEvent list" where
  "streamEvents body = concat (map (\<lambda>l. case lineData l of None \<Rightarrow> []
     | Some data \<Rightarrow> (case readAnthropicEvent data of None \<Rightarrow> [] | Some ev \<Rightarrow> [ev])) (snd (lineFeed [] body)))"

lemma consumeLine_anthropic:
  assumes "spProvider p = ''anthropic''"
  shows "consumeLine l p = fold anthropicStep (case lineData l of None \<Rightarrow> []
     | Some data \<Rightarrow> (case readAnthropicEvent data of None \<Rightarrow> [] | Some ev \<Rightarrow> [ev])) p"
  using assms by (simp add: consumeLine_def consumeEvent_def split: option.split)

lemma anthropicStep_provider: "spProvider (anthropicStep ev p) = spProvider p"
  by (simp add: anthropicStep_def Let_def split: option.split)

lemma fold_anthropic_provider: "spProvider (fold anthropicStep evs p) = spProvider p"
  by (induction evs arbitrary: p) (simp_all add: anthropicStep_provider)

lemma fold_consume_anthropic:
  "spProvider p = ''anthropic'' \<Longrightarrow>
   fold consumeLine ls p = fold anthropicStep (concat (map (\<lambda>l. case lineData l of None \<Rightarrow> []
     | Some data \<Rightarrow> (case readAnthropicEvent data of None \<Rightarrow> [] | Some ev \<Rightarrow> [ev])) ls)) p"
  by (induction ls arbitrary: p) (simp_all add: consumeLine_anthropic fold_anthropic_provider)

text \<open>The output counts of the deltas: only a positive count counts, and the last one wins.\<close>

definition deltaOutputs :: "anthropicEvent list \<Rightarrow> int list" where
  "deltaOutputs evs = concat (map (\<lambda>ev. if anType ev = ''message_delta'' then
      (case anUsage ev of None \<Rightarrow> [] | Some u \<Rightarrow> if 0 < auOutput u then [auOutput u] else []) else []) evs)"

lemma deltas_fold:
  "list_all (\<lambda>ev. anType ev \<noteq> ''message_start'') evs \<Longrightarrow>
   spRow (fold anthropicStep evs p) = (spRow p)\<lparr>turOutputTokens := last (turOutputTokens (spRow p) # deltaOutputs evs)\<rparr>
   \<and> spSawUsage (fold anthropicStep evs p) = (spSawUsage p \<or> deltaOutputs evs \<noteq> [])"
proof (induction evs arbitrary: p)
  case Nil
  then show ?case by (simp add: deltaOutputs_def)
next
  case (Cons ev evs)
  then have n: "anType ev \<noteq> ''message_start''" and rest: "list_all (\<lambda>ev. anType ev \<noteq> ''message_start'') evs" by simp_all
  show ?case
  proof (cases "\<exists>u. anType ev = ''message_delta'' \<and> anUsage ev = Some u \<and> 0 < auOutput u")
    case True
    then obtain u where u: "anType ev = ''message_delta''" "anUsage ev = Some u" "0 < auOutput u" by blast
    then have "deltaOutputs (ev # evs) = auOutput u # deltaOutputs evs" by (simp add: deltaOutputs_def)
    with Cons.IH [OF rest] u show ?thesis by (simp add: anthropicStep_def)
  next
    case False
    then have "anthropicStep ev p = p" "deltaOutputs (ev # evs) = deltaOutputs evs"
      using n by (auto simp: anthropicStep_def deltaOutputs_def split: option.split)
    with Cons.IH [OF rest] show ?thesis by simp
  qed
qed

text \<open>C40: The row metered from an Anthropic stream. When the stream opens with the start of a message
  that carries its usage, and no second message starts, the row has the id and the model of the
  message, its input and cache counts, and as output the last positive cumulative count of the
  deltas, or the count of the start when no delta has one.\<close>

theorem anthropic_stream_metered:
  assumes "streamEvents (concat cs) = start # deltas"
    and "anType start = ''message_start''" "anMessage start = Some m" "ubUsage m = Some u"
    and "list_all (\<lambda>ev. anType ev \<noteq> ''message_start'') deltas"
  shows "sseResult (foldl sseFeed (newSSEParser ''anthropic'') cs)
    = Some ((anthropicRow (ubID m) (ubModel m) u)\<lparr>turOutputTokens := last (auOutput u # deltaOutputs deltas)\<rparr>)"
proof -
  let ?p = "newSSEParser ''anthropic''"
  have prov: "spProvider ?p = ''anthropic''" "spPartial ?p = []" by (simp_all add: newSSEParser_def)
  have f: "foldl sseFeed ?p cs = (fold anthropicStep (start # deltas) ?p)\<lparr>spPartial := fst (lineFeed [] (concat cs))\<rparr>"
    using assms(1) prov fold_consume_anthropic [OF prov(1)]
    by (simp add: sseFeed_chunks sseFeed_eq streamEvents_def)
  let ?q = "anthropicStep start ?p"
  have q: "spRow ?q = anthropicRow (ubID m) (ubModel m) u" "spSawUsage ?q"
    using assms(2-4) by (simp_all add: anthropicStep_def newSSEParser_def anthropicRow_def zeroRow_def)
  have k: "turDedupKey (anthropicRow (ubID m) (ubModel m) u) \<noteq> ''''" by (simp add: anthropicRow_def)
  from deltas_fold [OF assms(5), of ?q] q k show ?thesis
    unfolding f by (simp add: sseResult_def anthropicRow_def)
qed

theorem anthropic_stream_metered_witness:
  "\<exists>start deltas. streamEvents usageText = start # deltas \<and> deltaOutputs deltas = [17]
     \<and> map_option turOutputTokens (sseResult (foldl sseFeed (newSSEParser ''anthropic'') [usageText])) = Some 17"
proof -
  have e: "map (\<lambda>ev. (anType ev, anMessage ev \<noteq> None)) (streamEvents usageText)
      = [(''message_start'', True), (''message_delta'', False)]" by code_simp
  have m: "map_option (\<lambda>m. ubUsage m \<noteq> None) (anMessage (hd (streamEvents usageText))) = Some True" by code_simp
  have d: "deltaOutputs (tl (streamEvents usageText)) = [17]" by code_simp
  from e obtain s ds where evs: "streamEvents usageText = s # ds" and t: "anType s = ''message_start''"
      "map (\<lambda>ev. (anType ev, anMessage ev \<noteq> None)) ds = [(''message_delta'', False)]"
    by (auto simp: map_eq_Cons_conv)
  then have nd: "list_all (\<lambda>ev. anType ev \<noteq> ''message_start'') ds" by (auto simp: map_eq_Cons_conv)
  from m evs obtain mm u where mu: "anMessage s = Some mm" "ubUsage mm = Some u" by auto
  have "streamEvents (concat [usageText]) = s # ds" using evs by simp
  from anthropic_stream_metered [OF this t(1) mu nd] d evs show ?thesis by auto
qed

subsection \<open>Asking for the usage\<close>

text \<open>What the program relies on in the printing of floats: it is a literal, and reads back as itself.\<close>

definition numOK :: "(string \<Rightarrow> string option) \<Rightarrow> bool" where
  "numOK num \<longleftrightarrow> (\<forall>l l'. num l = Some l' \<longrightarrow> numLit l' \<and> num l' = Some l')"

lemma map_of_sort_key:
  assumes "distinct (map fst m)" shows "map_of (sort_key fst m) = map_of m"
proof
  fix k
  have d: "distinct (map fst (sort_key fst m))" using assms by (simp add: distinct_map)
  show "map_of (sort_key fst m) k = map_of m k"
  proof (cases "map_of m k")
    case None
    then have "k \<notin> fst ` set m" by (simp add: map_of_eq_None_iff)
    then have "map_of (sort_key fst m) k = None" by (simp add: map_of_eq_None_iff)
    with None show ?thesis by simp
  next
    case (Some v)
    then have "(k, v) \<in> set (sort_key fst m)" by (simp add: map_of_SomeD)
    with d Some show ?thesis by simp
  qed
qed

lemma map_of_setMember: "distinct (map fst m) \<Longrightarrow> map_of (setMember k v m) k' = (if k' = k then Some v else map_of m k')"
  by (simp add: setMember_def map_of_sort_key distinct_putEntry map_of_putEntry)

lemma wfMembers_set: "wfMembers d ms \<longleftrightarrow> (\<forall>e \<in> set ms. validUtf8 (fst e) \<and> wfJson d (snd e))"
  by (induction ms) auto

lemma wf_putEntry: "wfMembers d m \<Longrightarrow> validUtf8 k \<Longrightarrow> wfJson d v \<Longrightarrow> wfMembers d (putEntry k v m)"
  by (induction m) auto

lemma wf_setMember: "wfMembers d m \<Longrightarrow> validUtf8 k \<Longrightarrow> wfJson d v \<Longrightarrow> wfMembers d (setMember k v m)"
  using wf_putEntry [of d m k v] by (simp add: wfMembers_set setMember_def)

lemma anyVal_wf:
  "numOK num \<Longrightarrow> anyVal num v = Some x \<Longrightarrow> wfJson d v \<Longrightarrow> wfJson d x"
  "numOK num \<Longrightarrow> anyElems num vs = Some xs \<Longrightarrow> wfElems d vs \<Longrightarrow> wfElems d xs"
  "numOK num \<Longrightarrow> anyMembers num ms acc = Some m \<Longrightarrow> wfMembers d ms \<Longrightarrow> wfMembers d acc \<Longrightarrow> wfMembers d m"
proof (induction num v and num vs and num ms acc arbitrary: d x and d xs and d m rule: anyVal_anyElems_anyMembers.induct)
  case (3 num l)
  then show ?case by (auto simp: numOK_def)
next
  case (6 num ms)
  then obtain m where m: "anyMembers num ms [] = Some m" "x = JObj (sort_key fst m)" by auto
  with "6.IH" [OF "6.prems"(1) m(1), of "d - 1"] "6.prems"(3) show ?case by (simp add: wfMembers_set)
next
  case (8 num v vs)
  then show ?case by (auto split: option.splits)
next
  case (10 num k v ms acc)
  from "10.prems"(2) obtain y where y: "anyVal num v = Some y" "anyMembers num ms (putEntry k y acc) = Some m"
    by (auto split: option.splits)
  have "wfMembers d (putEntry k y acc)"
    using "10.IH"(1) [OF "10.prems"(1) y(1)] "10.prems"(3,4) by (simp add: wf_putEntry)
  with "10.IH"(2) [OF y(1) "10.prems"(1) y(2)] "10.prems"(3) show ?case by simp
qed auto

text \<open>A decoded value decodes to itself: its members are distinct and in order.\<close>

definition settledMembers :: "(string \<Rightarrow> string option) \<Rightarrow> (string \<times> Json) list \<Rightarrow> bool" where
  "settledMembers num m \<longleftrightarrow> distinct (map fst m) \<and> (\<forall>e \<in> set m. anyVal num (snd e) = Some (snd e))"

lemma settled_putEntry: "settledMembers num m \<Longrightarrow> anyVal num v = Some v \<Longrightarrow> settledMembers num (putEntry k v m)"
  by (auto simp: settledMembers_def distinct_putEntry dest!: entry_putEntry)

lemma settled_sort: "settledMembers num m \<Longrightarrow> settledMembers num (sort_key fst m)"
  by (simp add: settledMembers_def distinct_map)

lemma settled_again:
  "settledMembers num (acc @ m) \<Longrightarrow> anyMembers num m acc = Some (acc @ m)"
proof (induction m arbitrary: acc)
  case (Cons e m)
  have "anyVal num (snd e) = Some (snd e)" "fst e \<notin> fst ` set acc"
    using Cons.prems by (auto simp: settledMembers_def)
  with Cons.IH [of "acc @ [e]"] Cons.prems show ?case
    by (cases e) (simp add: putEntry_new)
qed simp

lemma settled_obj: "settledMembers num m \<Longrightarrow> anyVal num (JObj (sort_key fst m)) = Some (JObj (sort_key fst m))"
  using settled_again [of num "[]" "sort_key fst m"] settled_sort [of num m] by (simp add: sort_key_id_if_sorted)

lemma anyVal_settled:
  "numOK num \<Longrightarrow> anyVal num v = Some x \<Longrightarrow> anyVal num x = Some x"
  "numOK num \<Longrightarrow> anyElems num vs = Some xs \<Longrightarrow> anyElems num xs = Some xs"
  "numOK num \<Longrightarrow> anyMembers num ms acc = Some m \<Longrightarrow> settledMembers num acc \<Longrightarrow> settledMembers num m"
proof (induction num v and num vs and num ms acc arbitrary: x and xs and m rule: anyVal_anyElems_anyMembers.induct)
  case (3 num l)
  then show ?case by (auto simp: numOK_def)
next
  case (6 num ms)
  then obtain m where m: "anyMembers num ms [] = Some m" "x = JObj (sort_key fst m)" by auto
  have "settledMembers num m" using "6.IH" [OF "6.prems"(1) m(1)] by (simp add: settledMembers_def)
  with m(2) settled_obj show ?case by blast
next
  case (8 num v vs)
  then show ?case by (auto split: option.splits)
next
  case (10 num k v ms acc)
  from "10.prems"(2) obtain y where y: "anyVal num v = Some y" "anyMembers num ms (putEntry k y acc) = Some m"
    by (auto split: option.splits)
  from "10.IH"(1) [OF "10.prems"(1) y(1)] "10.prems"(3) have "settledMembers num (putEntry k y acc)"
    by (rule settled_putEntry [rotated])
  with "10.IH"(2) [OF y(1) "10.prems"(1) y(2)] show ?case by blast
qed auto

lemma settled_members: "anyVal num (JObj m) = Some (JObj m) \<Longrightarrow> numOK num \<Longrightarrow> settledMembers num m \<and> sort_key fst m = m"
proof -
  assume n: "numOK num" and "anyVal num (JObj m) = Some (JObj m)"
  then obtain m' where m': "anyMembers num m [] = Some m'" "m = sort_key fst m'" by auto
  then have "settledMembers num m'" using anyVal_settled(3) [OF n m'(1)] by (simp add: settledMembers_def)
  with m'(2) show ?thesis by (auto simp: settled_sort intro: sort_key_id_if_sorted)
qed

lemma settled_setMember:
  assumes "settledMembers num m" "anyVal num v = Some v"
  shows "anyVal num (JObj (setMember k v m)) = Some (JObj (setMember k v m))" "distinct (map fst (setMember k v m))"
  using settled_obj [OF settled_putEntry [OF assms]] settled_sort [OF settled_putEntry [OF assms]]
  by (auto simp: setMember_def settledMembers_def)

lemma streamOptions_settled:
  assumes "numOK num" "settledMembers num m" shows "settledMembers num (streamOptions m)"
proof (cases "\<exists>so. map_of m ''stream_options'' = Some (JObj so)")
  case True
  then obtain so where so: "map_of m ''stream_options'' = Some (JObj so)" by blast
  then have "(''stream_options'', JObj so) \<in> set m" by (rule map_of_SomeD)
  with assms(2) have "anyVal num (JObj so) = Some (JObj so)" by (fastforce simp: settledMembers_def)
  with settled_members assms(1) so show ?thesis by (simp add: streamOptions_def)
next
  case False
  then have "streamOptions m = []" by (auto simp: streamOptions_def split: option.split Json.split)
  then show ?thesis by (simp add: settledMembers_def)
qed

lemma streamOptions_wf:
  assumes "wfMembers d m" "1 \<le> d" shows "wfMembers (d - 1) (streamOptions m)"
proof (cases "\<exists>so. map_of m ''stream_options'' = Some (JObj so)")
  case True
  then obtain so where so: "map_of m ''stream_options'' = Some (JObj so)" by blast
  then have "(''stream_options'', JObj so) \<in> set m" by (rule map_of_SomeD)
  with assms(1) have "wfJson d (JObj so)" by (fastforce simp: wfMembers_set)
  with so show ?thesis by (simp add: streamOptions_def)
next
  case False
  then have "streamOptions m = []" by (auto simp: streamOptions_def split: option.split Json.split)
  then show ?thesis by simp
qed

lemma option_keys: "plainKey ''stream_options''" "plainKey ''include_usage''"
  by code_simp+

text \<open>A streaming OpenAI request that does not say whether it wants the usage is rewritten so that
  it does, and nothing else in it changes: read back, the body has every member it had (with its
  numbers as floats), the stream options have every option they had, and the usage is asked for.
  Rewriting the new body again leaves it alone.\<close>

theorem usage_is_requested:
  assumes "numOK num" "readJson body = Some (JObj ms)" "anyVal num (JObj ms) = Some (JObj m)"
    and "map_of m ''stream'' = Some (JBool True)" "map_of (streamOptions m) ''include_usage'' = None"
  shows "\<exists>m'. readJson (ensureIncludeUsage num body) = Some (JObj m')
    \<and> (\<forall>k. k \<noteq> ''stream_options'' \<longrightarrow> map_of m' k = map_of m k)
    \<and> (\<forall>k. k \<noteq> ''include_usage'' \<longrightarrow> map_of (streamOptions m') k = map_of (streamOptions m) k)
    \<and> map_of (streamOptions m') ''include_usage'' = Some (JBool True)
    \<and> ensureIncludeUsage num (ensureIncludeUsage num body) = ensureIncludeUsage num body"
proof -
  have m: "settledMembers num m"
    using settled_members [OF anyVal_settled(1) [OF assms(1,3)] assms(1)] by blast
  let ?so = "setMember ''include_usage'' (JBool True) (streamOptions m)"
  let ?m' = "setMember ''stream_options'' (JObj ?so) m"
  have so: "anyVal num (JObj ?so) = Some (JObj ?so)"
    using settled_setMember(1) [OF streamOptions_settled [OF assms(1) m]] by simp
  note m' = settled_setMember [OF m so]
  have wm: "wfMembers (maxDepth - 1) m"
    using anyVal_wf(1) [OF assms(1,3) readJson_wf [OF assms(2)]] by simp
  have "wfMembers (maxDepth - 2) ?so"
    using streamOptions_wf [OF wm] by (intro wf_setMember) (simp_all add: maxDepth_def option_keys plainKey_valid)
  then have "wfMembers (maxDepth - 1) ?m'"
    using wm by (intro wf_setMember) (simp_all add: maxDepth_def option_keys plainKey_valid)
  then have "wfJson maxDepth (JObj ?m')" by (simp add: maxDepth_def)
  then have r: "readJson (writeJson (JObj ?m')) = Some (JObj ?m')" by (rule readJson_writeJson)
  have e: "ensureIncludeUsage num body = writeJson (JObj ?m')"
    using assms(4,5) by (simp add: ensureIncludeUsage_def Let_def assms(2,3) del: anyVal.simps writeJson.simps)
  have look: "map_of ?m' k = (if k = ''stream_options'' then Some (JObj ?so) else map_of m k)" for k
    using m by (simp add: map_of_setMember settledMembers_def)
  then have opts: "streamOptions ?m' = ?so" by (simp add: streamOptions_def)
  have o: "map_of ?so k = (if k = ''include_usage'' then Some (JBool True) else map_of (streamOptions m) k)" for k
    using streamOptions_settled [OF assms(1) m] by (simp add: map_of_setMember settledMembers_def)
  have "ensureIncludeUsage num (writeJson (JObj ?m')) = writeJson (JObj ?m')"
    using opts o look assms(4) by (simp add: ensureIncludeUsage_def r m'(1) del: anyVal.simps writeJson.simps)
  with r e look opts o show ?thesis by (intro exI [of _ ?m']) simp
qed

definition streamBody :: string where
  "streamBody = ''{\"stream\":true,\"model\":\"x\",\"n\":2}''"

definition litNum :: "string \<Rightarrow> string option" where
  "litNum l = (if numLit l then Some l else None)"

theorem usage_is_requested_witness:
  "ensureIncludeUsage litNum streamBody
     = ''{\"model\":\"x\",\"n\":2,\"stream\":true,\"stream_options\":{\"include_usage\":true}}''
   \<and> ensureIncludeUsage litNum (ensureIncludeUsage litNum streamBody) = ensureIncludeUsage litNum streamBody"
proof -
  let ?ms = "[(''stream'', JBool True), (''model'', JStr ''x''), (''n'', JNum ''2'')]"
  let ?m = "[(''model'', JStr ''x''), (''n'', JNum ''2''), (''stream'', JBool True)]"
  have a: "ensureIncludeUsage litNum streamBody
     = ''{\"model\":\"x\",\"n\":2,\"stream\":true,\"stream_options\":{\"include_usage\":true}}''" by code_simp
  have n: "numOK litNum" by (auto simp: numOK_def litNum_def split: if_splits)
  have r: "readJson streamBody = Some (JObj ?ms)" by code_simp
  have v: "anyVal litNum (JObj ?ms) = Some (JObj ?m)" by code_simp
  have s: "map_of ?m ''stream'' = Some (JBool True)" "map_of (streamOptions ?m) ''include_usage'' = None"
    by (simp_all add: streamOptions_def)
  from usage_is_requested [OF n r v s] a show ?thesis by blast
qed

end
