(* ===== verification/TokenWatch.thy ===== *)
theory TokenWatch
  imports TokenProxy AgentDaemon
begin

text \<open>
  The transcript watcher (\<^verbatim>\<open>agent/internal/tokenwatch\<close>): the parsers of Claude Code and Codex lines, the
  tailing of files from checkpoints, and the batches with their retries. The clock and the reading
  of timestamps are parameters; whether a batch is delivered and whether the checkpoint file is
  written are sequences of outcomes in the state. Beside the program's own state the model keeps
  what was delivered and what the backlog cap dropped.
\<close>

subsection \<open>Claude Code lines\<close>

text \<open>Field names are listed in lower case; \<^verbatim>\<open>sessionId\<close> and \<^verbatim>\<open>requestId\<close> are two of them.\<close>

record claudeLine =
  clType :: string
  clCwd :: string
  clSession :: string
  clRequest :: string
  clTimestamp :: string
  clMessage :: "anthropicUsage usageBody"

definition claudeFields :: "claudeLine field list" where
  "claudeFields =
     [fld ''type'' clType clType_update strDec, fld ''cwd'' clCwd clCwd_update strDec,
      fld ''sessionid'' clSession clSession_update strDec, fld ''requestid'' clRequest clRequest_update strDec,
      fld ''timestamp'' clTimestamp clTimestamp_update strDec,
      fld ''message'' clMessage clMessage_update (structDec (bodyFields zeroAnthropic anthropicFields))]"

definition readClaudeLine :: "string \<Rightarrow> claudeLine option" where
  "readClaudeLine line =
     (let (l, ok) = unmarshal \<lparr>clType = '''', clCwd = '''', clSession = '''', clRequest = '''', clTimestamp = '''',
                       clMessage = emptyBody\<rparr> (structDec claudeFields) line
      in if ok then Some l else None)"

record watchEnv =
  weParseTime :: "string \<Rightarrow> int option"
  weNowMS :: int
  weResolve :: "string \<Rightarrow> string"

definition occurredAt :: "watchEnv \<Rightarrow> string \<Rightarrow> int" where
  "occurredAt env stamp = (case weParseTime env stamp of None \<Rightarrow> weNowMS env | Some t \<Rightarrow> t)"

definition usageEmpty :: "anthropicUsage \<Rightarrow> bool" where
  "usageEmpty u \<longleftrightarrow> auInput u = 0 \<and> auOutput u = 0 \<and> auCacheCreation u = 0 \<and> auCacheRead u = 0"

definition parseClaudeLine :: "watchEnv \<Rightarrow> string \<Rightarrow> TokenUsageRow option" where
  "parseClaudeLine env line =
     (case readClaudeLine line of
        None \<Rightarrow> None
      | Some l \<Rightarrow>
          (case ubUsage (clMessage l) of
             None \<Rightarrow> None
           | Some u \<Rightarrow>
               if clType l \<noteq> ''assistant'' \<or> ubID (clMessage l) = '''' \<or> usageEmpty u then None
               else Some (zeroRow
                 \<lparr>turDedupKey := ubID (clMessage l) @ '':'' @ clRequest l, turSource := ''claude_code'',
                  turModel := ubModel (clMessage l), turInputTokens := auInput u, turOutputTokens := auOutput u,
                  turCacheCreationTokens := auCacheCreation u, turCacheReadTokens := auCacheRead u,
                  turSessionID := clSession l, turOccurredAtMS := occurredAt env (clTimestamp l)\<rparr>)))"

text \<open>The error of this decoding is ignored.\<close>

definition claudeCwd :: "string \<Rightarrow> string" where
  "claudeCwd line = trimSpace (fst (unmarshal '''' (structDec [fld ''cwd'' (\<lambda>s. s) (\<lambda>f. f) strDec]) line))"

subsection \<open>Codex lines\<close>

record codexUsage =
  cuInput :: int
  cuCached :: int
  cuOutput :: int
  cuReasoning :: int
  cuTotal :: int

definition zeroCodexUsage :: codexUsage where
  "zeroCodexUsage = \<lparr>cuInput = 0, cuCached = 0, cuOutput = 0, cuReasoning = 0, cuTotal = 0\<rparr>"

definition codexUsageFields :: "codexUsage field list" where
  "codexUsageFields =
     [fld ''input_tokens'' cuInput cuInput_update intDec, fld ''cached_input_tokens'' cuCached cuCached_update intDec,
      fld ''output_tokens'' cuOutput cuOutput_update intDec,
      fld ''reasoning_output_tokens'' cuReasoning cuReasoning_update intDec,
      fld ''total_tokens'' cuTotal cuTotal_update intDec]"

record codexInfo =
  ciTotal :: "codexUsage option"
  ciLast :: "codexUsage option"
  ciContext :: string

definition codexInfoFields :: "codexInfo field list" where
  "codexInfoFields =
     [fld ''total_token_usage'' ciTotal ciTotal_update (ptrDec zeroCodexUsage (structDec codexUsageFields)),
      fld ''last_token_usage'' ciLast ciLast_update (ptrDec zeroCodexUsage (structDec codexUsageFields)),
      fld ''model_context_window'' ciContext ciContext_update strDec]"

record codexPayload =
  cpType :: string
  cpID :: string
  cpCwd :: string
  cpInfo :: "codexInfo option"
  cpModel :: string

definition codexPayloadFields :: "codexPayload field list" where
  "codexPayloadFields =
     [fld ''type'' cpType cpType_update strDec, fld ''id'' cpID cpID_update strDec, fld ''cwd'' cpCwd cpCwd_update strDec,
      fld ''info'' cpInfo cpInfo_update
        (ptrDec \<lparr>ciTotal = None, ciLast = None, ciContext = ''''\<rparr> (structDec codexInfoFields)),
      fld ''model'' cpModel cpModel_update strDec]"

record codexLine =
  cxType :: string
  cxTimestamp :: string
  cxPayload :: codexPayload

definition codexFields :: "codexLine field list" where
  "codexFields =
     [fld ''type'' cxType cxType_update strDec, fld ''timestamp'' cxTimestamp cxTimestamp_update strDec,
      fld ''payload'' cxPayload cxPayload_update (structDec codexPayloadFields)]"

definition readCodexLine :: "string \<Rightarrow> codexLine option" where
  "readCodexLine line =
     (let (l, ok) = unmarshal \<lparr>cxType = '''', cxTimestamp = '''',
                       cxPayload = \<lparr>cpType = '''', cpID = '''', cpCwd = '''', cpInfo = None, cpModel = ''''\<rparr>\<rparr>
                     (structDec codexFields) line
      in if ok then Some l else None)"

record codexState =
  csSession :: string
  csCwd :: string
  csModel :: string
  csLast :: codexUsage
  csEvents :: int

definition newCodexState :: codexState where
  "newCodexState = \<lparr>csSession = '''', csCwd = '''', csModel = '''', csLast = zeroCodexUsage, csEvents = 0\<rparr>"

text \<open>The row for new totals: the growth since the last event, or the totals themselves after a reset.\<close>

definition codexDelta :: "codexUsage \<Rightarrow> codexUsage \<Rightarrow> int \<times> int \<times> int" where
  "codexDelta prev cur =
     (let din = wrap64 (cuInput cur - cuInput prev); dout = wrap64 (cuOutput cur - cuOutput prev);
          dcache = wrap64 (cuCached cur - cuCached prev)
      in if din < 0 \<or> dout < 0 then (cuInput cur, cuOutput cur, cuCached cur) else (din, dout, dcache))"

definition codexCount :: "watchEnv \<Rightarrow> string \<Rightarrow> codexUsage \<Rightarrow> codexState \<Rightarrow> TokenUsageRow option \<times> codexState" where
  "codexCount env stamp cur st =
     (let (din, dout, dcache) = codexDelta (csLast st) cur;
          st' = st\<lparr>csLast := cur, csEvents := csEvents st + 1\<rparr>
      in if din = 0 \<and> dout = 0 then (None, st')
         else (Some (zeroRow
                 \<lparr>turDedupKey := ''codex:'' @ csSession st @ '':'' @ showInt (csEvents st'), turSource := ''codex'',
                  turModel := (if csModel st = '''' then ''gpt-codex'' else csModel st),
                  turInputTokens := max (wrap64 (din - dcache)) 0, turCacheReadTokens := dcache,
                  turOutputTokens := dout, turSessionID := csSession st, turOccurredAtMS := occurredAt env stamp\<rparr>),
               st'))"

definition codexStep :: "watchEnv \<Rightarrow> codexLine \<Rightarrow> codexState \<Rightarrow> TokenUsageRow option \<times> codexState" where
  "codexStep env l st =
     (let p = cxPayload l in
      if cpType p = ''session_meta'' then (None, st\<lparr>csSession := cpID p, csCwd := cpCwd p\<rparr>)
      else if cpType p = ''turn_context'' then
        (None, if cpModel p \<noteq> '''' then st\<lparr>csModel := cpModel p\<rparr> else st)
      else if cpType p = ''token_count'' then
        (case cpInfo p of
           None \<Rightarrow> (None, st)
         | Some i \<Rightarrow> (case ciTotal i of None \<Rightarrow> (None, st) | Some cur \<Rightarrow> codexCount env (cxTimestamp l) cur st))
      else (None, st))"

definition parseCodexLine :: "watchEnv \<Rightarrow> string \<Rightarrow> codexState \<Rightarrow> TokenUsageRow option \<times> codexState" where
  "parseCodexLine env line st =
     (case readCodexLine line of None \<Rightarrow> (None, st) | Some l \<Rightarrow> codexStep env l st)"

subsection \<open>The watcher\<close>

datatype transcript = Claude | Codex

record checkpoint =
  ckOffset :: nat
  ckCodex :: "codexState option"

record watcher =
  waCheckpoints :: "string \<Rightarrow> checkpoint option"
  waPending :: "TokenUsageRow list"
  waLastOutput :: "(string \<times> int) list"
  waUnparsed :: int
  waSaved :: "string \<Rightarrow> checkpoint option"
  waSent :: "TokenUsageRow list"
  waDropped :: "TokenUsageRow list"
  waEmits :: "bool list"
  waSaves :: "bool list"

text \<open>The checkpoint file is replaced by a rename after the new content is written; if either fails it stays.\<close>

definition saveCheckpoints :: "watcher \<Rightarrow> watcher" where
  "saveCheckpoints w =
     (case waSaves w of
        [] \<Rightarrow> w
      | ok # rest \<Rightarrow> if ok then w\<lparr>waSaved := waCheckpoints w, waSaves := rest\<rparr> else w\<lparr>waSaves := rest\<rparr>)"

definition maxKeys :: int where
  "maxKeys = 50000"

definition maxPending :: nat where
  "maxPending = 10000"

definition emitOK :: "watcher \<Rightarrow> bool" where
  "emitOK w = (case waEmits w of [] \<Rightarrow> False | ok # _ \<Rightarrow> ok)"

definition delivered :: "watcher \<Rightarrow> watcher" where
  "delivered w = saveCheckpoints (w\<lparr>waEmits := tl (waEmits w), waSent := waSent w @ waPending w, waPending := []\<rparr>)"

definition undelivered :: "watcher \<Rightarrow> watcher" where
  "undelivered w =
     (let w1 = w\<lparr>waEmits := tl (waEmits w)\<rparr>;
          over = length (waPending w) - maxPending
      in if 0 < over
         then w1\<lparr>waDropped := waDropped w @ take over (waPending w), waPending := drop over (waPending w)\<rparr>
         else w1)"

definition flushRows :: "watcher \<Rightarrow> watcher" where
  "flushRows w =
     (if waPending w = [] then saveCheckpoints w
      else if emitOK w then
        (let w1 = delivered w in if maxKeys < int (length (waLastOutput w1)) then w1\<lparr>waLastOutput := []\<rparr> else w1)
      else undelivered w)"

definition addRow :: "TokenUsageRow \<Rightarrow> watcher \<Rightarrow> watcher" where
  "addRow row w =
     (let w1 = w\<lparr>waPending := waPending w @ [row]\<rparr> in if 500 \<le> int (length (waPending w1)) then flushRows w1 else w1)"

definition consumeClaude :: "watchEnv \<Rightarrow> string \<Rightarrow> watcher \<Rightarrow> watcher" where
  "consumeClaude env line w =
     (case parseClaudeLine env line of
        None \<Rightarrow> if jsonValid line then w else w\<lparr>waUnparsed := waUnparsed w + 1\<rparr>
      | Some row \<Rightarrow>
          if (case map_of (waLastOutput w) (turDedupKey row) of None \<Rightarrow> False | Some prev \<Rightarrow> turOutputTokens row \<le> prev)
          then w
          else addRow (row\<lparr>turAppID := weResolve env (claudeCwd line)\<rparr>)
                 (w\<lparr>waLastOutput := putEntry (turDedupKey row) (turOutputTokens row) (waLastOutput w)\<rparr>))"

definition setCodex :: "string \<Rightarrow> codexState \<Rightarrow> watcher \<Rightarrow> watcher" where
  "setCodex path st w =
     (case waCheckpoints w path of
        None \<Rightarrow> w
      | Some cp \<Rightarrow> w\<lparr>waCheckpoints := (waCheckpoints w)(path \<mapsto> cp\<lparr>ckCodex := Some st\<rparr>)\<rparr>)"

definition codexOf :: "string \<Rightarrow> watcher \<Rightarrow> codexState" where
  "codexOf path w =
     (case waCheckpoints w path of
        None \<Rightarrow> newCodexState
      | Some cp \<Rightarrow> (case ckCodex cp of None \<Rightarrow> newCodexState | Some st \<Rightarrow> st))"

definition consumeCodex :: "watchEnv \<Rightarrow> string \<Rightarrow> string \<Rightarrow> watcher \<Rightarrow> watcher" where
  "consumeCodex env path line w =
     (case parseCodexLine env line (codexOf path w) of
        (r, st) \<Rightarrow>
          let w1 = setCodex path st w in
          case r of
            None \<Rightarrow> if jsonValid line then w1 else w1\<lparr>waUnparsed := waUnparsed w1 + 1\<rparr>
          | Some row \<Rightarrow> addRow (row\<lparr>turAppID := weResolve env (csCwd st)\<rparr>) w1)"

fun consumeTranscript :: "watchEnv \<Rightarrow> string \<Rightarrow> transcript \<Rightarrow> string \<Rightarrow> watcher \<Rightarrow> watcher" where
  "consumeTranscript env path kind [] w = w"
| "consumeTranscript env path Claude line w = consumeClaude env line w"
| "consumeTranscript env path Codex line w = consumeCodex env path line w"

subsection \<open>Tailing\<close>

text \<open>
  The complete lines of what is left of a file, with their newline; a line over \<^verbatim>\<open>maxLineBytes\<close> is
  returned empty, so that neither its content nor its length counts.
\<close>

definition completeLines :: "string \<Rightarrow> string list" where
  "completeLines s = map (\<lambda>l. l @ [CHR 0x0A]) (butlast (splitOn CHR 0x0A s))"

definition maxLineBytes :: int where
  "maxLineBytes = 4194304"

definition readLine :: "string \<Rightarrow> string" where
  "readLine l = (if maxLineBytes < int (length l) then [] else l)"

definition trimNL :: "string \<Rightarrow> string" where
  "trimNL b = rev (dropWhile (\<lambda>c. c = CHR 0x0A \<or> c = CHR 0x0D) (rev b))"

definition maxBackfillSize :: int where
  "maxBackfillSize = 52428800"

text \<open>What the watcher finds at a path: nothing, a file it cannot read, or the content.\<close>

datatype fileView = Missing | Unreadable nat | Contents string

fun viewSize :: "fileView \<Rightarrow> nat" where
  "viewSize Missing = 0"
| "viewSize (Unreadable n) = n"
| "viewSize (Contents c) = length c"

definition firstCheckpoint :: "transcript \<Rightarrow> nat \<Rightarrow> checkpoint" where
  "firstCheckpoint kind sz =
     \<lparr>ckOffset = (if maxBackfillSize < int sz then sz else 0),
      ckCodex = (case kind of Claude \<Rightarrow> None | Codex \<Rightarrow> Some newCodexState)\<rparr>"

definition rewound :: "checkpoint \<Rightarrow> checkpoint" where
  "rewound cp = \<lparr>ckOffset = 0, ckCodex = (case ckCodex cp of None \<Rightarrow> None | Some _ \<Rightarrow> Some newCodexState)\<rparr>"

definition openCheckpoint :: "transcript \<Rightarrow> nat \<Rightarrow> checkpoint option \<Rightarrow> checkpoint" where
  "openCheckpoint kind sz old =
     (let cp = (case old of None \<Rightarrow> firstCheckpoint kind sz | Some cp \<Rightarrow> cp)
      in if sz < ckOffset cp then rewound cp else cp)"

definition setOffset :: "string \<Rightarrow> nat \<Rightarrow> watcher \<Rightarrow> watcher" where
  "setOffset path off w =
     (case waCheckpoints w path of
        None \<Rightarrow> w
      | Some cp \<Rightarrow> w\<lparr>waCheckpoints := (waCheckpoints w)(path \<mapsto> cp\<lparr>ckOffset := off\<rparr>)\<rparr>)"

definition readLines :: "watchEnv \<Rightarrow> string \<Rightarrow> transcript \<Rightarrow> string list \<Rightarrow> watcher \<Rightarrow> watcher" where
  "readLines env path kind ls w = fold (\<lambda>l. consumeTranscript env path kind (trimNL (readLine l))) ls w"

definition tailFile :: "watchEnv \<Rightarrow> string \<Rightarrow> transcript \<Rightarrow> fileView \<Rightarrow> watcher \<Rightarrow> watcher" where
  "tailFile env path kind view w =
     (if view = Missing then w
      else
        (let cp = openCheckpoint kind (viewSize view) (waCheckpoints w path);
             w1 = w\<lparr>waCheckpoints := (waCheckpoints w)(path \<mapsto> cp)\<rparr>
         in if viewSize view = ckOffset cp then w1
            else (case view of
                    Contents c \<Rightarrow>
                      (let ls = completeLines (drop (ckOffset cp) c)
                       in setOffset path (ckOffset cp + sum_list (map (length \<circ> readLine) ls))
                            (readLines env path kind ls w1))
                  | _ \<Rightarrow> w1)))"

subsection \<open>Scanning\<close>

text \<open>A directory tree, as far as it can be read; a file whose status cannot be read has no time.\<close>

datatype dirEntry = DFile string "int option" | DDir string "dirEntry list"

fun walk :: "string \<Rightarrow> nat \<Rightarrow> dirEntry list \<Rightarrow> (string \<times> int) list"
and walkEntry :: "string \<Rightarrow> nat \<Rightarrow> dirEntry \<Rightarrow> (string \<times> int) list"
where
  "walk dir depth [] = []"
| "walk dir depth (e # es) = walkEntry dir depth e @ walk dir depth es"
| "walkEntry dir depth (DFile name t) = (case t of None \<Rightarrow> [] | Some m \<Rightarrow> [(dir @ ''/'' @ name, m)])"
| "walkEntry dir depth (DDir name es) = (if 0 < depth then walk (dir @ ''/'' @ name) (depth - 1) es else [])"

definition backfillWindow :: int where
  "backfillWindow = 30 * 24 * 3600 * second"

definition findJSONL :: "int \<Rightarrow> string \<Rightarrow> nat \<Rightarrow> dirEntry list \<Rightarrow> string list" where
  "findJSONL now root depth es =
     (if root = [] then []
      else map fst (filter (\<lambda>f. hasSuffix (fst f) ''.jsonl'' \<and> now - backfillWindow < snd f) (walk root depth es)))"

definition scan :: "watchEnv \<Rightarrow> (string \<Rightarrow> fileView) \<Rightarrow> string list \<Rightarrow> string list \<Rightarrow> watcher \<Rightarrow> watcher" where
  "scan env files claude codex w =
     fold (\<lambda>f. tailFile env f Codex (files f)) codex (fold (\<lambda>f. tailFile env f Claude (files f)) claude w)"

text \<open>One turn of \<^verbatim>\<open>Run\<close>: the scan tick, the flush tick, the end of the context.\<close>

datatype watchEvent = WScan "string \<Rightarrow> fileView" "string list" "string list" | WFlush | WDone

fun watchStep :: "watchEnv \<Rightarrow> watchEvent \<Rightarrow> watcher \<Rightarrow> watcher" where
  "watchStep env (WScan files claude codex) w = scan env files claude codex w"
| "watchStep env WFlush w = flushRows w"
| "watchStep env WDone w = saveCheckpoints w"

text \<open>A new process starts from the saved checkpoints; \<open>waSent\<close> and \<open>waDropped\<close> are the history.\<close>

definition restarted :: "watcher \<Rightarrow> watcher" where
  "restarted w = w\<lparr>waCheckpoints := waSaved w, waPending := [], waLastOutput := [], waUnparsed := 0\<rparr>"

subsection \<open>Which app a transcript belongs to\<close>

text \<open>\<open>real\<close> is \<^verbatim>\<open>filepath.EvalSymlinks\<close>; the apps are listed in the order of the iteration.\<close>

definition realOr :: "(string \<Rightarrow> string option) \<Rightarrow> string \<Rightarrow> string" where
  "realOr real p = (case real p of None \<Rightarrow> p | Some r \<Rightarrow> r)"

definition cwdMatches :: "string \<Rightarrow> string \<Rightarrow> bool" where
  "cwdMatches cwd dir \<longleftrightarrow> cwd = dir \<or> hasPrefix cwd (dir @ ''/'')"

definition betterApp :: "(string \<Rightarrow> string option) \<Rightarrow> string \<Rightarrow> string \<times> AppState \<Rightarrow> string \<times> nat \<Rightarrow> string \<times> nat" where
  "betterApp real cwd a best =
     (let dir0 = defCwd (asDefinition (snd a)); dir = realOr real dir0
      in if dir0 = '''' then best
         else if cwdMatches cwd dir \<and> snd best < length dir then (fst a, length dir) else best)"

definition resolveAppByCwd :: "(string \<Rightarrow> string option) \<Rightarrow> (string \<times> AppState) list \<Rightarrow> string \<Rightarrow> string" where
  "resolveAppByCwd real apps cwd =
     (if cwd = '''' then '''' else fst (fold (betterApp real (realOr real cwd)) apps ('''', 0)))"

end
