(* ===== verification/WatchProps.thy ===== *)
theory WatchProps
  imports TokenWatch AgentControl
begin

text \<open>
  What the watcher guarantees: rows before a saved checkpoint were delivered (or dropped by the cap),
  whatever crashes in between; the rows of a Codex session add up to its totals; a transcript belongs
  to the app with the longest directory.
\<close>

subsection \<open>Lines of a growing file\<close>

definition lineEnd :: "string \<Rightarrow> bool" where
  "lineEnd s \<longleftrightarrow> s = [] \<or> last s = CHR 0x0A"

lemma splitOn_free_end: "c \<notin> set x \<Longrightarrow> splitOn c (x @ [c]) = [x, []]"
  by (induction x) auto

lemma splitOn_snoc: "splitOn c (s @ [c]) = splitOn c s @ [[]]"
proof -
  have "c \<notin> set (last (splitOn c s))" using splitOn_pieces_free [of "last (splitOn c s)" c s] by simp
  then have "splitOn c (s @ [c]) = butlast (splitOn c s) @ [last (splitOn c s), []]"
    by (simp add: splitOn_append [of c s "[c]"] splitOn_free_end)
  also have "\<dots> = (butlast (splitOn c s) @ [last (splitOn c s)]) @ [[]]" by simp
  finally show ?thesis by (simp only: append_butlast_last_id [OF splitOn_not_Nil])
qed

lemma lineEnd_last: "lineEnd s \<Longrightarrow> last (splitOn CHR 0x0A s) = []"
proof (cases s rule: rev_cases)
  case (snoc s' c)
  assume "lineEnd s"
  with snoc have "c = CHR 0x0A" by (simp add: lineEnd_def)
  with snoc show ?thesis by (simp add: splitOn_snoc)
qed simp

lemma completeLines_append: "lineEnd a \<Longrightarrow> completeLines (a @ b) = completeLines a @ completeLines b"
  by (simp add: completeLines_def splitOn_append [of _ a b] lineEnd_last butlast_append)

lemma joinWith_snoc: "joinWith [c] (xs @ [y]) = concat (map (\<lambda>l. l @ [c]) xs) @ y"
proof (induction xs)
  case (Cons x xs)
  then show ?case by (cases xs) auto
qed simp

lemma concat_completeLines: "concat (completeLines s) @ last (splitOn CHR 0x0A s) = s"
proof -
  have "joinWith [CHR 0x0A] (butlast (splitOn CHR 0x0A s) @ [last (splitOn CHR 0x0A s)]) = s"
    by (simp only: append_butlast_last_id [OF splitOn_not_Nil] joinWith_splitOn)
  then show ?thesis unfolding completeLines_def by (simp only: joinWith_snoc)
qed

lemma completeLines_end: "l \<in> set (completeLines s) \<Longrightarrow> l \<noteq> [] \<and> last l = CHR 0x0A"
  by (auto simp: completeLines_def)

lemma lineEnd_concat: "\<forall>l \<in> set ls. l \<noteq> [] \<and> last l = CHR 0x0A \<Longrightarrow> lineEnd (concat ls)"
proof (induction ls rule: rev_induct)
  case (snoc l ls)
  then show ?case by (simp add: lineEnd_def)
qed (simp add: lineEnd_def)

lemma lineEnd_append: "lineEnd a \<Longrightarrow> lineEnd b \<Longrightarrow> lineEnd (a @ b)"
  by (cases "b = []") (auto simp: lineEnd_def)

lemma completeLines_concat: "completeLines (concat (completeLines s)) = completeLines s"
proof -
  let ?C = "concat (completeLines s)" and ?r = "last (splitOn CHR 0x0A s)"
  have "lineEnd ?C" using completeLines_end by (intro lineEnd_concat) blast
  moreover have "CHR 0x0A \<notin> set ?r" using splitOn_pieces_free [of ?r "CHR 0x0A" s] by simp
  then have "completeLines ?r = []" by (simp add: completeLines_def splitOn_free)
  ultimately have "completeLines (?C @ ?r) = completeLines ?C" by (simp add: completeLines_append)
  then show ?thesis by (simp only: concat_completeLines)
qed

definition shortLines :: "string \<Rightarrow> bool" where
  "shortLines c \<longleftrightarrow> list_all (\<lambda>l. int (length l) \<le> maxLineBytes) (completeLines c)"

lemma readLine_short: "int (length l) \<le> maxLineBytes \<Longrightarrow> readLine l = l"
  by (simp add: readLine_def)

lemma shortLines_drop:
  assumes "shortLines c" "lineEnd (take off c)"
  shows "\<forall>l \<in> set (completeLines (drop off c)). readLine l = l"
proof -
  have "completeLines c = completeLines (take off c) @ completeLines (drop off c)"
    using completeLines_append [OF assms(2), of "drop off c"] by simp
  with assms(1) show ?thesis by (auto simp: shortLines_def list_all_iff intro: readLine_short)
qed

lemma take_lines:
  assumes "lineEnd (take off c)" "off \<le> length c"
  defines "ls \<equiv> completeLines (drop off c)"
  shows "take (off + length (concat ls)) c = take off c @ concat ls" "off + length (concat ls) \<le> length c"
    "completeLines (take off c @ concat ls) = completeLines (take off c) @ ls" "lineEnd (take off c @ concat ls)"
proof -
  have d: "drop off c = concat ls @ last (splitOn CHR 0x0A (drop off c))"
    unfolding ls_def by (rule concat_completeLines [symmetric])
  have "take (length (concat ls)) (drop off c) = concat ls" by (subst d) simp
  then show "take (off + length (concat ls)) c = take off c @ concat ls" by (simp add: take_add)
  have "length (concat ls) \<le> length (drop off c)" by (subst d) (simp only: length_append)
  then show "off + length (concat ls) \<le> length c" using assms(2) by simp
  show "completeLines (take off c @ concat ls) = completeLines (take off c) @ ls"
    using assms(1) by (simp add: completeLines_append ls_def completeLines_concat)
  have "lineEnd (concat ls)" unfolding ls_def using completeLines_end by (intro lineEnd_concat) blast
  then show "lineEnd (take off c @ concat ls)" using assms(1) by (simp add: lineEnd_append)
qed

subsection \<open>The usage a Claude transcript reports\<close>

text \<open>The dedup key and the output count of a line; neither depends on the clock.\<close>

definition plainEnv :: watchEnv where
  "plainEnv = \<lparr>weParseTime = \<lambda>_. None, weNowMS = 0, weResolve = \<lambda>_. ''''\<rparr>"

definition lineUsage :: "string \<Rightarrow> (string \<times> int) list" where
  "lineUsage l = (case parseClaudeLine plainEnv (trimNL l) of None \<Rightarrow> [] | Some r \<Rightarrow> [(turDedupKey r, turOutputTokens r)])"

definition reported :: "string \<Rightarrow> (string \<times> int) list" where
  "reported s = concat (map lineUsage (completeLines s))"

lemma parse_any_env:
  "parseClaudeLine env l = (case parseClaudeLine plainEnv l of None \<Rightarrow> None
     | Some r \<Rightarrow> (case readClaudeLine l of None \<Rightarrow> None | Some c \<Rightarrow> Some (r\<lparr>turOccurredAtMS := occurredAt env (clTimestamp c)\<rparr>)))"
  by (simp add: parseClaudeLine_def split: option.split)

lemma lineUsage_env:
  "lineUsage l = (case parseClaudeLine env (trimNL l) of None \<Rightarrow> [] | Some r \<Rightarrow> [(turDedupKey r, turOutputTokens r)])"
  unfolding lineUsage_def parse_any_env [of env "trimNL l"]
  by (auto simp: parseClaudeLine_def split: option.split)

lemma parseClaudeLine_Nil: "parseClaudeLine env [] = None"
proof -
  have "readJson [] = None" by (simp add: readJson_def readValue.simps skipWs_def)
  then show ?thesis by (simp add: parseClaudeLine_def readClaudeLine_def unmarshal_def)
qed

definition covered :: "TokenUsageRow set \<Rightarrow> (string \<times> int) \<Rightarrow> bool" where
  "covered R u \<longleftrightarrow> (\<exists>r \<in> R. turDedupKey r = fst u \<and> snd u \<le> turOutputTokens r)"

definition settled :: "watcher \<Rightarrow> TokenUsageRow set" where
  "settled w = set (waSent w) \<union> set (waDropped w)"

definition seen :: "watcher \<Rightarrow> TokenUsageRow set" where
  "seen w = settled w \<union> set (waPending w)"

lemma covered_mono: "covered R u \<Longrightarrow> R \<subseteq> R' \<Longrightarrow> covered R' u"
  by (auto simp: covered_def)

definition ckOK :: "(string \<Rightarrow> string) \<Rightarrow> (string \<Rightarrow> bool) \<Rightarrow> TokenUsageRow set \<Rightarrow> (string \<Rightarrow> checkpoint option) \<Rightarrow> bool" where
  "ckOK fs isClaude R cks \<longleftrightarrow>
     (\<forall>p cp. isClaude p \<longrightarrow> cks p = Some cp \<longrightarrow>
        ckOffset cp \<le> length (fs p) \<and> lineEnd (take (ckOffset cp) (fs p))
        \<and> (\<forall>u \<in> set (reported (take (ckOffset cp) (fs p))). covered R u))"

definition watchOK :: "(string \<Rightarrow> string) \<Rightarrow> (string \<Rightarrow> bool) \<Rightarrow> watcher \<Rightarrow> bool" where
  "watchOK fs isClaude w \<longleftrightarrow>
     (\<forall>u \<in> set (waLastOutput w). covered (seen w) u)
     \<and> ckOK fs isClaude (seen w) (waCheckpoints w) \<and> ckOK fs isClaude (settled w) (waSaved w)"

lemma ckOK_mono: "ckOK fs isClaude R cks \<Longrightarrow> R \<subseteq> R' \<Longrightarrow> ckOK fs isClaude R' cks"
  by (auto simp: ckOK_def intro: covered_mono)

lemma settled_seen: "settled w \<subseteq> seen w"
  by (simp add: seen_def)

lemma watchOK_mono:
  assumes "watchOK fs isClaude w" "seen w \<subseteq> seen w'" "settled w \<subseteq> settled w'"
    and "set (waLastOutput w') \<subseteq> set (waLastOutput w)" "waCheckpoints w' = waCheckpoints w" "waSaved w' = waSaved w"
  shows "watchOK fs isClaude w'"
  using assms by (auto simp: watchOK_def intro: covered_mono ckOK_mono)

subsection \<open>Each operation keeps the invariant\<close>

lemma save_fields [frame_simps]:
  "waCheckpoints (saveCheckpoints w) = waCheckpoints w" "waPending (saveCheckpoints w) = waPending w"
  "waSent (saveCheckpoints w) = waSent w" "waDropped (saveCheckpoints w) = waDropped w"
  "waLastOutput (saveCheckpoints w) = waLastOutput w"
  by (auto simp: saveCheckpoints_def split: list.split)

lemma save_saved: "waSaved (saveCheckpoints w) = waCheckpoints w \<or> waSaved (saveCheckpoints w) = waSaved w"
  by (auto simp: saveCheckpoints_def split: list.split)

lemma save_OK:
  assumes "watchOK fs isClaude w" "waPending w = []"
  shows "watchOK fs isClaude (saveCheckpoints w)"
proof -
  have s: "settled (saveCheckpoints w) = settled w" "seen (saveCheckpoints w) = seen w"
    by (simp_all add: settled_def seen_def frame_simps)
  have "seen w = settled w" using assms(2) by (simp add: seen_def)
  with assms(1) s save_saved [of w] show ?thesis by (auto simp: watchOK_def frame_simps)
qed

lemma undelivered_seen: "seen (undelivered w) = seen w" "settled w \<subseteq> settled (undelivered w)"
proof -
  let ?over = "length (waPending w) - maxPending"
  have "set (take ?over (waPending w)) \<union> set (drop ?over (waPending w)) = set (waPending w)"
    by (metis append_take_drop_id set_append)
  then show "seen (undelivered w) = seen w" "settled w \<subseteq> settled (undelivered w)"
    by (auto simp: undelivered_def seen_def settled_def Let_def)
qed

lemma undelivered_fields [frame_simps]:
  "waCheckpoints (undelivered w) = waCheckpoints w" "waSaved (undelivered w) = waSaved w"
  "waLastOutput (undelivered w) = waLastOutput w"
  by (simp_all add: undelivered_def Let_def)

lemma delivered_seen: "seen (delivered w) = seen w" "settled (delivered w) = seen w"
  by (auto simp: delivered_def seen_def settled_def frame_simps)

lemma delivered_OK:
  assumes "watchOK fs isClaude w" shows "watchOK fs isClaude (delivered w)"
  unfolding delivered_def
proof (rule save_OK)
  show "watchOK fs isClaude (w\<lparr>waEmits := tl (waEmits w), waSent := waSent w @ waPending w, waPending := []\<rparr>)"
    using assms by (rule watchOK_mono) (auto simp: seen_def settled_def)
qed simp

lemma flushRows_checkpoints [frame_simps]: "waCheckpoints (flushRows w) = waCheckpoints w"
  by (simp add: flushRows_def delivered_def frame_simps Let_def)

lemma flushRows_seen: "seen (flushRows w) = seen w"
proof -
  have "seen (w'\<lparr>waLastOutput := []\<rparr>) = seen w'" for w' by (simp add: seen_def settled_def)
  moreover have "seen (saveCheckpoints w) = seen w" by (simp add: seen_def settled_def frame_simps)
  ultimately show ?thesis
    by (simp add: flushRows_def delivered_seen undelivered_seen Let_def)
qed

lemma flushRows_OK:
  assumes "watchOK fs isClaude w" shows "watchOK fs isClaude (flushRows w)"
proof -
  have "watchOK fs isClaude (w'\<lparr>waLastOutput := []\<rparr>)" if "watchOK fs isClaude w'" for w'
    using that by (rule watchOK_mono) (simp_all add: seen_def settled_def)
  moreover have "watchOK fs isClaude (undelivered w)"
    by (rule watchOK_mono [OF assms]) (simp_all add: frame_simps undelivered_seen)
  ultimately show ?thesis
    using assms delivered_OK [OF assms] save_OK [OF assms] by (simp add: flushRows_def Let_def)
qed

lemma addRow_OK:
  assumes "watchOK fs isClaude (w\<lparr>waPending := waPending w @ [row]\<rparr>)"
  shows "watchOK fs isClaude (addRow row w)"
  using assms flushRows_OK by (simp add: addRow_def Let_def)

lemma addRow_seen: "seen (addRow row w) = insert row (seen w)"
  by (auto simp: addRow_def Let_def flushRows_seen) (auto simp: seen_def settled_def)

lemma addRow_checkpoints [frame_simps]: "waCheckpoints (addRow row w) = waCheckpoints w"
  by (simp add: addRow_def Let_def frame_simps)

lemma consumeClaude_fields [frame_simps]: "waCheckpoints (consumeClaude env line w) = waCheckpoints w"
  by (simp add: consumeClaude_def frame_simps split: option.split)

lemma consumeClaude_OK:
  assumes ok: "watchOK fs isClaude w"
  shows "watchOK fs isClaude (consumeClaude env (trimNL l) w) \<and> seen w \<subseteq> seen (consumeClaude env (trimNL l) w)
    \<and> (\<forall>u \<in> set (lineUsage l). covered (seen (consumeClaude env (trimNL l) w)) u)"
proof (cases "parseClaudeLine env (trimNL l)")
  case None
  have "watchOK fs isClaude (w\<lparr>waUnparsed := waUnparsed w + 1\<rparr>)"
    using ok by (rule watchOK_mono) (simp_all add: seen_def settled_def)
  with None ok show ?thesis by (simp add: consumeClaude_def lineUsage_env [of l env]) (simp add: seen_def settled_def)
next
  case (Some row)
  let ?k = "turDedupKey row" and ?n = "turOutputTokens row"
  have u: "lineUsage l = [(?k, ?n)]" using Some by (simp add: lineUsage_env [of l env])
  show ?thesis
  proof (cases "case map_of (waLastOutput w) ?k of None \<Rightarrow> False | Some prev \<Rightarrow> ?n \<le> prev")
    case True
    then obtain prev where "map_of (waLastOutput w) ?k = Some prev" and le: "?n \<le> prev" by (auto split: option.splits)
    then have "(?k, prev) \<in> set (waLastOutput w)" by (simp add: map_of_SomeD)
    with ok have "covered (seen w) (?k, prev)" by (auto simp: watchOK_def)
    with le have "covered (seen w) (?k, ?n)" by (fastforce simp: covered_def)
    with Some True ok u show ?thesis by (simp add: consumeClaude_def)
  next
    case False
    let ?row = "row\<lparr>turAppID := weResolve env (claudeCwd (trimNL l))\<rparr>"
    let ?w1 = "w\<lparr>waLastOutput := putEntry ?k ?n (waLastOutput w)\<rparr>"
    let ?w2 = "?w1\<lparr>waPending := waPending ?w1 @ [?row]\<rparr>"
    have c: "consumeClaude env (trimNL l) w = addRow ?row ?w1" using Some False by (simp add: consumeClaude_def)
    have s: "seen ?w2 = insert ?row (seen w)" "settled ?w2 = settled w" by (auto simp: seen_def settled_def)
    have new: "covered (insert ?row (seen w)) (?k, ?n)" by (simp add: covered_def)
    have "\<forall>u \<in> set (waLastOutput ?w2). covered (seen ?w2) u"
      using ok new s by (auto simp: watchOK_def dest!: entry_putEntry intro: covered_mono)
    moreover have "ckOK fs isClaude (seen ?w2) (waCheckpoints ?w2)" "ckOK fs isClaude (settled ?w2) (waSaved ?w2)"
      using ok s by (auto simp: watchOK_def intro: ckOK_mono)
    ultimately have "watchOK fs isClaude ?w2" by (simp add: watchOK_def)
    then have "watchOK fs isClaude (addRow ?row ?w1)" by (rule addRow_OK)
    moreover have "seen (addRow ?row ?w1) = insert ?row (seen w)"
      by (simp add: addRow_seen) (simp add: seen_def settled_def)
    ultimately show ?thesis using c u new by auto
  qed
qed

lemma consumeTranscript_Claude: "consumeTranscript env path Claude l w = (if l = [] then w else consumeClaude env l w)"
  by (cases l) simp_all

lemma readLines_OK:
  assumes "watchOK fs isClaude w" "\<forall>l \<in> set ls. readLine l = l"
  shows "watchOK fs isClaude (readLines env path Claude ls w) \<and> seen w \<subseteq> seen (readLines env path Claude ls w)
    \<and> (\<forall>u \<in> set (concat (map lineUsage ls)). covered (seen (readLines env path Claude ls w)) u)
    \<and> waCheckpoints (readLines env path Claude ls w) = waCheckpoints w"
  using assms
proof (induction ls arbitrary: w)
  case Nil
  then show ?case by (simp add: readLines_def)
next
  case (Cons l ls)
  let ?w1 = "consumeTranscript env path Claude (trimNL l) w"
  have st: "readLines env path Claude (l # ls) w = readLines env path Claude ls ?w1"
    using Cons.prems by (simp add: readLines_def)
  have one: "watchOK fs isClaude ?w1 \<and> seen w \<subseteq> seen ?w1 \<and> (\<forall>u \<in> set (lineUsage l). covered (seen ?w1) u)
      \<and> waCheckpoints ?w1 = waCheckpoints w"
  proof (cases "trimNL l = []")
    case True
    then have "lineUsage l = []" by (simp add: lineUsage_def parseClaudeLine_Nil)
    with True Cons.prems show ?thesis by simp
  next
    case False
    with consumeClaude_OK [OF Cons.prems(1), of env l] show ?thesis
      by (simp add: consumeTranscript_Claude frame_simps)
  qed
  with Cons.IH [of ?w1] Cons.prems show ?case unfolding st by (auto intro: covered_mono)
qed

subsection \<open>Reading one file\<close>

text \<open>
  What a scan may find of a Claude file: it has only grown, no line exceeds the limit, and it is not too
  large to be imported.
\<close>

definition grownView :: "string \<Rightarrow> fileView \<Rightarrow> bool" where
  "grownView old v \<longleftrightarrow>
     (case v of Missing \<Rightarrow> True
      | Unreadable n \<Rightarrow> int n \<le> maxBackfillSize
      | Contents c \<Rightarrow> prefix old c \<and> shortLines c \<and> int (length c) \<le> maxBackfillSize)"

definition viewed :: "string \<Rightarrow> fileView \<Rightarrow> string" where
  "viewed old v = (case v of Contents c \<Rightarrow> c | _ \<Rightarrow> old)"

lemma ckOK_grow:
  assumes "ckOK fs isClaude R cks" "prefix (fs p) c"
  shows "ckOK (fs(p := c)) isClaude R cks"
proof -
  obtain t where c: "c = fs p @ t" using assms(2) by (auto simp: prefix_def)
  have "take n c = take n (fs p)" if "n \<le> length (fs p)" for n using that c by simp
  moreover have "length (fs p) \<le> length c" using c by simp
  ultimately show ?thesis using assms(1) unfolding ckOK_def by (metis fun_upd_apply le_trans)
qed

lemma watchOK_grow:
  "watchOK fs isClaude w \<Longrightarrow> prefix (fs p) c \<Longrightarrow> watchOK (fs(p := c)) isClaude w"
  by (auto simp: watchOK_def intro: ckOK_grow)

lemma watchOK_setCheckpoint:
  assumes "watchOK fs isClaude w" "ckOffset cp \<le> length (fs p)" "lineEnd (take (ckOffset cp) (fs p))"
    and "\<forall>u \<in> set (reported (take (ckOffset cp) (fs p))). covered (seen w) u"
  shows "watchOK fs isClaude (w\<lparr>waCheckpoints := (waCheckpoints w)(p \<mapsto> cp)\<rparr>)"
proof -
  have "seen (w\<lparr>waCheckpoints := x\<rparr>) = seen w" "settled (w\<lparr>waCheckpoints := x\<rparr>) = settled w" for x
    by (simp_all add: seen_def settled_def)
  with assms show ?thesis by (auto simp: watchOK_def ckOK_def)
qed

lemma watchOK_otherCheckpoint:
  assumes "watchOK fs isClaude w" "\<not> isClaude p"
  shows "watchOK fs isClaude (w\<lparr>waCheckpoints := (waCheckpoints w)(p \<mapsto> cp)\<rparr>)"
proof -
  have "seen (w\<lparr>waCheckpoints := x\<rparr>) = seen w" "settled (w\<lparr>waCheckpoints := x\<rparr>) = settled w" for x
    by (simp_all add: seen_def settled_def)
  with assms show ?thesis by (auto simp: watchOK_def ckOK_def)
qed

lemma reported_Nil: "reported [] = []"
  by (simp add: reported_def completeLines_def)

lemma openCheckpoint_OK:
  assumes ok: "watchOK fs isClaude w" and p: "isClaude p" and size: "int n \<le> maxBackfillSize"
    and cp: "cp = openCheckpoint Claude n (waCheckpoints w p)"
  shows "watchOK fs isClaude (w\<lparr>waCheckpoints := (waCheckpoints w)(p \<mapsto> cp)\<rparr>)"
proof -
  have "ckOffset cp = 0 \<or> (\<exists>old. waCheckpoints w p = Some old \<and> cp = old)"
    using size cp by (auto simp: openCheckpoint_def firstCheckpoint_def rewound_def Let_def split: option.splits)
  then show ?thesis
  proof
    assume "ckOffset cp = 0"
    then show ?thesis by (intro watchOK_setCheckpoint [OF ok]) (simp_all add: lineEnd_def reported_Nil)
  next
    assume "\<exists>old. waCheckpoints w p = Some old \<and> cp = old"
    then have "(waCheckpoints w)(p \<mapsto> cp) = waCheckpoints w" by auto
    with ok show ?thesis by simp
  qed
qed

lemma setOffset_Some:
  "waCheckpoints w p = Some cp \<Longrightarrow> setOffset p off w = w\<lparr>waCheckpoints := (waCheckpoints w)(p \<mapsto> cp\<lparr>ckOffset := off\<rparr>)\<rparr>"
  by (simp add: setOffset_def)

text \<open>The state a scan is in after \<open>n\<close> lines of a file; the offset is only moved at the end.\<close>

definition opened :: "string \<Rightarrow> transcript \<Rightarrow> fileView \<Rightarrow> watcher \<Rightarrow> watcher" where
  "opened p kind v w = w\<lparr>waCheckpoints := (waCheckpoints w)(p \<mapsto> openCheckpoint kind (viewSize v) (waCheckpoints w p))\<rparr>"

lemma opened_OK:
  assumes "watchOK fs isClaude w" "isClaude p" "grownView (fs p) v" "v \<noteq> Missing"
  shows "watchOK (fs(p := viewed (fs p) v)) isClaude (opened p Claude v w)"
proof -
  have "prefix (fs p) (viewed (fs p) v)" using assms(3) by (auto simp: grownView_def viewed_def split: fileView.splits)
  from watchOK_grow [OF assms(1) this] have g: "watchOK (fs(p := viewed (fs p) v)) isClaude w" .
  have "int (viewSize v) \<le> maxBackfillSize" using assms(3,4) by (auto simp: grownView_def split: fileView.splits)
  from openCheckpoint_OK [OF g assms(2) this refl] show ?thesis by (simp add: opened_def)
qed

lemma opened_offset:
  assumes "watchOK fs isClaude w" "isClaude p" "waCheckpoints w p = Some cp"
  shows "ckOffset cp \<le> length (fs p)" "lineEnd (take (ckOffset cp) (fs p))"
    "\<forall>u \<in> set (reported (take (ckOffset cp) (fs p))). covered (seen w) u"
  using assms by (auto simp: watchOK_def ckOK_def)

lemma tailFile_OK:
  assumes "watchOK fs isClaude w" "isClaude p" "grownView (fs p) v"
  shows "watchOK (fs(p := viewed (fs p) v)) isClaude (tailFile env p Claude v w)"
proof (cases v)
  case Missing
  with assms show ?thesis by (simp add: tailFile_def viewed_def)
next
  case (Unreadable n)
  with opened_OK [OF assms] show ?thesis by (simp add: tailFile_def opened_def Let_def)
next
  case (Contents c)
  let ?cp = "openCheckpoint Claude (length c) (waCheckpoints w p)"
  let ?w1 = "opened p Claude v w"
  let ?ls = "completeLines (drop (ckOffset ?cp) c)"
  let ?fs = "fs(p := c)"
  have o: "watchOK ?fs isClaude ?w1" using opened_OK [OF assms] Contents by (simp add: viewed_def)
  have cp1: "waCheckpoints ?w1 p = Some ?cp" using Contents by (simp add: opened_def)
  note off = opened_offset [OF o assms(2) cp1, simplified]
  have "shortLines c" using assms(3) Contents by (simp add: grownView_def)
  from shortLines_drop [OF this off(2)] have short: "\<forall>l \<in> set ?ls. readLine l = l" .
  from readLines_OK [OF o short, of env p]
  have r: "watchOK ?fs isClaude (readLines env p Claude ?ls ?w1)" "seen ?w1 \<subseteq> seen (readLines env p Claude ?ls ?w1)"
    "\<forall>u \<in> set (concat (map lineUsage ?ls)). covered (seen (readLines env p Claude ?ls ?w1)) u"
    "waCheckpoints (readLines env p Claude ?ls ?w1) p = Some ?cp"
    using cp1 by simp_all
  have len: "sum_list (map (length \<circ> readLine) ?ls) = length (concat ?ls)"
    using short by (simp add: length_concat comp_def cong: map_cong)
  note tl = take_lines [OF off(2,1)]
  let ?cp2 = "?cp\<lparr>ckOffset := ckOffset ?cp + length (concat ?ls)\<rparr>"
  have "reported (take (ckOffset ?cp2) c) = reported (take (ckOffset ?cp) c) @ concat (map lineUsage ?ls)"
    using tl(1,3) by (simp add: reported_def)
  then have cov: "\<forall>u \<in> set (reported (take (ckOffset ?cp2) (?fs p))). covered (seen (readLines env p Claude ?ls ?w1)) u"
    using off(3) r(2,3) by (auto intro: covered_mono)
  have "watchOK ?fs isClaude (setOffset p (ckOffset ?cp2) (readLines env p Claude ?ls ?w1))"
    unfolding setOffset_Some [OF r(4)]
    using tl(1,2,4) cov by (intro watchOK_setCheckpoint [OF r(1)]) simp_all
  moreover have "viewSize v = ckOffset ?cp \<Longrightarrow> tailFile env p Claude v w = ?w1"
    using Contents by (simp add: tailFile_def opened_def Let_def)
  moreover have "viewSize v \<noteq> ckOffset ?cp \<Longrightarrow>
      tailFile env p Claude v w = setOffset p (ckOffset ?cp2) (readLines env p Claude ?ls ?w1)"
    using Contents len by (simp add: tailFile_def opened_def Let_def)
  ultimately show ?thesis using o Contents by (cases "viewSize v = ckOffset ?cp") (simp_all add: viewed_def)
qed

text \<open>Reading a Codex file touches the checkpoint of that file only, and only adds rows.\<close>

lemma setCodex_OK: "watchOK fs isClaude w \<Longrightarrow> \<not> isClaude p \<Longrightarrow> watchOK fs isClaude (setCodex p st w)"
  by (simp add: setCodex_def watchOK_otherCheckpoint split: option.split)

lemma setOffset_OK: "watchOK fs isClaude w \<Longrightarrow> \<not> isClaude p \<Longrightarrow> watchOK fs isClaude (setOffset p off w)"
  by (simp add: setOffset_def watchOK_otherCheckpoint split: option.split)

lemma watchOK_more:
  assumes "watchOK fs isClaude w" shows "watchOK fs isClaude (addRow row w)"
  by (rule addRow_OK) (rule watchOK_mono [OF assms], auto simp: seen_def settled_def)

lemma consumeCodex_OK:
  assumes "watchOK fs isClaude w" "\<not> isClaude p"
  shows "watchOK fs isClaude (consumeCodex env p line w)"
proof -
  obtain r st where r: "parseCodexLine env line (codexOf p w) = (r, st)" by (cases "parseCodexLine env line (codexOf p w)")
  have w1: "watchOK fs isClaude (setCodex p st w)" using assms by (rule setCodex_OK)
  have "watchOK fs isClaude (w'\<lparr>waUnparsed := n\<rparr>)" if "watchOK fs isClaude w'" for w' n
    using that by (rule watchOK_mono) (simp_all add: seen_def settled_def)
  with w1 watchOK_more [OF w1] show ?thesis by (simp add: consumeCodex_def r Let_def split: option.split)
qed

lemma readLines_Codex_OK:
  "watchOK fs isClaude w \<Longrightarrow> \<not> isClaude p \<Longrightarrow> watchOK fs isClaude (readLines env p Codex ls w)"
proof (induction ls arbitrary: w)
  case (Cons l ls)
  have "watchOK fs isClaude (consumeTranscript env p Codex (trimNL (readLine l)) w)"
    using Cons.prems consumeCodex_OK by (cases "trimNL (readLine l)") simp_all
  with Cons.IH Cons.prems(2) show ?case by (simp add: readLines_def)
qed (simp add: readLines_def)

lemma tailFile_Codex_OK:
  assumes "watchOK fs isClaude w" "\<not> isClaude p"
  shows "watchOK fs isClaude (tailFile env p Codex v w)"
  using watchOK_otherCheckpoint [OF assms] assms
  by (auto simp: tailFile_def Let_def intro!: setOffset_OK readLines_Codex_OK split: fileView.split)

subsection \<open>Runs of the watcher\<close>

definition newWatcher :: "bool list \<Rightarrow> bool list \<Rightarrow> watcher" where
  "newWatcher emits saves = \<lparr>waCheckpoints = \<lambda>_. None, waPending = [], waLastOutput = [], waUnparsed = 0,
     waSaved = \<lambda>_. None, waSent = [], waDropped = [], waEmits = emits, waSaves = saves\<rparr>"

text \<open>
  A history of the watcher over files that grow, in steps as small as one file: it reads a Claude file, it
  reads another file, it flushes, or it dies, between two steps or after \<open>n\<close> lines of a file, and
  starts again from the saved checkpoints. The second argument is the content last seen of each file.
\<close>

inductive watching :: "(string \<Rightarrow> bool) \<Rightarrow> watcher \<Rightarrow> (string \<Rightarrow> string) \<Rightarrow> bool"
  for isClaude where
  started: "watching isClaude (newWatcher emits saves) (\<lambda>_. [])"
| reads: "watching isClaude w fs \<Longrightarrow> isClaude p \<Longrightarrow> grownView (fs p) v \<Longrightarrow>
    watching isClaude (tailFile env p Claude v w) (fs(p := viewed (fs p) v))"
| readsCodex: "watching isClaude w fs \<Longrightarrow> \<not> isClaude p \<Longrightarrow> watching isClaude (tailFile env p Codex v w) fs"
| flushes: "watching isClaude w fs \<Longrightarrow> watching isClaude (flushRows w) fs"
| dies: "watching isClaude w fs \<Longrightarrow> watching isClaude (restarted w) fs"
| diesReading: "watching isClaude w fs \<Longrightarrow> isClaude p \<Longrightarrow> grownView (fs p) (Contents c) \<Longrightarrow>
    watching isClaude
      (restarted (readLines env p Claude
         (take n (completeLines (drop (ckOffset (openCheckpoint Claude (length c) (waCheckpoints w p))) c)))
         (opened p Claude (Contents c) w)))
      (fs(p := c))"
| diesReadingCodex: "watching isClaude w fs \<Longrightarrow> \<not> isClaude p \<Longrightarrow>
    watching isClaude (restarted (readLines env p Codex ls (opened p Codex (Contents c) w))) fs"

lemma restarted_OK: "watchOK fs isClaude w \<Longrightarrow> watchOK fs isClaude (restarted w)"
proof -
  have "settled (restarted w) = settled w" "settled w \<subseteq> seen (restarted w)"
    by (auto simp: restarted_def settled_def seen_def)
  then show "watchOK fs isClaude w \<Longrightarrow> ?thesis"
    by (auto simp: watchOK_def restarted_def intro: ckOK_mono)
qed

lemma watching_OK: "watching isClaude w fs \<Longrightarrow> watchOK fs isClaude w"
proof (induction rule: watching.induct)
  case (started emits saves)
  then show ?case by (simp add: newWatcher_def watchOK_def ckOK_def)
next
  case (reads w fs p v env)
  then show ?case by (blast intro: tailFile_OK)
next
  case (readsCodex w fs p env v)
  then show ?case by (blast intro: tailFile_Codex_OK)
next
  case (flushes w fs)
  then show ?case by (blast intro: flushRows_OK)
next
  case (dies w fs)
  then show ?case by (blast intro: restarted_OK)
next
  case (diesReading w fs p c env n)
  let ?cp = "openCheckpoint Claude (length c) (waCheckpoints w p)"
  have o: "watchOK (fs(p := c)) isClaude (opened p Claude (Contents c) w)"
    using opened_OK [OF diesReading.IH diesReading.hyps(2,3)] by (simp add: viewed_def)
  have "waCheckpoints (opened p Claude (Contents c) w) p = Some ?cp" by (simp add: opened_def)
  note off = opened_offset [OF o diesReading.hyps(2) this, simplified]
  have "shortLines c" using diesReading.hyps(3) by (simp add: grownView_def)
  from shortLines_drop [OF this off(2)]
  have "\<forall>l \<in> set (take n (completeLines (drop (ckOffset ?cp) c))). readLine l = l" by (meson in_set_takeD)
  from readLines_OK [OF o this] show ?case by (blast intro: restarted_OK)
next
  case (diesReadingCodex w fs p env ls c)
  then have "watchOK fs isClaude (opened p Codex (Contents c) w)"
    by (simp add: opened_def watchOK_otherCheckpoint)
  from readLines_Codex_OK [OF this diesReadingCodex.hyps(2)] show ?case by (rule restarted_OK)
qed


definition claudeText :: string where
  "claudeText = ''{\"type\":\"assistant\",\"requestId\":\"q\",\"message\":{\"id\":\"m\",\"usage\":{\"output_tokens\":5}}}'' @ [CHR 0x0A]"

definition afterOutage :: watcher where
  "afterOutage = flushRows (flushRows (tailFile plainEnv ''f'' Claude (Contents claudeText) (newWatcher [False, True] [True])))"


text \<open>
  The end of the context is the exception: the checkpoints are saved although rows may be pending. A
  line read while the hub is away is then never sent: the next start begins after it.
\<close>

lemma shutdown_skips_pending:
  "(let w1 = watchStep plainEnv (WScan (\<lambda>_. Contents claudeText) [''f''] []) (newWatcher [False, True, True] [True, True, True]);
        w2 = restarted (watchStep plainEnv WDone w1);
        w3 = watchStep plainEnv WFlush (watchStep plainEnv (WScan (\<lambda>_. Contents claudeText) [''f''] []) w2)
    in (map turDedupKey (waPending w1), waSent w3, waPending w3)) = ([''m:q''], [], [])"
  by code_simp

text \<open>
  A line over the limit is not counted in the offset, which then falls behind the lines read.
\<close>

lemma long_line_not_counted: "maxLineBytes < int (length l) \<Longrightarrow> length (readLine l) = 0"
  by (simp add: readLine_def)

subsection \<open>The rows of a Codex session\<close>

fun codexCounts :: "watchEnv \<Rightarrow> (string \<times> codexUsage) list \<Rightarrow> codexState \<Rightarrow> TokenUsageRow list \<times> codexState" where
  "codexCounts env [] st = ([], st)"
| "codexCounts env (e # es) st =
     (let (r, st1) = codexCount env (fst e) (snd e) st; (rs, st2) = codexCounts env es st1
      in ((case r of None \<Rightarrow> rs | Some x \<Rightarrow> x # rs), st2))"

text \<open>Totals that only grow, the cached share never faster than the input.\<close>

definition grows :: "codexUsage \<Rightarrow> codexUsage \<Rightarrow> bool" where
  "grows a b \<longleftrightarrow> 0 \<le> cuInput a \<and> cuInput a \<le> cuInput b \<and> 0 \<le> cuOutput a \<and> cuOutput a \<le> cuOutput b
     \<and> 0 \<le> cuCached a \<and> cuCached a \<le> cuCached b \<and> cuCached b - cuCached a \<le> cuInput b - cuInput a
     \<and> in64 (cuInput b) \<and> in64 (cuOutput b)"

fun growing :: "codexUsage \<Rightarrow> codexUsage list \<Rightarrow> bool" where
  "growing a [] \<longleftrightarrow> True"
| "growing a (b # bs) \<longleftrightarrow> grows a b \<and> growing b bs"

definition rowInput :: "TokenUsageRow \<Rightarrow> int" where
  "rowInput r = turInputTokens r + turCacheReadTokens r"

lemma codexCount_growing:
  assumes "grows (csLast st) cur" "codexCount env stamp cur st = (r, st')"
  shows "csLast st' = cur \<and> csEvents st' = csEvents st + 1 \<and> csSession st' = csSession st
    \<and> (case r of
         None \<Rightarrow> cuInput cur = cuInput (csLast st) \<and> cuOutput cur = cuOutput (csLast st)
       | Some x \<Rightarrow> rowInput x = cuInput cur - cuInput (csLast st) \<and> turOutputTokens x = cuOutput cur - cuOutput (csLast st)
           \<and> turDedupKey x = ''codex:'' @ csSession st @ '':'' @ showInt (csEvents st + 1))"
proof -
  let ?di = "cuInput cur - cuInput (csLast st)" and ?do = "cuOutput cur - cuOutput (csLast st)"
    and ?dc = "cuCached cur - cuCached (csLast st)"
  note g = assms(1) [unfolded grows_def in64_def]
  have w: "wrap64 ?di = ?di" "wrap64 ?do = ?do" "wrap64 ?dc = ?dc" "wrap64 (?di - ?dc) = ?di - ?dc"
    using g by (auto simp: in64_def intro!: wrap64_id)
  have d: "codexDelta (csLast st) cur = (?di, ?do, ?dc)" using g by (simp add: codexDelta_def w Let_def)
  show ?thesis
  proof (cases "?di = 0 \<and> ?do = 0")
    case True
    with assms(2) show ?thesis by (auto simp: codexCount_def d Let_def)
  next
    case False
    with assms(2) g show ?thesis by (auto simp: codexCount_def d w Let_def rowInput_def)
  qed
qed

lemma showInt_inj: "0 \<le> a \<Longrightarrow> 0 \<le> b \<Longrightarrow> showInt a = showInt b \<Longrightarrow> a = b"
proof -
  assume h: "0 \<le> a" "0 \<le> b" "showInt a = showInt b"
  then have "showNat (nat a) = showNat (nat b)" by (simp add: showInt_def)
  then have "int (nat a) = int (nat b)" using digitsVal_showNat by (metis option.inject)
  with h show "a = b" by simp
qed

lemma codexCounts_growing:
  assumes "growing (csLast st) (map snd es)" "0 \<le> csEvents st" "codexCounts env es st = (rows, st')"
  shows "sum_list (map rowInput rows) = cuInput (csLast st') - cuInput (csLast st)
    \<and> sum_list (map turOutputTokens rows) = cuOutput (csLast st') - cuOutput (csLast st)
    \<and> (\<forall>k \<in> set (map turDedupKey rows). \<exists>n > csEvents st. k = ''codex:'' @ csSession st @ '':'' @ showInt n)
    \<and> distinct (map turDedupKey rows)"
  using assms
proof (induction es arbitrary: st rows)
  case Nil
  then show ?case by simp
next
  case (Cons e es)
  obtain r st1 where c: "codexCount env (fst e) (snd e) st = (r, st1)" by (cases "codexCount env (fst e) (snd e) st")
  obtain rs where rs: "codexCounts env es st1 = (rs, st')"
    using Cons.prems(3) c by (auto simp: Let_def split: prod.splits)
  have g: "grows (csLast st) (snd e)" using Cons.prems(1) by simp
  note one = codexCount_growing [OF g c]
  have "growing (csLast st1) (map snd es)" "0 \<le> csEvents st1" using one Cons.prems(1,2) by auto
  note ih = Cons.IH [OF this rs]
  show ?case
  proof (cases r)
    case None
    then have "rows = rs" using Cons.prems(3) c rs by simp
    have b: "csEvents st < csEvents st1" "csSession st1 = csSession st" "csLast st1 = snd e" using one by simp_all
    have z: "cuInput (snd e) = cuInput (csLast st)" "cuOutput (snd e) = cuOutput (csLast st)" using one None by simp_all
    have "\<forall>k \<in> set (map turDedupKey rs). \<exists>n > csEvents st. k = ''codex:'' @ csSession st @ '':'' @ showInt n"
    proof
      fix k assume "k \<in> set (map turDedupKey rs)"
      with ih obtain n where "csEvents st1 < n" "k = ''codex:'' @ csSession st1 @ '':'' @ showInt n" by blast
      with b show "\<exists>n > csEvents st. k = ''codex:'' @ csSession st @ '':'' @ showInt n" by (intro exI [of _ n]) simp
    qed
    with ih b z \<open>rows = rs\<close> show ?thesis by simp
  next
    case (Some x)
    then have rows: "rows = x # rs" using Cons.prems(3) c rs by simp
    have "turDedupKey x \<notin> set (map turDedupKey rs)"
    proof
      assume "turDedupKey x \<in> set (map turDedupKey rs)"
      then obtain n where n: "csEvents st1 < n" "turDedupKey x = ''codex:'' @ csSession st1 @ '':'' @ showInt n" using ih by blast
      have k: "csSession st1 = csSession st" "csEvents st1 = csEvents st + 1"
        "turDedupKey x = ''codex:'' @ csSession st @ '':'' @ showInt (csEvents st + 1)" using one Some by simp_all
      with n(2) have "showInt (csEvents st + 1) = showInt n" by simp
      with showInt_inj [of "csEvents st + 1" n] n(1) k(2) Cons.prems(2) show False by simp
    qed
    moreover have b: "csEvents st1 = csEvents st + 1" "csSession st1 = csSession st" "csLast st1 = snd e" using one by simp_all
    moreover have z: "rowInput x = cuInput (snd e) - cuInput (csLast st)" "turOutputTokens x = cuOutput (snd e) - cuOutput (csLast st)"
      "turDedupKey x = ''codex:'' @ csSession st @ '':'' @ showInt (csEvents st + 1)" using one Some by simp_all
    moreover have "\<forall>k \<in> set (map turDedupKey rs). \<exists>n > csEvents st. k = ''codex:'' @ csSession st @ '':'' @ showInt n"
    proof
      fix k assume "k \<in> set (map turDedupKey rs)"
      with ih obtain n where "csEvents st1 < n" "k = ''codex:'' @ csSession st1 @ '':'' @ showInt n" by blast
      with b show "\<exists>n > csEvents st. k = ''codex:'' @ csSession st @ '':'' @ showInt n" by (intro exI [of _ n]) simp
    qed
    moreover have "\<exists>n > csEvents st. turDedupKey x = ''codex:'' @ csSession st @ '':'' @ showInt n"
      using z(3) by (intro exI [of _ "csEvents st + 1"]) simp
    ultimately show ?thesis using ih rows by simp
  qed
qed

text \<open>The rows of a Codex session add up to its totals. While the cumulative counters only grow, the
  input of the rows (cached and uncached share) sums to the growth of the input counter, the output to
  that of the output counter, and no two rows have the same dedup key, so the hub counts each once.\<close>

theorem codex_rows_add_up:
  assumes "growing (csLast st) (map snd es)" "0 \<le> csEvents st"
  shows "(let (rows, st') = codexCounts env es st
    in sum_list (map rowInput rows) = cuInput (csLast st') - cuInput (csLast st)
       \<and> sum_list (map turOutputTokens rows) = cuOutput (csLast st') - cuOutput (csLast st)
       \<and> distinct (map turDedupKey rows))"
  using codexCounts_growing [OF assms] by (cases "codexCounts env es st") (simp add: Let_def)

definition usageAt :: "int \<Rightarrow> int \<Rightarrow> int \<Rightarrow> codexUsage" where
  "usageAt i c out = \<lparr>cuInput = i, cuCached = c, cuOutput = out, cuReasoning = 0, cuTotal = i + out\<rparr>"

theorem codex_rows_add_up_witness:
  "(let (rows, st') = codexCounts plainEnv [(''t'', usageAt 10 4 3), (''t'', usageAt 10 4 3), (''t'', usageAt 30 9 5)] newCodexState
    in map (\<lambda>r. (turInputTokens r, turCacheReadTokens r, turOutputTokens r)) rows = [(6, 4, 3), (15, 5, 2)]
       \<and> sum_list (map rowInput rows) = 30 \<and> sum_list (map turOutputTokens rows) = 5)"
proof -
  let ?es = "[(''t'', usageAt 10 4 3), (''t'', usageAt 10 4 3), (''t'', usageAt 30 9 5)]"
  have g: "growing (csLast newCodexState) (map snd ?es)" by code_simp
  have e: "0 \<le> csEvents newCodexState" by (simp add: newCodexState_def)
  have v: "map (\<lambda>r. (turInputTokens r, turCacheReadTokens r, turOutputTokens r)) (fst (codexCounts plainEnv ?es newCodexState))
      = [(6, 4, 3), (15, 5, 2)]" by code_simp
  have l: "cuInput (csLast (snd (codexCounts plainEnv ?es newCodexState))) - cuInput (csLast newCodexState) = 30
      \<and> cuOutput (csLast (snd (codexCounts plainEnv ?es newCodexState))) - cuOutput (csLast newCodexState) = 5" by code_simp
  from codex_rows_add_up [OF g e, of plainEnv] v l show ?thesis
    by (cases "codexCounts plainEnv ?es newCodexState") (simp add: Let_def)
qed

subsection \<open>Which app pays\<close>

definition appDir :: "(string \<Rightarrow> string option) \<Rightarrow> AppState \<Rightarrow> string" where
  "appDir real a = realOr real (defCwd (asDefinition a))"

definition claims :: "(string \<Rightarrow> string option) \<Rightarrow> string \<Rightarrow> AppState \<Rightarrow> bool" where
  "claims real cwd a \<longleftrightarrow> defCwd (asDefinition a) \<noteq> '''' \<and> appDir real a \<noteq> '''' \<and> cwdMatches (realOr real cwd) (appDir real a)"

lemma betterApp_eq:
  "betterApp real (realOr real cwd) a best =
     (if claims real cwd (snd a) \<and> snd best < length (appDir real (snd a)) then (fst a, length (appDir real (snd a))) else best)"
  by (auto simp: betterApp_def claims_def appDir_def Let_def)

lemma fold_betterApp:
  "let best = fold (betterApp real (realOr real cwd)) apps best0
   in (best = best0 \<or> (\<exists>a. (fst best, a) \<in> set apps \<and> claims real cwd a \<and> snd best = length (appDir real a)))
      \<and> snd best0 \<le> snd best \<and> (\<forall>(i, b) \<in> set apps. claims real cwd b \<longrightarrow> length (appDir real b) \<le> snd best)"
proof (induction apps arbitrary: best0)
  case (Cons a apps)
  show ?case
    using Cons.IH [of "betterApp real (realOr real cwd) a best0"]
    by (cases a) (fastforce simp: betterApp_eq Let_def split: if_splits)
qed simp

text \<open>A transcript belongs to the app whose directory, links resolved, is the longest that holds the
  working directory of the transcript; it belongs to no app exactly when there is none, and then the
  usage counts for the system.\<close>

theorem transcript_belongs_to_longest:
  assumes "cwd \<noteq> ''''" "\<forall>(i, a) \<in> set apps. i \<noteq> ''''"
  shows "(let app = resolveAppByCwd real apps cwd in
      if app = '''' then \<forall>(i, a) \<in> set apps. \<not> claims real cwd a
      else \<exists>a. (app, a) \<in> set apps \<and> claims real cwd a
             \<and> (\<forall>(i, b) \<in> set apps. claims real cwd b \<longrightarrow> length (appDir real b) \<le> length (appDir real a)))"
proof -
  let ?best = "fold (betterApp real (realOr real cwd)) apps ('''', 0)"
  have b: "resolveAppByCwd real apps cwd = fst ?best" using assms(1) by (simp add: resolveAppByCwd_def)
  note f = fold_betterApp [of real cwd apps "('''', 0)", unfolded Let_def]
  show ?thesis
  proof (cases "?best = ('''', 0)")
    case True
    have "\<not> claims real cwd a" if "(i, a) \<in> set apps" for i a
    proof
      assume c: "claims real cwd a"
      with f that True have "length (appDir real a) \<le> 0" by fastforce
      with c show False by (simp add: claims_def)
    qed
    with True b show ?thesis by auto
  next
    case False
    with f obtain a where a: "(fst ?best, a) \<in> set apps" "claims real cwd a" "snd ?best = length (appDir real a)" by blast
    then have "fst ?best \<noteq> ''''" using assms(2) by blast
    with a f b show ?thesis by (auto simp: Let_def)
  qed
qed

theorem transcript_belongs_to_longest_witness:
  "resolveAppByCwd (\<lambda>_. None)
     [(''x'', sampleApp\<lparr>asDefinition := sampleDef\<lparr>defCwd := ''/a''\<rparr>\<rparr>), (''y'', sampleApp\<lparr>asDefinition := sampleDef\<lparr>defCwd := ''/a/b''\<rparr>\<rparr>)]
     ''/a/b/c'' = ''y''
   \<and> claims (\<lambda>_. None) ''/a/b/c'' (sampleApp\<lparr>asDefinition := sampleDef\<lparr>defCwd := ''/a/b''\<rparr>\<rparr>)"
proof -
  let ?apps = "[(''x'', sampleApp\<lparr>asDefinition := sampleDef\<lparr>defCwd := ''/a''\<rparr>\<rparr>), (''y'', sampleApp\<lparr>asDefinition := sampleDef\<lparr>defCwd := ''/a/b''\<rparr>\<rparr>)]"
  have r: "resolveAppByCwd (\<lambda>_. None) ?apps ''/a/b/c'' = ''y''" by code_simp
  from transcript_belongs_to_longest [of "''/a/b/c''" ?apps "\<lambda>_. None"] r show ?thesis by (auto simp: Let_def)
qed

end
