(* ===== verification/Docker.thy ===== *)
theory Docker
  imports Http AgentControl
begin

text \<open>
  Containers and compose projects (\<^verbatim>\<open>agent/internal/dockerapp\<close>): the engine's REST calls, the
  demultiplexing of container logs, the compose command line, and what the daemon samples and polls
  through them. What the engine answers to a request, what the docker command prints and the texts
  of JSON errors are parameters.
\<close>

subsection \<open>The engine API\<close>

datatype execReply = ExecOK string | ExecFailed string string

record dockerEnv =
  deHTTP :: "string \<Rightarrow> string \<Rightarrow> httpReply"
  deJSONError :: "string \<Rightarrow> string"
  deExec :: "string list \<Rightarrow> execReply"
  dePrintable :: "string \<Rightarrow> bool"

definition apiVersion :: string where
  "apiVersion = ''v1.40''"

definition dockerURL :: "string \<Rightarrow> string" where
  "dockerURL path = ''http://docker/'' @ apiVersion @ path"

definition apiFailure :: "string \<Rightarrow> string \<Rightarrow> string \<Rightarrow> string" where
  "apiFailure path status body = ''docker API '' @ path @ '': '' @ status @ '': '' @ trimSpace (take 512 body)"

definition get :: "dockerEnv \<Rightarrow> string \<Rightarrow> 'a \<Rightarrow> 'a decoder option \<Rightarrow> 'a go_result" where
  "get env path zero out =
     (case deHTTP env ''GET'' (dockerURL path) of
        NoReply e \<Rightarrow> Inl e
      | Reply code status body \<Rightarrow>
          if 300 \<le> code then Inl (apiFailure path status body)
          else (case out of
              None \<Rightarrow> Inr zero
            | Some dec \<Rightarrow> (case decodeFirst zero dec body of
                (x, ok) \<Rightarrow> if ok then Inr x else Inl (deJSONError env body))))"

definition post :: "dockerEnv \<Rightarrow> string \<Rightarrow> string option" where
  "post env path =
     (case deHTTP env ''POST'' (dockerURL path) of
        NoReply e \<Rightarrow> Some e
      | Reply code status body \<Rightarrow>
          if 300 \<le> code \<and> code \<noteq> 304 then Some (apiFailure path status body) else None)"

definition Ping :: "dockerEnv \<Rightarrow> string option" where
  "Ping env = (case get env ''/_ping'' () None of Inl e \<Rightarrow> Some e | Inr _ \<Rightarrow> None)"

definition containerPath :: "string \<Rightarrow> string \<Rightarrow> string" where
  "containerPath cid rest = ''/containers/'' @ pathEscape cid @ rest"

definition graceOr10 :: "int \<Rightarrow> int" where
  "graceOr10 timeoutS = (if timeoutS \<le> 0 then 10 else timeoutS)"

definition containerStart :: "dockerEnv \<Rightarrow> string \<Rightarrow> string option" where
  "containerStart env cid = post env (containerPath cid ''/start'')"

definition containerStop :: "dockerEnv \<Rightarrow> string \<Rightarrow> int \<Rightarrow> string option" where
  "containerStop env cid timeoutS = post env (containerPath cid (''/stop?t='' @ showInt (graceOr10 timeoutS)))"

definition containerRestart :: "dockerEnv \<Rightarrow> string \<Rightarrow> int \<Rightarrow> string option" where
  "containerRestart env cid timeoutS = post env (containerPath cid (''/restart?t='' @ showInt (graceOr10 timeoutS)))"

text \<open>The engine socket: \<open>getenv\<close> is the environment, \<open>exists\<close> says which paths exist.\<close>

definition socketPath :: "(string \<Rightarrow> string) \<Rightarrow> string" where
  "socketPath getenv =
     (if hasPrefix (getenv ''DOCKER_HOST'') ''unix://'' then trimPrefix (getenv ''DOCKER_HOST'') ''unix://''
      else ''/var/run/docker.sock'')"

definition newClient :: "(string \<Rightarrow> string) \<Rightarrow> (string \<Rightarrow> bool) \<Rightarrow> dockerEnv \<Rightarrow> string option" where
  "newClient getenv exists env =
     (if \<not> exists (socketPath getenv) then Some (''docker socket not found at '' @ socketPath getenv)
      else Ping env)"

subsection \<open>Inspect\<close>

record inspectState =
  ikRunning :: bool
  ikPid :: int
  ikExitCode :: int

record inspectDoc =
  ikID :: string
  ikName :: string
  ikState :: inspectState

definition inspectStateFields :: "inspectState field list" where
  "inspectStateFields =
     [fld ''running'' ikRunning ikRunning_update boolDec, fld ''pid'' ikPid ikPid_update intDec,
      fld ''exitcode'' ikExitCode ikExitCode_update intDec]"

definition inspectFields :: "inspectDoc field list" where
  "inspectFields =
     [fld ''id'' ikID ikID_update strDec, fld ''name'' ikName ikName_update strDec,
      fld ''state'' ikState ikState_update (structDec inspectStateFields)]"

definition emptyInspect :: inspectDoc where
  "emptyInspect = \<lparr>ikID = '''', ikName = '''', ikState = \<lparr>ikRunning = False, ikPid = 0, ikExitCode = 0\<rparr>\<rparr>"

text \<open>The container's identity beside the state the daemon looks at.\<close>

record ContainerInfo = ContainerState +
  csID :: string
  csName :: string

definition Inspect :: "dockerEnv \<Rightarrow> string \<Rightarrow> ContainerInfo go_result" where
  "Inspect env cid =
     map_sum id (\<lambda>d. \<lparr>csRunning = ikRunning (ikState d), csPID = ikPid (ikState d),
         csExitCode = ikExitCode (ikState d), csID = ikID d, csName = trimPrefix (ikName d) ''/''\<rparr>)
       (get env (containerPath cid ''/json'') emptyInspect (Some (structDec inspectFields)))"

subsection \<open>Statistics\<close>

record cpuUsageDoc =
  cuTotalUsage :: "64 word"

record cpuStatsDoc =
  cpUsage :: cpuUsageDoc
  cpSystem :: "64 word"
  cpOnline :: int

record memStatsDoc =
  meUsage :: "64 word"
  meStats :: "(string \<times> 64 word) list"

record statsDoc =
  sdCPU :: cpuStatsDoc
  sdPreCPU :: cpuStatsDoc
  sdMemory :: memStatsDoc

definition cpuUsageFields :: "cpuUsageDoc field list" where
  "cpuUsageFields = [fld ''total_usage'' cuTotalUsage cuTotalUsage_update u64Dec]"

definition preCPUFields :: "cpuStatsDoc field list" where
  "preCPUFields =
     [fld ''cpu_usage'' cpUsage cpUsage_update (structDec cpuUsageFields),
      fld ''system_cpu_usage'' cpSystem cpSystem_update u64Dec]"

definition cpuFields :: "cpuStatsDoc field list" where
  "cpuFields = preCPUFields @ [fld ''online_cpus'' cpOnline cpOnline_update intDec]"

definition memFields :: "memStatsDoc field list" where
  "memFields =
     [fld ''usage'' meUsage meUsage_update u64Dec, fld ''stats'' meStats meStats_update (mapDec 0 u64Dec)]"

definition statsFields :: "statsDoc field list" where
  "statsFields =
     [fld ''cpu_stats'' sdCPU sdCPU_update (structDec cpuFields),
      fld ''precpu_stats'' sdPreCPU sdPreCPU_update (structDec preCPUFields),
      fld ''memory_stats'' sdMemory sdMemory_update (structDec memFields)]"

definition emptyCPU :: cpuStatsDoc where
  "emptyCPU = \<lparr>cpUsage = \<lparr>cuTotalUsage = 0\<rparr>, cpSystem = 0, cpOnline = 0\<rparr>"

definition emptyStats :: statsDoc where
  "emptyStats = \<lparr>sdCPU = emptyCPU, sdPreCPU = emptyCPU, sdMemory = \<lparr>meUsage = 0, meStats = []\<rparr>\<rparr>"

record 'f StatsSample =
  saCPUPct :: 'f
  saMemRSS :: "64 word"

definition cpuPercent :: "'f arith \<Rightarrow> statsDoc \<Rightarrow> 'f" where
  "cpuPercent ar d =
     (let delta = (\<lambda>f. arSub ar (arOfWord ar (f (sdCPU d))) (arOfWord ar (f (sdPreCPU d))));
          cpuDelta = delta (\<lambda>c. cuTotalUsage (cpUsage c)); sysDelta = delta cpSystem;
          n = (if cpOnline (sdCPU d) = 0 then 1 else cpOnline (sdCPU d))
      in if arPos ar cpuDelta \<and> arPos ar sysDelta
         then arMul ar (arMul ar (arDiv ar cpuDelta sysDelta) (arOfInt ar n)) (arOfInt ar 100)
         else arZero ar)"

definition inactiveFile :: "statsDoc \<Rightarrow> 64 word" where
  "inactiveFile d = (case map_of (meStats (sdMemory d)) ''inactive_file'' of None \<Rightarrow> 0 | Some w \<Rightarrow> w)"

definition Stats :: "'f arith \<Rightarrow> dockerEnv \<Rightarrow> string \<Rightarrow> 'f StatsSample go_result" where
  "Stats ar env cid =
     map_sum id (\<lambda>d. \<lparr>saCPUPct = cpuPercent ar d, saMemRSS = meUsage (sdMemory d) - inactiveFile d\<rparr>)
       (get env (containerPath cid ''/stats?stream=false&one-shot=false'') emptyStats (Some (structDec statsFields)))"

subsection \<open>Logs\<close>

text \<open>
  The payloads of the complete frames of a multiplexed stream: an eight-byte header whose last four
  bytes are the length. A frame that is cut off ends the stream.
\<close>

function frames :: "string \<Rightarrow> string list" where
  "frames s =
     (if length s < 8 then []
      else let n = be32 (drop 4 s); r = drop 8 s
           in if length r < n then [] else take n r # frames (drop n r))"
  by pat_completeness auto
termination by (relation "measure length") auto

declare frames.simps [simp del]

text \<open>Each payload extends the pending text; its complete lines are cut off.\<close>

definition takeFrame :: "string \<Rightarrow> string \<times> string list list \<Rightarrow> string \<times> string list list" where
  "takeFrame payload = (\<lambda>(pending, batches).
     case lineFeed pending payload of (p, ls) \<Rightarrow> (p, batches @ [map dropCR ls]))"

definition demux :: "string list \<Rightarrow> string \<times> string list list" where
  "demux fs = fold takeFrame fs ('''', [])"

definition rawStream :: "string \<Rightarrow> bool" where
  "rawStream body \<longleftrightarrow> 2 < (of_char (hd body) :: nat)"

definition tailOr200 :: "int \<Rightarrow> int" where
  "tailOr200 tail = (if tail \<le> 0 then 200 else tail)"

definition logLines :: "string \<Rightarrow> string list" where
  "logLines body =
     (if body = [] then []
      else if rawStream body then scanLines body
      else (case demux (frames body) of (p, bs) \<Rightarrow> concat bs @ (if p = [] then [] else [p])))"

definition Logs :: "dockerEnv \<Rightarrow> string \<Rightarrow> int \<Rightarrow> string list go_result" where
  "Logs env cid tail =
     (case deHTTP env ''GET'' (dockerURL (containerPath cid (''/logs?stdout=1&stderr=1&tail='' @ showInt (tailOr200 tail)))) of
        NoReply e \<Rightarrow> Inl e
      | Reply code status body \<Rightarrow>
          if 300 \<le> code then Inl (''docker logs: '' @ status @ '': '' @ trimSpace (take 512 body))
          else Inr (logLines body))"

text \<open>
  Following: the batches handed to the callback. The body is what arrives until the stream ends;
  \<open>checks\<close> is how often the context is found alive.
\<close>

definition followBatches :: "nat \<Rightarrow> string \<Rightarrow> string list list" where
  "followBatches checks body =
     (if body = [] then []
      else if rawStream body then map (\<lambda>l. [l]) (take (Suc checks) (scanLines body))
      else filter (\<lambda>b. b \<noteq> []) (snd (demux (take checks (frames body)))))"

definition Follow :: "dockerEnv \<Rightarrow> nat \<Rightarrow> string \<Rightarrow> int \<Rightarrow> string list list \<times> string option" where
  "Follow env checks cid tail =
     (case deHTTP env ''GET''
        (dockerURL (containerPath cid (''/logs?stdout=1&stderr=1&follow=1&tail='' @ showInt (tailOr200 tail)))) of
        NoReply e \<Rightarrow> ([], Some e)
      | Reply code status body \<Rightarrow> (followBatches checks body, None))"

subsection \<open>Compose\<close>

definition composeCmd :: "dockerEnv \<Rightarrow> string \<Rightarrow> string list \<Rightarrow> string go_result" where
  "composeCmd env project args =
     (case deExec env ([''compose'', ''-p'', project] @ args) of
        ExecOK out \<Rightarrow> Inr out
      | ExecFailed err stderr \<Rightarrow>
          (let msg = trimSpace stderr
           in Inl (''docker compose '' @ joinWith '' '' args @ '': '' @ (if msg = [] then err else msg))))"

definition failure :: "'a go_result \<Rightarrow> string option" where
  "failure r = (case r of Inl e \<Rightarrow> Some e | Inr _ \<Rightarrow> None)"

fun containsText :: "string \<Rightarrow> string \<Rightarrow> bool" where
  "containsText [] t = (t = [])"
| "containsText (c # s) t = (hasPrefix (c # s) t \<or> containsText s t)"

definition noContainers :: "dockerEnv \<Rightarrow> string \<Rightarrow> string" where
  "noContainers env project =
     ''compose project '' @ goQuote (dePrintable env) project
       @ '' has no containers; run `docker compose up -d` in its directory once, then BreakerBox can manage it''"

definition ComposeStart :: "dockerEnv \<Rightarrow> string \<Rightarrow> string option" where
  "ComposeStart env project =
     (case composeCmd env project [''start''] of
        Inr _ \<Rightarrow> None
      | Inl e \<Rightarrow> Some (if containsText e ''no such service'' then noContainers env project else e))"

definition ComposeStop :: "dockerEnv \<Rightarrow> string \<Rightarrow> string option" where
  "ComposeStop env project = failure (composeCmd env project [''stop''])"

definition ComposeRestart :: "dockerEnv \<Rightarrow> string \<Rightarrow> string option" where
  "ComposeRestart env project = failure (composeCmd env project [''restart''])"

definition ComposeContainerIDs :: "dockerEnv \<Rightarrow> string \<Rightarrow> string list go_result" where
  "ComposeContainerIDs env project =
     map_sum id (\<lambda>out. filter (\<lambda>l. l \<noteq> []) (map trimSpace (splitOn CHR 0x0A (trimSpace out))))
       (composeCmd env project [''ps'', ''-a'', ''-q''])"

definition inspectRunning :: "dockerEnv \<Rightarrow> string \<Rightarrow> bool" where
  "inspectRunning env cid = (case Inspect env cid of Inl _ \<Rightarrow> False | Inr cs \<Rightarrow> csRunning cs)"

definition ComposeStatus :: "dockerEnv \<Rightarrow> string \<Rightarrow> ComposeState go_result" where
  "ComposeStatus env project =
     map_sum id (\<lambda>ids. \<lparr>cmRunning = length (filter (inspectRunning env) ids), cmTotal = length ids, cmContainerIDs = ids\<rparr>)
       (ComposeContainerIDs env project)"

definition ComposeAvailable :: "dockerEnv \<Rightarrow> bool" where
  "ComposeAvailable env = (case deExec env [''compose'', ''version''] of ExecOK _ \<Rightarrow> True | ExecFailed _ _ \<Rightarrow> False)"

record psRow =
  psService :: string
  psState :: string

definition psFields :: "psRow field list" where
  "psFields = [fld ''service'' psService psService_update strDec, fld ''state'' psState psState_update strDec]"

definition emptyRow :: psRow where
  "emptyRow = \<lparr>psService = '''', psState = ''''\<rparr>"

text \<open>One array, or one object to a line; lines that are not a named service are passed over.\<close>

definition psLine :: "string \<Rightarrow> (string \<times> string) list \<Rightarrow> (string \<times> string) list" where
  "psLine line services =
     (case unmarshal emptyRow (structDec psFields) (trimSpace line) of
        (r, ok) \<Rightarrow> if ok \<and> psService r \<noteq> [] then putEntry (psService r) (psState r) services else services)"

definition psServices :: "dockerEnv \<Rightarrow> string \<Rightarrow> (string \<times> string) list go_result" where
  "psServices env trimmed =
     (if trimmed = [] then Inr []
      else if hd trimmed = CHR ''['' then
        (case unmarshal [] (listDec emptyRow (structDec psFields)) trimmed of
           (rows, ok) \<Rightarrow> if ok then Inr (fold (\<lambda>r. putEntry (psService r) (psState r)) rows [])
                        else Inl (deJSONError env trimmed))
      else Inr (fold psLine (splitOn CHR 0x0A trimmed) []))"

definition ComposePS :: "dockerEnv \<Rightarrow> string \<Rightarrow> (string \<times> string) list go_result" where
  "ComposePS env project =
     (case composeCmd env project [''ps'', ''-a'', ''--format'', ''json''] of
        Inl e \<Rightarrow> Inl e
      | Inr out \<Rightarrow> psServices env (trimSpace out))"

text \<open>The merged log of a project: the output of the compose command, line by line.\<close>

datatype followReply = NotStarted string | Output string "string option"

definition ComposeFollow :: "(string list \<Rightarrow> followReply) \<Rightarrow> string \<Rightarrow> int \<Rightarrow> string list list \<times> string option" where
  "ComposeFollow run project tail =
     (case run [''compose'', ''-p'', project, ''logs'', ''--follow'', ''--tail'', showInt (tailOr200 tail)] of
        NotStarted e \<Rightarrow> ([], Some e)
      | Output out err \<Rightarrow> (map (\<lambda>l. [l]) (scanLines out), err))"

subsection \<open>Samples\<close>

text \<open>
  One sample for each container application last seen running: the sums over its containers that
  answered. The goroutines append in any order; \<open>order\<close> is one such order.
\<close>

definition sampleIDs :: "dockerEnv \<Rightarrow> AppDefinition \<Rightarrow> string list" where
  "sampleIDs env def =
     (case defKind def of
        KindDocker \<Rightarrow> [defContainerID def]
      | KindCompose \<Rightarrow> (case ComposeStatus env (defComposeProject def) of Inl _ \<Rightarrow> [] | Inr st \<Rightarrow> cmContainerIDs st)
      | _ \<Rightarrow> [])"

definition answeredStats :: "'f arith \<Rightarrow> dockerEnv \<Rightarrow> string list \<Rightarrow> 'f StatsSample list" where
  "answeredStats ar env ids =
     List.map_filter (\<lambda>cid. case Stats ar env cid of Inl _ \<Rightarrow> None | Inr s \<Rightarrow> Some s) ids"

definition containerSample :: "'f arith \<Rightarrow> int \<Rightarrow> string \<Rightarrow> 'f StatsSample list \<Rightarrow> 'f AppSample" where
  "containerSample ar now appID ss =
     \<lparr>smTS = now, smAppID = appID, smCPUPct = foldl (\<lambda>c s. arAdd ar c (saCPUPct s)) (arZero ar) ss,
      smMemRSS = uint (foldl (\<lambda>m s. m + saMemRSS s) 0 ss), smPorts = []\<rparr>"

definition dockerAppSamples :: "'f arith \<Rightarrow> dockerEnv \<Rightarrow> int \<Rightarrow> string list \<Rightarrow> daemon \<Rightarrow> 'f AppSample list" where
  "dockerAppSamples ar env now order d =
     (if \<not> dDocker d then []
      else List.map_filter (\<lambda>(appID, def).
          (case answeredStats ar env (sampleIDs env def) of [] \<Rightarrow> None | ss \<Rightarrow> Some (containerSample ar now appID ss)))
        (filter (\<lambda>t. dDockerStatus d (fst t) = Some StatusRunning) (pollTargets order d)))"

end
