(* ===== verification/DockerProps.thy ===== *)
theory DockerProps
  imports Docker AgentSecurity
begin

text \<open>
  Properties of the container side: a container's log is read exactly, however the engine cuts it
  into frames; the poll reports exactly the changes the engine made; a container id stays inside its
  path segment; the memory figure is right as long as the engine's cache figure is not larger.
\<close>

subsection \<open>The frames of a log\<close>

text \<open>What the engine writes for a list of payloads, each with its stream (0, 1 or 2).\<close>

definition frameOf :: "char \<times> string \<Rightarrow> string" where
  "frameOf f = [fst f, CHR 0x00, CHR 0x00, CHR 0x00] @ be32Enc (length (snd f)) @ snd f"

definition muxed :: "(char \<times> string) list \<Rightarrow> string" where
  "muxed fs = concat (map frameOf fs)"

definition frameOK :: "char \<times> string \<Rightarrow> bool" where
  "frameOK f \<longleftrightarrow> (of_char (fst f) :: nat) \<le> 2 \<and> int (length (snd f)) < 4294967296"

lemma frames_frameOf:
  assumes "frameOK f"
  shows "frames (frameOf f @ s) = snd f # frames s"
proof -
  have "length (snd f) < 4294967296" using assms by (simp add: frameOK_def)
  then have n: "be32 (be32Enc (length (snd f)) @ snd f @ s) = length (snd f)" by (rule be32_be32Enc)
  have d: "drop 4 (frameOf f @ s) = be32Enc (length (snd f)) @ snd f @ s" by (simp add: frameOf_def)
  have d8: "drop 8 (frameOf f @ s) = snd f @ s" by (simp add: frameOf_def)
  have "\<not> length (frameOf f @ s) < 8" by (simp add: frameOf_def)
  then show ?thesis by (subst frames.simps) (simp only: d d8 n Let_def, simp)
qed

lemma frames_muxed: "list_all frameOK fs \<Longrightarrow> frames (muxed fs @ s) = map snd fs @ frames s"
proof (induction fs)
  case (Cons f fs)
  then show ?case using frames_frameOf [of f "muxed fs @ s"] by (simp add: muxed_def)
qed (simp add: muxed_def)


lemma fold_takeFrame:
  "CHR 0x0A \<notin> set p \<Longrightarrow>
   fst (fold takeFrame fs (p, bs)) = fst (lineFeed p (concat fs))
   \<and> concat (snd (fold takeFrame fs (p, bs))) = concat bs @ map dropCR (snd (lineFeed p (concat fs)))"
proof (induction fs arbitrary: p bs)
  case Nil
  then show ?case by (simp add: lineFeed_Nil)
next
  case (Cons f fs)
  have "takeFrame f (p, bs) = (fst (lineFeed p f), bs @ [map dropCR (snd (lineFeed p f))])"
    by (simp add: takeFrame_def split: prod.split)
  with Cons.IH [OF lineFeed_partial_free, of p f "bs @ [map dropCR (snd (lineFeed p f))]"] show ?case
    by (simp add: lineFeed_append [of p f])
qed

lemma demux_lines:
  "fst (demux fs) = fst (lineFeed [] (concat fs)) \<and> concat (snd (demux fs)) = map dropCR (snd (lineFeed [] (concat fs)))"
  using fold_takeFrame [of "[]" fs "[]"] by (simp add: demux_def)

lemma concat_nonempty: "concat (filter (\<lambda>b. b \<noteq> []) bs) = concat bs"
  by (induction bs) auto

lemma muxed_body:
  assumes "fs \<noteq> []" "list_all frameOK fs"
  shows "muxed fs @ s \<noteq> [] \<and> \<not> rawStream (muxed fs @ s)"
proof -
  obtain f gs where "fs = f # gs" using assms(1) by (cases fs) auto
  with assms(2) show ?thesis by (simp add: muxed_def frameOf_def rawStream_def frameOK_def)
qed


definition oneEngine :: "(string \<Rightarrow> httpReply) \<Rightarrow> dockerEnv" where
  "oneEngine reply = \<lparr>deHTTP = (\<lambda>m. reply), deJSONError = (\<lambda>_. ''bad json''), deExec = (\<lambda>_. ExecFailed ''no docker'' ''''),
     dePrintable = (\<lambda>_. True)\<rparr>"

text \<open>Two lines and a half in three frames of both streams, cut in the middle of a fourth frame's header.\<close>

definition sampleFrames :: "(char \<times> string) list" where
  "sampleFrames = [(CHR 0x01, ''he''), (CHR 0x01, ''llo'' @ [CHR 0x0D, CHR 0x0A]), (CHR 0x02, ''x'' @ [CHR 0x0A] @ ''yz'')]"


subsection \<open>The poll\<close>

text \<open>What the engine says of an application, through the client's calls.\<close>

definition engineView :: "dockerEnv \<Rightarrow> AppDefinition \<Rightarrow> (string + ContainerState) \<times> (string + ComposeState)" where
  "engineView env def =
     (map_sum id ContainerState.truncate (Inspect env (defContainerID def)), ComposeStatus env (defComposeProject def))"

definition engineStatus :: "dockerEnv \<Rightarrow> AppDefinition \<Rightarrow> AppStatus \<times> int \<times> int option" where
  "engineStatus env def = (case engineView env def of (insp, cst) \<Rightarrow> pollStatus (defKind def) insp cst)"

definition pollEngine :: "dockerEnv \<Rightarrow> (string \<Rightarrow> Port list) \<Rightarrow> daemon
    \<Rightarrow> string \<Rightarrow> (string + ContainerState) \<times> (string + ComposeState) \<times> Port list" where
  "pollEngine env ports d i =
     (case dApps d i of
        None \<Rightarrow> (Inl '''', Inl '''', ports i)
      | Some app \<Rightarrow> (case engineView env (asDefinition app) of (insp, cst) \<Rightarrow> (insp, cst, ports i)))"

definition statusEvent :: "(string \<Rightarrow> Port list) \<Rightarrow> string \<Rightarrow> AppStatus \<times> int \<times> int option \<Rightarrow> AgentFrame" where
  "statusEvent ports i s = (case s of (status, pid, exitCode) \<Rightarrow>
     FAppEvent \<lparr>aeAppID = i, aeStatus = status, aePID = pid, aeExitCode = exitCode, aeRestartCount = 0,
       aePorts = (if status = StatusRunning \<and> pid \<noteq> 0 then ports i else [])\<rparr>)"

definition changed :: "dockerEnv \<Rightarrow> daemon \<Rightarrow> string \<times> AppDefinition \<Rightarrow> bool" where
  "changed env d t \<longleftrightarrow> dDockerStatus d (fst t) \<noteq> Some (fst (engineStatus env (snd t)))"

lemma pollApp_effect:
  assumes "engine i = (fst (engineView env def), snd (engineView env def), ports i)" "dConn d"
  shows "dSent (pollApp engine (i, def) d)
      = dSent d @ (if changed env d (i, def) then [statusEvent ports i (engineStatus env def)] else [])
    \<and> dDockerStatus (pollApp engine (i, def) d) = (dDockerStatus d)(i \<mapsto> fst (engineStatus env def))
    \<and> dConn (pollApp engine (i, def) d)"
proof -
  obtain st pid ec where s: "engineStatus env def = (st, pid, ec)" by (cases "engineStatus env def")
  then have p: "pollStatus (defKind def) (fst (engineView env def)) (snd (engineView env def)) = (st, pid, ec)"
    by (simp add: engineStatus_def split: prod.splits)
  show ?thesis using assms(2)
    by (auto simp: pollApp_def assms(1) p s changed_def statusEvent_def sendEvent_def sendF_def setDockerStatus_def Let_def)
qed

lemma fold_pollApp:
  assumes "\<And>t. t \<in> set ts \<Longrightarrow> engine (fst t) = (fst (engineView env (snd t)), snd (engineView env (snd t)), ports (fst t))"
    and "distinct (map fst ts)" "dConn d"
  shows "dSent (fold (pollApp engine) ts d)
      = dSent d @ map (\<lambda>t. statusEvent ports (fst t) (engineStatus env (snd t))) (filter (changed env d) ts)
    \<and> (\<forall>t \<in> set ts. dDockerStatus (fold (pollApp engine) ts d) (fst t) = Some (fst (engineStatus env (snd t))))
    \<and> (\<forall>i. i \<notin> fst ` set ts \<longrightarrow> dDockerStatus (fold (pollApp engine) ts d) i = dDockerStatus d i)"
  using assms
proof (induction ts arbitrary: d)
  case (Cons t ts)
  obtain i def where t: "t = (i, def)" by force
  let ?d = "pollApp engine (i, def) d"
  have e: "engine i = (fst (engineView env def), snd (engineView env def), ports i)" using Cons.prems(1) [of t] t by simp
  note one = pollApp_effect [of engine i env def ports d, OF e Cons.prems(3)]
  have out: "i \<notin> fst ` set ts" using Cons.prems(2) t by simp
  have same: "filter (changed env ?d) ts = filter (changed env d) ts"
    using out one by (intro filter_cong) (auto simp: changed_def)
  have "distinct (map fst ts)" "dConn ?d" using Cons.prems(2) one by simp_all
  note ih = Cons.IH [OF Cons.prems(1) this, simplified]
  from ih one out t same show ?case by (auto simp: fun_upd_other)
qed simp

text \<open>The poll reports exactly what the engine changed. For an agent that is connected, one poll over
  the engine's answers sends one event for each container application whose state differs from the
  recorded one, with the state, the process and the exit code the engine reports, sends nothing else,
  and leaves the recorded state of each such application equal to the engine's.\<close>

theorem container_poll_reports:
  assumes "distinct order" "dConn d"
  shows "(let d' = pollDockerApps (pollEngine env ports d) order d; ts = pollTargets order d
    in dSent d' = dSent d @ map (\<lambda>t. statusEvent ports (fst t) (engineStatus env (snd t))) (filter (changed env d) ts)
       \<and> (\<forall>t \<in> set ts. dDockerStatus d' (fst t) = Some (fst (engineStatus env (snd t)))))"
proof -
  have "pollEngine env ports d (fst t) = (fst (engineView env (snd t)), snd (engineView env (snd t)), ports (fst t))"
    if "t \<in> set (pollTargets order d)" for t
    using that by (auto simp: pollTargets_def map_filter_def pollEngine_def split: option.splits if_splits prod.splits)
  moreover have "distinct (map fst (pollTargets order d))"
  proof -
    have "map fst (pollTargets order d) = filter (\<lambda>i. \<exists>app. dApps d i = Some app \<and> isDockerKind (defKind (asDefinition app))) order"
      by (induction order) (auto simp: pollTargets_def map_filter_def split: option.splits)
    with assms(1) show ?thesis by simp
  qed
  ultimately show ?thesis
    using fold_pollApp [of "pollTargets order d" "pollEngine env ports d" env ports d] assms(2)
    by (simp add: pollDockerApps_def Let_def)
qed

definition runningDoc :: string where
  "runningDoc = writeJson (JObj [(''Id'', JStr ''c1''), (''Name'', JStr ''/web''),
     (''State'', JObj [(''Running'', JBool True), (''Pid'', JNum ''42'')])])"

definition containerApp :: AppState where
  "containerApp = sampleApp\<lparr>asDefinition := sampleDef\<lparr>defKind := KindDocker, defContainerID := ''c1''\<rparr>\<rparr>"

theorem container_poll_reports_witness:
  "(let d' = pollDockerApps (pollEngine (oneEngine (\<lambda>_. Reply 200 '''' runningDoc)) (\<lambda>_. []) (sampleAgent ''a'' containerApp))
        [''a''] (sampleAgent ''a'' containerApp)
    in dSent d' = dSent (sampleAgent ''a'' containerApp)
         @ [FAppEvent \<lparr>aeAppID = ''a'', aeStatus = StatusRunning, aePID = 42, aeExitCode = None, aeRestartCount = 0, aePorts = []\<rparr>]
       \<and> dDockerStatus d' ''a'' = Some StatusRunning)"
proof -
  let ?d = "sampleAgent ''a'' containerApp" and ?env = "oneEngine (\<lambda>_. Reply 200 '''' runningDoc)"
  let ?def = "asDefinition containerApp"
  have c: "dConn ?d" by (simp add: sampleAgent_def)
  have t: "pollTargets [''a''] ?d = [(''a'', ?def)]" by code_simp
  have s: "engineStatus ?env ?def = (StatusRunning, 42, None)" by code_simp
  have n: "dDockerStatus ?d = Map.empty" by (simp add: sampleAgent_def freshAgent_def)
  have "changed ?env ?d (''a'', ?def)" by (simp add: changed_def n)
  with container_poll_reports [OF _ c, of "[''a'']" ?env "\<lambda>_. []"] t s show ?thesis
    by (simp add: Let_def statusEvent_def)
qed

subsection \<open>One segment, and the memory figure\<close>

text \<open>
  The name of a container, which comes from a definition, cannot leave its segment of the request
  path or add a query, and two names never make the same request.
\<close>

lemma container_paths:
  "containerPath cid rest = ''/containers/'' @ seg @ rest \<Longrightarrow> set seg \<inter> set ''/?#'' = {}"
  "containerPath cid rest = containerPath cid' rest \<Longrightarrow> cid = cid'"
  using pathEscape_segment [of _ cid] pathEscape_inj [of cid cid'] by (auto simp: containerPath_def)

text \<open>
  The reported memory is the usage less the inactive cache. The difference is taken on unsigned words:
  with a cache figure above the usage it is off by \<open>2 ^ 64\<close>.
\<close>

lemma memory_figure:
  "uint (meUsage (sdMemory d) - inactiveFile d) =
     uint (meUsage (sdMemory d)) - uint (inactiveFile d)
     + (if inactiveFile d \<le> meUsage (sdMemory d) then 0 else 2 ^ 64)"
  by (simp add: uint_sub_if' word_le_def)

definition statsBody :: string where
  "statsBody = writeJson (JObj [(''memory_stats'', JObj [(''usage'', JNum ''100''), (''stats'', JObj [(''inactive_file'', JNum ''101'')])])])"

definition unitArith :: "int arith" where
  "unitArith = \<lparr>arZero = 0, arAdd = (+), arSub = (-), arMul = (*), arDiv = (div), arPos = (\<lambda>x. x > 0), arOfWord = uint, arOfInt = id\<rparr>"

lemma memory_figure_wraps:
  "map_sum id (\<lambda>s. uint (saMemRSS s)) (Stats unitArith (oneEngine (\<lambda>_. Reply 200 '''' statsBody)) ''c1'')
     = Inr 18446744073709551615"
  by code_simp

end
