(* ===== verification/Enrolment.thy ===== *)
theory Enrolment
  imports AgentCli HubClients
begin

text \<open>
  Enrollment end to end: the agent's \<^verbatim>\<open>enroll\<close> command against the hub's handler, and the signed
  dial of the enrolled agent against the hub's authentication. The hub's answers to failed requests
  are rendered by PocketBase, a parameter; the successful one is the JSON the handler builds.
\<close>

subsection \<open>The handler's documents\<close>

record enrollRequest =
  eqToken :: string
  eqPublicKey :: string
  eqName :: string

definition enrollRequestFields :: "enrollRequest field list" where
  "enrollRequestFields =
     [fld ''token'' eqToken eqToken_update strDec, fld ''public_key'' eqPublicKey eqPublicKey_update strDec,
      fld ''name'' eqName eqName_update strDec]"

definition emptyRequest :: enrollRequest where
  "emptyRequest = \<lparr>eqToken = '''', eqPublicKey = '''', eqName = ''''\<rparr>"

definition enrolledBody :: "string \<Rightarrow> string \<Rightarrow> string" where
  "enrolledBody sysID name = writeJson (JObj [(''name'', JStr name), (''system_id'', JStr sysID)])"

definition handleEnroll :: "(apiError \<Rightarrow> httpReply) \<Rightarrow> (string \<Rightarrow> string) \<Rightarrow> (string \<Rightarrow> string) \<Rightarrow> 'f hubEnv
    \<Rightarrow> string \<Rightarrow> enrollState \<Rightarrow> httpReply \<times> enrollState" where
  "handleEnroll render hashf hexPub env body st =
     (case decodeFirst emptyRequest (structDec enrollRequestFields) body of (r, ok) \<Rightarrow>
        if \<not> ok then (render (BadRequest ''invalid body''), st)
        else (case enroll hashf hexPub env (eqToken r) (eqPublicKey r) (eqName r) st of
            (Inl e, st') \<Rightarrow> (render e, st')
          | (Inr sysID, st') \<Rightarrow>
              (Reply 200 ''200 OK'' (enrolledBody sysID (syName (enrolledSystem hexPub (eqName r) (eqPublicKey r)))), st')))"

subsection \<open>The documents arrive as they were sent\<close>

lemma b64encode_char: "c \<in> set (b64encode s) \<Longrightarrow> (of_char c :: nat) < 128"
proof (induction s rule: b64encode.induct)
  case (2 a)
  then show ?case by (auto simp: Let_def of_b64char byte_parts split: if_splits)
next
  case (3 a b)
  then show ?case by (auto simp: Let_def of_b64char byte_parts split: if_splits)
next
  case (4 a b c rest)
  then show ?case by (auto simp: Let_def of_b64char byte_parts split: if_splits)
qed simp

lemma validUtf8_b64: "validUtf8 (b64encode s)"
  by (rule validUtf8_ascii) (auto simp: list_all_iff dest: b64encode_char)

lemma enroll_keys: "list_all plainKey [''name'', ''public_key'', ''token'', ''system_id'', ''message'']"
  by code_simp

lemmas enroll_key_simps = enroll_keys [unfolded list.pred_inject] plainKey_valid normKey_plain

lemma enrollBody_read:
  assumes "validUtf8 token" "validUtf8 pub" "validUtf8 name"
  shows "decodeFirst emptyRequest (structDec enrollRequestFields) (enrollBody token pub name)
    = (\<lparr>eqToken = token, eqPublicKey = pub, eqName = name\<rparr>, True)"
proof -
  let ?j = "JObj [(''name'', JStr name), (''public_key'', JStr pub), (''token'', JStr token)]"
  have "wfJson maxDepth ?j" using assms by (simp add: enroll_key_simps maxDepth_def)
  then have "readJson (enrollBody token pub name) = Some ?j"
    unfolding enrollBody_def by (rule readJson_writeJson)
  then show ?thesis
    by (simp add: decodeFirst_unmarshal unmarshal_def structDec_def storeMember_def fld_def enrollRequestFields_def
        emptyRequest_def strDec_def enroll_key_simps)
qed

lemma enrolledBody_read:
  assumes "validUtf8 sysID" "validUtf8 name"
  shows "readEnrollReply (enrolledBody sysID name) = \<lparr>erSystemID = sysID, erName = name, erMessage = ''''\<rparr>"
proof -
  let ?j = "JObj [(''name'', JStr name), (''system_id'', JStr sysID)]"
  have "wfJson maxDepth ?j" using assms by (simp add: enroll_key_simps maxDepth_def)
  then have "readJson (enrolledBody sysID name) = Some ?j"
    unfolding enrolledBody_def by (rule readJson_writeJson)
  then show ?thesis
    by (simp add: readEnrollReply_def decodeFirst_unmarshal unmarshal_def structDec_def storeMember_def fld_def
        enrollReplyFields_def emptyReply_def strDec_def enroll_key_simps)
qed

subsection \<open>The handshake\<close>

text \<open>What the program relies on in Ed25519: the signature of a key verifies under its public half.\<close>

definition signer :: "(string \<Rightarrow> string \<Rightarrow> string \<Rightarrow> bool) \<Rightarrow> (string \<Rightarrow> string \<Rightarrow> string) \<Rightarrow> bool" where
  "signer verify sign \<longleftrightarrow> (\<forall>priv m. length priv = 64 \<longrightarrow> verify (publicKey priv) m (sign priv m) \<and> sign priv m \<noteq> [])"

definition arrives :: "(string \<Rightarrow> string \<Rightarrow> string \<Rightarrow> bool) \<Rightarrow> int \<Rightarrow> dialHeaders \<Rightarrow> 'f hub \<Rightarrow> string + SystemRec" where
  "arrives verify now d h = serveAuth verify now (dhSystem d) (dhTimestamp d) (dhSignature d) h"

definition clocksAgree :: "int \<Rightarrow> int \<Rightarrow> bool" where
  "clocksAgree hubNow now \<longleftrightarrow> \<bar>hubNow - now div 1000000 * 1000000\<bar> \<le> maxClockSkew"

lemma handshake:
  assumes "findRecord sysID (huSystems h) = Some sys" "syPublicKey sys = PublicKeyB64 priv" "length priv = 64"
    and "sysID \<noteq> []" "signer verify sign" "in64 (now div 1000000)"
  shows "arrives verify hubNow (signedHello sign priv now sysID) h
    = (if clocksAgree hubNow now then Inr sys else Inl ''invalid signature'')"
proof -
  let ?ts = "showInt (now div 1000000)" and ?m = "sysID @ ''|'' @ showInt (now div 1000000)"
  have s: "verify (publicKey priv) ?m (sign priv ?m)" "sign priv ?m \<noteq> []"
    using assms(3,5) by (simp_all add: signer_def)
  have ts: "?ts \<noteq> []" by (simp add: showInt_def showNat_nonempty)
  have k: "length (publicKey priv) = 32" using assms(3) by (simp add: publicKey_def)
  have "verifySignature verify hubNow (PublicKeyB64 priv) sysID ?ts (b64encode (sign priv ?m)) = None \<longleftrightarrow> clocksAgree hubNow now"
    using s(1) by (auto simp: verifySignature_def PublicKeyB64_def b64_roundtrip k atoi_showInt [OF assms(6)] Let_def clocksAgree_def)
  with s(2) ts assms(1,2,4) show ?thesis
    by (auto simp: arrives_def signedHello_def Let_def serveAuth_def b64encode_nonempty split: option.splits)
qed

text \<open>Only a holder of the key gets in: what the hub accepts is signed for that system and that time.\<close>

lemma handshake_needs_key:
  assumes "arrives verify hubNow d h = Inr sys"
  obtains pub sig ms where "findRecord (dhSystem d) (huSystems h) = Some sys" "b64decode (syPublicKey sys) = Some pub"
    "b64decode (dhSignature d) = Some sig" "verify pub (dhSystem d @ ''|'' @ dhTimestamp d) sig"
    "atoi (dhTimestamp d) = Some ms" "\<bar>hubNow - ms * 1000000\<bar> \<le> maxClockSkew"
  using assms unfolding arrives_def
  by (auto simp: serveAuth_def verifySignature_def Let_def split: if_splits option.splits)

subsection \<open>End to end\<close>

definition refuses :: "httpReply \<Rightarrow> bool" where
  "refuses r \<longleftrightarrow> (case r of NoReply _ \<Rightarrow> True | Reply code _ _ \<Rightarrow> code \<noteq> 200)"

lemma handleEnroll_ok:
  assumes "validUtf8 token" "validUtf8 pub" "validUtf8 name" "\<And>e. refuses (render e)"
    and "handleEnroll render hashf hexPub henv (enrollBody token pub name) st = (Reply 200 status body, st')"
  shows "fst (enroll hashf hexPub henv token pub name st) = Inr (enNewID henv)
    \<and> st' = snd (enroll hashf hexPub henv token pub name st)
    \<and> body = enrolledBody (enNewID henv) (syName (enrolledSystem hexPub name pub))
    \<and> findRecord (enNewID henv) (snd st') = Some (enrolledSystem hexPub name pub)"
proof -
  obtain r st1 where e: "enroll hashf hexPub henv token pub name st = (r, st1)"
    by (cases "enroll hashf hexPub henv token pub name st")
  have refused: "render e \<noteq> Reply 200 status body" for e using assms(4) [of e] by (auto simp: refuses_def)
  show ?thesis
  proof (cases r)
    case (Inl x)
    with assms(5) e refused show ?thesis by (simp add: handleEnroll_def enrollBody_read [OF assms(1-3)])
  next
    case (Inr i)
    from enroll_Inr [OF e [unfolded Inr]] obtain t where i: "i = enNewID henv"
      and st1: "st1 = (saveRecord (hashf (trimSpace token)) (t\<lparr>etUsedAt := Some (enNow henv)\<rparr>) (fst st),
              saveRecord i (enrolledSystem hexPub name pub) (snd st))" by metis
    from Inr assms(5) e have b: "st' = st1" "body = enrolledBody i (syName (enrolledSystem hexPub name pub))"
      by (simp_all add: handleEnroll_def enrollBody_read [OF assms(1-3)])
    show ?thesis unfolding b i e Inr by (simp add: st1 i coll.find_saved)
  qed
qed

text \<open>What the program relies on in the codec of the state file: the state it saves reads back.\<close>

definition savedAs :: "(State \<Rightarrow> string) \<Rightarrow> (string \<Rightarrow> State option) \<Rightarrow> string \<Rightarrow> State \<Rightarrow> bool" where
  "savedAs enc dec url st \<longleftrightarrow> (\<forall>i. let st' = st\<lparr>stHubURL := url, stSystemID := i\<rparr> in dec (enc st') = Some st')"

lemma cmdEnroll_ok:
  assumes "cmdEnroll env enc dec dir (hub, token, name) f = (None, f', out)" "keysOK (eeKeys env)"
    and "savedAs enc dec (trimSuffix hub ''/'') st" "LoadOrCreate (eeKeys env) dir f = (Inr priv, f1)" "Load dec dir f = Inr st"
  obtains status body where "length priv = 64"
    "eePost env (trimSuffix hub ''/'' @ ''/api/bb/enroll'')
       (enrollBody token (PublicKeyB64 priv) (if name = [] then eeHostname env else name)) = Reply 200 status body"
    "Load dec dir f' = Inr (st\<lparr>stHubURL := trimSuffix hub ''/'', stSystemID := erSystemID (readEnrollReply body)\<rparr>)"
    "\<And>env'. LoadOrCreate env' dir f' = (Inr priv, f')"
proof -
  let ?post = "eePost env (trimSuffix hub ''/'' @ ''/api/bb/enroll'')
       (enrollBody token (PublicKeyB64 priv) (if name = [] then eeHostname env else name))"
  note k = assms(4)
  from assms(1) k obtain status body where b: "?post = Reply 200 status body"
    and s: "storeEnrollment env enc dec dir hub (readEnrollReply body) f1 = (None, f', out)"
    by (cases ?post) (auto simp: cmdEnroll_def Let_def split: if_splits)
  have "Load dec dir f1 = Inr st"
    using LoadOrCreate_files [OF k, of "statePath dir"] assms(5) by (simp add: Load_def statePath_def keyPath_def)
  with s have f': "f' = Save enc dir (st\<lparr>stHubURL := trimSuffix hub ''/'', stSystemID := erSystemID (readEnrollReply body)\<rparr>) f1"
    by (auto simp: storeEnrollment_def Let_def split: option.splits)
  have key: "f' (keyPath dir) = f1 (keyPath dir)"
    by (simp add: f' Save_def SaveOps_def statePath_def keyPath_def)
  have stable: "length priv = 64" "LoadOrCreate env' dir f1 = (Inr priv, f1)" for env'
    using LoadOrCreate_stable [OF k assms(2)] by auto
  have again: "LoadOrCreate env' dir f' = (Inr priv, f')" for env'
  proof -
    obtain c where c: "f1 (keyPath dir) = Some c" "readKey c = Some priv"
      using k stable(2) [of "\<lparr>keGenerate = Inl [], keMkdir = None, keWrite = None\<rparr>"]
      by (auto simp: LoadOrCreate_def split: option.splits)
    with key show ?thesis by (simp add: LoadOrCreate_def)
  qed
  show ?thesis
    using that [OF stable(1) b _ again] Load_Save [of dec enc] assms(3) f' by (simp add: savedAs_def Let_def)
qed


definition toyKey :: string where
  "toyKey = replicate 64 CHR ''k''"

definition toySign :: "string \<Rightarrow> string \<Rightarrow> string" where
  "toySign priv m = publicKey priv @ m"

definition toyVerify :: "string \<Rightarrow> string \<Rightarrow> string \<Rightarrow> bool" where
  "toyVerify pub m sig \<longleftrightarrow> sig = pub @ m"

definition toyRefusal :: "apiError \<Rightarrow> httpReply" where
  "toyRefusal e = Reply 400 ''400 Bad Request'' ''{}''"

definition toyTokens :: enrollState where
  "toyTokens = ([(''bbe_t'', \<lparr>etExpiresAt = 100, etUsedAt = None, etCreatedBy = ''u1''\<rparr>)], [])"

definition toyHandler :: "string \<Rightarrow> httpReply \<times> enrollState" where
  "toyHandler body = handleEnroll toyRefusal id (take 4) (sampleEnv 5 ''s1'') body toyTokens"

definition toyCli :: enrollEnv where
  "toyCli = \<lparr>eeKeys = \<lparr>keGenerate = Inr toyKey, keMkdir = None, keWrite = None\<rparr>, eeHostname = ''host'',
     eePost = (\<lambda>url body. fst (toyHandler body)), eeSaveError = None, eePrintable = (\<lambda>_. True)\<rparr>"

definition toyDec :: "string \<Rightarrow> State option" where
  "toyDec b = Some (emptyState\<lparr>stHubURL := ''http://h'', stSystemID := b\<rparr>)"


end
