(* ===== verification/ImportFlow.thy ===== *)
theory ImportFlow
  imports AgentCli HubClients AgentSync
begin

text \<open>
  An import end to end: the command line reads and checks a definition file and queues it, the daemon
  announces it to the hub, the hub creates the application and answers with the full state, and the
  daemon installs it, approved by the import.
\<close>

subsection \<open>The command line\<close>

text \<open>Whatever the file holds, only a definition that passes the checks is ever queued.\<close>

lemma cmdApps_import:
  assumes "cmdApps env order (''import'' # args) = (None, out, Some op)"
  shows "\<exists>def. soOp op = ''import'' \<and> soDefinition op = Some def \<and> Validate def = []"
  using assms
  by (auto simp: cmdApps_def cmdImport_def cliFail_def enqueued_def Let_def split: list.splits sum.splits prod.splits option.splits if_splits)

lemma cmdApps_decide:
  assumes "cmdApps env order (verb # args) = (None, out, Some op)" "verb = ''approve'' \<or> verb = ''reject''"
  shows "\<exists>st app. caLoad env = Inr st \<and> stApps st (soAppID op) = Some app \<and> soOp op = verb \<and> args \<noteq> [] \<and> soAppID op = hd args"
  using assms
  by (auto simp: cmdApps_def cmdDecide_def cliFail_def enqueued_def split: list.splits sum.splits option.splits if_splits)

subsection \<open>The hub's answer\<close>

lemma saveRecord_new: "findRecord i t = None \<Longrightarrow> saveRecord i r t = t @ [(i, r)]"
  unfolding findRecord_def
proof (induction t)
  case (Cons a t)
  then show ?case by (cases a) (auto split: if_splits)
qed simp

lemma systemApps_all:
  assumes "length (filter (\<lambda>(_, r). arSystem r = sysID) (huApps h)) \<le> 500"
  shows "set (systemApps sysID h) = {ir \<in> set (huApps h). arSystem (snd ir) = sysID}"
    and "distinct (map fst (huApps h)) \<Longrightarrow> distinct (map fst (systemApps sysID h))"
proof -
  let ?f = "filter (\<lambda>(_, r). arSystem r = sysID) (huApps h)"
  have t: "systemApps sysID h = sort_key (\<lambda>(_, r). - arCreated r) ?f"
    using assms by (simp add: systemApps_def)
  show "set (systemApps sysID h) = {ir \<in> set (huApps h). arSystem (snd ir) = sysID}"
    by (auto simp: t)
  assume "distinct (map fst (huApps h))"
  then have "distinct (map fst ?f)" by (rule distinct_map_filter)
  then show "distinct (map fst (systemApps sysID h))"
    unfolding t by (simp add: distinct_map)
qed

lemma map_filter_specs:
  "set (List.map_filter syncSpec irs) = {s. \<exists>ir \<in> set irs. syncSpec ir = Some s}"
  by (induction irs) (auto simp: map_filter_simps split: option.split)

lemma syncSpec_id: "syncSpec ir = Some s \<Longrightarrow> spID s = fst ir \<and> spDefinitionHash s = arHash (snd ir)"
  by (auto simp: syncSpec_def)

lemma specs_distinct: "distinct (map fst irs) \<Longrightarrow> distinct (map spID (List.map_filter syncSpec irs))"
proof (induction irs)
  case (Cons ir irs)
  have ne: "spID s \<noteq> fst ir" if "s \<in> set (List.map_filter syncSpec irs)" for s
  proof -
    from that obtain k where k: "k \<in> set irs" "syncSpec k = Some s" by (auto simp: map_filter_specs)
    from Cons.prems have "fst ir \<notin> fst ` set irs" by simp
    with k(1) have "fst k \<noteq> fst ir" by (metis image_eqI)
    with syncSpec_id [OF k(2)] show ?thesis by simp
  qed
  show ?case
  proof (cases "syncSpec ir")
    case None
    with Cons show ?thesis by (simp add: map_filter_simps)
  next
    case (Some s)
    have "spID s \<notin> spID ` set (List.map_filter syncSpec irs)"
      unfolding syncSpec_id [OF Some, THEN conjunct1] using ne by (metis imageE)
    with Cons Some show ?thesis by (simp add: map_filter_simps)
  qed
qed (simp add: map_filter_simps)

text \<open>A registration that is new to the hub is answered with a sync that holds it, and no other entry with its hash.\<close>

lemma onAppRegister_syncs:
  assumes "Validate def = []" "findRecord (enNewID env) (huApps h) = None" "enSave env (enNewID env)"
    and "c \<notin> set (huCancelled h)" "enWrite env c" "distinct (map fst (huApps h))"
    and "\<forall>ir \<in> set (huApps h). arSystem (snd ir) = sysID \<longrightarrow> arHash (snd ir) \<noteq> enHash env def"
    and "length (filter (\<lambda>(_, r). arSystem r = sysID) (huApps h)) < 500"
  obtains specs spec where "huWire (snd (onAppRegister env c sysID def h)) = huWire h @ [(c, HAppSync (Some specs))]"
    "spec \<in> set specs" "spID spec = enNewID env" "spDefinition spec = def" "spDefinitionHash spec = enHash env def"
    "spDesiredState spec = DesiredStopped" "distinct (map spID specs)"
    "\<forall>s \<in> set specs. s = spec \<or> spDefinitionHash s \<noteq> enHash env def"
proof -
  let ?r = "registeredApp env sysID def" and ?i = "enNewID env"
  let ?h = "h\<lparr>huApps := saveRecord ?i ?r (huApps h)\<rparr>"
  have apps: "huApps ?h = huApps h @ [(?i, ?r)]" using saveRecord_new [OF assms(2)] by simp
  have len: "length (filter (\<lambda>(_, r). arSystem r = sysID) (huApps ?h)) \<le> 500"
    using assms(8) unfolding apps by simp
  have ids: "distinct (map fst (huApps ?h))" using coll.ids_distinct [of "huApps h" ?i ?r] assms(6) by simp
  let ?specs = "List.map_filter syncSpec (systemApps sysID ?h)"
  let ?spec = "\<lparr>spID = ?i, spDefinition = def, spDefinitionHash = enHash env def, spDesiredState = DesiredStopped, spTokenTracking = []\<rparr>"
  have s: "syncSpec (?i, ?r) = Some ?spec" by (simp add: syncSpec_def registeredApp_def)
  note all = systemApps_all [OF len]
  have "(?i, ?r) \<in> set (systemApps sysID ?h)" using all(1) unfolding apps by (simp add: registeredApp_def)
  with s have mem: "?spec \<in> set ?specs" by (auto simp: map_filter_specs)
  have "onAppRegister env c sysID def h = sendAppSync env sysID c ?h"
    using assms(1,2,3,7) by (auto simp: onAppRegister_def createApp_def)
  then have w: "huWire (snd (onAppRegister env c sysID def h)) = huWire h @ [(c, HAppSync (Some ?specs))]"
    using assms(4,5) by (simp add: sendAppSync_def connSend_def)
  have hash: "s = ?spec \<or> spDefinitionHash s \<noteq> enHash env def" if specs_mem: "s \<in> set ?specs" for s
  proof -
    obtain ir where ir: "ir \<in> set (systemApps sysID ?h)" "syncSpec ir = Some s"
      using specs_mem by (auto simp: map_filter_specs)
    then have "ir \<in> set (huApps h) \<and> arSystem (snd ir) = sysID \<or> ir = (?i, ?r)" using all(1) unfolding apps by auto
    then show ?thesis
    proof
      assume "ir \<in> set (huApps h) \<and> arSystem (snd ir) = sysID"
      with assms(7) syncSpec_id [OF ir(2)] show ?thesis by auto
    next
      assume "ir = (?i, ?r)"
      with s ir(2) show ?thesis by simp
    qed
  qed
  show ?thesis
    using that [OF w mem _ _ _ _ specs_distinct [OF all(2) [OF ids]]] hash by simp
qed

subsection \<open>The daemon installs it\<close>

lemma applySpec_keeps_pre:
  assumes "k \<in> set (dPreApproved (fst s))" "spDefinitionHash spec \<noteq> k"
  shows "k \<in> set (dPreApproved (fst (applySpec spec s)))"
  using assms by (cases s) (auto simp: applySpec_def installSpec_def Let_def split: option.splits)

lemma fold_specs_imported:
  assumes "distinct (map spID specs)" "spec \<in> set specs" "dApps (fst s) (spID spec) = None"
    and "spDefinitionHash spec \<in> set (dPreApproved (fst s))"
    and "\<forall>t \<in> set specs. t = spec \<or> spDefinitionHash t \<noteq> spDefinitionHash spec"
  shows "\<exists>app. dApps (fst (fold applySpec specs s)) (spID spec) = Some app \<and> asDefinition app = spDefinition spec
    \<and> asHash app = spDefinitionHash spec \<and> asApproval app = ApprovalApproved \<and> asDesiredState app = spDesiredState spec"
  using assms
proof (induction specs arbitrary: s)
  case (Cons sp specs)
  show ?case
  proof (cases "sp = spec")
    case True
    then have "spID spec \<notin> spID ` set specs" using Cons.prems(1) by simp
    moreover have "\<exists>app. dApps (fst (applySpec spec s)) (spID spec) = Some app \<and> asDefinition app = spDefinition spec
      \<and> asHash app = spDefinitionHash spec \<and> asApproval app = ApprovalApproved \<and> asDesiredState app = spDesiredState spec"
      using Cons.prems(3,4) by (cases s) (simp add: applySpec_def installSpec_def newApproval_def Let_def)
    ultimately show ?thesis using True by (simp add: fold_specs_other)
  next
    case False
    with Cons.prems(2) have m: "spec \<in> set specs" by simp
    with Cons.prems(1) have ne: "spID spec \<noteq> spID sp" by (auto simp: image_iff)
    have "dApps (fst (applySpec sp s)) (spID spec) = None" using Cons.prems(3) ne by (simp add: applySpec_other)
    moreover have "spDefinitionHash spec \<in> set (dPreApproved (fst (applySpec sp s)))"
      using applySpec_keeps_pre [OF Cons.prems(4)] Cons.prems(5) False by simp
    ultimately show ?thesis using Cons.IH [of "applySpec sp s"] Cons.prems(1,5) m by simp
  qed
qed simp

text \<open>C6: An import arrives. A definition file that the command line accepts is announced to the hub as it
  was checked; a hub that does not know the definition creates the application and answers with the
  full state; applying that answer, the daemon holds the application under the hub's id, with the
  imported definition, approved on this host and not yet started.\<close>

theorem import_arrives:
  assumes "cmdApps cenv ids (''import'' # args) = (None, out, Some op)" "dConn d" "dApps d (enNewID env) = None"
    and "\<And>def. soDefinition op = Some def \<Longrightarrow>
        \<forall>ir \<in> set (huApps h). arSystem (snd ir) = sysID \<longrightarrow> arHash (snd ir) \<noteq> enHash env def"
    and "findRecord (enNewID env) (huApps h) = None" "enSave env (enNewID env)"
    and "c \<notin> set (huCancelled h)" "enWrite env c" "distinct (map fst (huApps h))"
    and "length (filter (\<lambda>(_, r). arSystem r = sysID) (huApps h)) < 500"
  shows "\<exists>def specs app. soDefinition op = Some def \<and> Validate def = []
    \<and> dSent (applySpoolOp (enHash env) op d) = dSent d @ [FAppRegister def]
    \<and> huWire (snd (onAppRegister env c sysID def h)) = huWire h @ [(c, HAppSync (Some specs))]
    \<and> dApps (applyAppSync order specs (applySpoolOp (enHash env) op d)) (enNewID env) = Some app
    \<and> asDefinition app = def \<and> asHash app = enHash env def
    \<and> asApproval app = ApprovalApproved \<and> asDesiredState app = DesiredStopped"
proof -
  obtain def where op: "soOp op = ''import''" "soDefinition op = Some def" "Validate def = []"
    using cmdApps_import [OF assms(1)] by blast
  let ?d = "applySpoolOp (enHash env) op d"
  have d: "dSent ?d = dSent d @ [FAppRegister def]" "dApps ?d = dApps d" "enHash env def \<in> set (dPreApproved ?d)"
    using op assms(2) by (simp_all add: applySpoolOp_def sendF_def)
  from onAppRegister_syncs [OF op(3) assms(5-9) assms(4) [OF op(2)] assms(10)] obtain specs spec where
    w: "huWire (snd (onAppRegister env c sysID def h)) = huWire h @ [(c, HAppSync (Some specs))]"
    and s: "spec \<in> set specs" "spID spec = enNewID env" "spDefinition spec = def" "spDefinitionHash spec = enHash env def"
      "spDesiredState spec = DesiredStopped" "distinct (map spID specs)"
      "\<forall>s \<in> set specs. s = spec \<or> spDefinitionHash s \<noteq> enHash env def" .
  have "\<exists>app. dApps (fst (fold applySpec specs (?d, False))) (enNewID env) = Some app \<and> asDefinition app = def
      \<and> asHash app = enHash env def \<and> asApproval app = ApprovalApproved \<and> asDesiredState app = DesiredStopped"
    using fold_specs_imported [OF s(6,1), of "(?d, False)"] s(2-5,7) d assms(3) by simp
  moreover have "enNewID env \<in> spID ` set specs" using s(1,2) by force
  ultimately show ?thesis using op d(1) w by (auto simp: applyAppSync_apps)
qed

definition toyFile :: string where
  "toyFile = writeJson (JObj [(''name'', JStr ''web''), (''kind'', JStr ''process''), (''cmd'', JStr ''node'')])"

definition toyApps :: appsEnv where
  "toyApps = \<lparr>caLoad = Inr emptyState, caRead = (\<lambda>_. Inr toyFile), caAbsDir = (\<lambda>_. Some ''/srv/web''),
     caJSONError = id, caEnqueueError = None, caPrintable = (\<lambda>_. True)\<rparr>"

theorem import_arrives_witness:
  "\<exists>def specs app. soDefinition (the (snd (snd (cmdApps toyApps [] [''import'', ''web.json''])))) = Some def
    \<and> huWire (snd (onAppRegister (sampleEnv 5 ''a1'') 1 ''s1'' def sampleHub)) = huWire sampleHub @ [(1, HAppSync (Some specs))]
    \<and> dApps (applyAppSync [] specs (applySpoolOp (enHash (sampleEnv 5 ''a1''))
          (the (snd (snd (cmdApps toyApps [] [''import'', ''web.json''])))) (freshAgent\<lparr>dConn := True\<rparr>))) ''a1'' = Some app
    \<and> asApproval app = ApprovalApproved"
proof -
  let ?run = "cmdApps toyApps [] [''import'', ''web.json'']" and ?env = "sampleEnv 5 ''a1''"
  have "fst ?run = None \<and> snd (snd ?run) \<noteq> None" by code_simp
  then obtain out op where run: "?run = (None, out, Some op)" by (metis option.exhaust prod.collapse)
  have d: "dConn (freshAgent\<lparr>dConn := True\<rparr>)" "dApps (freshAgent\<lparr>dConn := True\<rparr>) (enNewID ?env) = None"
    by (simp_all add: freshAgent_def)
  have apps: "huApps sampleHub = []" by code_simp
  have e: "findRecord (enNewID ?env) (huApps sampleHub) = None" "enSave ?env (enNewID ?env)" "(1 :: nat) \<notin> set (huCancelled sampleHub)"
    "enWrite ?env 1" "distinct (map fst (huApps sampleHub))" "length (filter (\<lambda>(_, r). arSystem r = ''s1'') (huApps sampleHub)) < 500"
    by (code_simp | simp add: apps sampleEnv_def findRecord_def)+
  have id: "enNewID ?env = ''a1''" by (simp add: sampleEnv_def)
  from import_arrives [OF run d _ e, of "[]"] show ?thesis unfolding run id by (auto simp: apps)
qed

end
