(* ===== verification/HubLogs.thy ===== *)
theory HubLogs
  imports HubControl Json
begin

text \<open>
  The live log view of the hub (\<^verbatim>\<open>hub/internal/agenthub/logs.go\<close>): the broker's channels, the handler
  that streams one application's log to a browser as server-sent events, and its authentication. The
  event loop picks any ready event; its choices are the list of events of a run.
\<close>

subsection \<open>The broker\<close>

definition openStream :: "string \<Rightarrow> 'f hub \<Rightarrow> 'f hub" where
  "openStream sid h = h\<lparr>huLogs := (huLogs h)(sid \<mapsto> [])\<rparr>"

definition closeStream :: "string \<Rightarrow> 'f hub \<Rightarrow> 'f hub" where
  "closeStream sid h = h\<lparr>huLogs := (huLogs h)(sid := None)\<rparr>"

subsection \<open>The request\<close>

text \<open>\<open>lqAuth\<close>: the request is authenticated already; \<open>lqToken\<close> and \<open>lqHeader\<close> are what the query and the
  header carry.\<close>

record logRequest =
  lqAuth :: bool
  lqToken :: string
  lqHeader :: string
  lqApp :: string
  lqTail :: string

datatype logError = LogUnauthorized string | LogNotFound string | LogUnavailable string

definition authSSE :: "(string \<Rightarrow> bool) \<Rightarrow> logRequest \<Rightarrow> logError option" where
  "authSSE validToken q =
     (if lqAuth q then None
      else let token = (if lqToken q = [] then lqHeader q else lqToken q)
        in if token = [] then Some (LogUnauthorized ''authentication required'')
           else if validToken token then None else Some (LogUnauthorized ''invalid token''))"

definition tailOf :: "string \<Rightarrow> int" where
  "tailOf q = (case atoi q of None \<Rightarrow> 200 | Some t \<Rightarrow> if t \<le> 0 \<or> t > 2000 then 200 else t)"

text \<open>One running handler: its stream, the agent's connection, what it has written.\<close>

datatype sseWrite = WData "string list" | WKeepalive | WEnd string

record logView =
  lwStream :: string
  lwConn :: nat
  lwOut :: "sseWrite list"
  lwOpen :: bool

text \<open>The deferred clean-up: the stream is closed and the agent is told, as far as it can be.\<close>

definition endView :: "'f hubEnv \<Rightarrow> logView \<Rightarrow> 'f hub \<Rightarrow> logView \<times> 'f hub" where
  "endView env v h =
     (v\<lparr>lwOpen := False\<rparr>, snd (connSend env (lwConn v) (HLogCancel (Some (lwStream v))) (closeStream (lwStream v) h)))"

definition openLog :: "'f hubEnv \<Rightarrow> (string \<Rightarrow> bool) \<Rightarrow> string \<Rightarrow> logRequest \<Rightarrow> 'f hub \<Rightarrow> (logError + logView) \<times> 'f hub" where
  "openLog env validToken sid q h =
     (case authSSE validToken q of
        Some e \<Rightarrow> (Inl e, h)
      | None \<Rightarrow> (case findRecord (lqApp q) (huApps h) of
            None \<Rightarrow> (Inl (LogNotFound ''unknown app''), h)
          | Some app \<Rightarrow> (case huConns h (arSystem app) of
                None \<Rightarrow> (Inl (LogUnavailable ''agent for this system is offline''), h)
              | Some c \<Rightarrow>
                  (let v = \<lparr>lwStream = sid, lwConn = c, lwOut = [], lwOpen = True\<rparr>
                   in case connSend env c (HLogFollow (Some (sid, lqApp q, tailOf (lqTail q)))) (openStream sid h) of
                        (None, h1) \<Rightarrow> (Inr v, h1)
                      | (Some _, h1) \<Rightarrow> (Inl (LogUnavailable ''agent send failed''), snd (endView env v h1))))))"

subsection \<open>The event loop\<close>

datatype viewEvent = ClientGone | AgentGone | Heartbeat | TakeChunk

definition emit :: "sseWrite list \<Rightarrow> logView \<Rightarrow> logView" where
  "emit ws v = v\<lparr>lwOut := lwOut v @ ws\<rparr>"

definition chunkWrites :: "string list \<times> bool \<Rightarrow> sseWrite list" where
  "chunkWrites m = (if fst m = [] then [] else [WData (fst m)]) @ (if snd m then [WEnd ''end''] else [])"

text \<open>An event that is not ready (no chunk, the agent still there) is not picked: the state stays.\<close>

fun viewStep :: "'f hubEnv \<Rightarrow> viewEvent \<Rightarrow> logView \<times> 'f hub \<Rightarrow> logView \<times> 'f hub" where
  "viewStep env ClientGone (v, h) = (if lwOpen v then endView env v h else (v, h))"
| "viewStep env AgentGone (v, h) =
     (if lwOpen v \<and> lwConn v \<in> set (huCancelled h) then endView env (emit [WEnd ''agent disconnected''] v) h else (v, h))"
| "viewStep env Heartbeat (v, h) = (if lwOpen v then emit [WKeepalive] v else v, h)"
| "viewStep env TakeChunk (v, h) =
     (if \<not> lwOpen v then (v, h)
      else case huLogs h (lwStream v) of
          Some (m # q) \<Rightarrow>
            (let h1 = h\<lparr>huLogs := (huLogs h)(lwStream v \<mapsto> q)\<rparr>; v1 = emit (chunkWrites m) v
             in if snd m then endView env v1 h1 else (v1, h1))
        | _ \<Rightarrow> (v, h))"

text \<open>The bytes of the response.\<close>

definition newline2 :: string where
  "newline2 = [CHR 0x0A, CHR 0x0A]"

fun sseText :: "sseWrite \<Rightarrow> string" where
  "sseText (WData ls) = ''data: '' @ writeJson (JArr (map JStr ls)) @ newline2"
| "sseText WKeepalive = '': keepalive'' @ newline2"
| "sseText (WEnd why) = ''event: eof'' @ [CHR 0x0A] @ ''data: '' @ why @ newline2"

subsection \<open>What the browser sees\<close>

datatype viewInput = Arrive LogChunk | Pick viewEvent

fun viewInputStep :: "'f hubEnv \<Rightarrow> viewInput \<Rightarrow> logView \<times> 'f hub \<Rightarrow> logView \<times> 'f hub" where
  "viewInputStep env (Arrive c) (v, h) = (v, deliverLog c h)"
| "viewInputStep env (Pick e) s = viewStep env e s"

definition viewRun :: "'f hubEnv \<Rightarrow> viewInput list \<Rightarrow> logView \<times> 'f hub \<Rightarrow> logView \<times> 'f hub" where
  "viewRun env es s = fold (viewInputStep env) es s"

fun shownLines :: "sseWrite \<Rightarrow> string list" where
  "shownLines (WData ls) = ls"
| "shownLines _ = []"

definition shown :: "logView \<Rightarrow> string list" where
  "shown v = concat (map shownLines (lwOut v))"

definition waiting :: "logView \<Rightarrow> 'f hub \<Rightarrow> string list" where
  "waiting v h = (case huLogs h (lwStream v) of None \<Rightarrow> [] | Some q \<Rightarrow> concat (map fst q))"

fun arrivedLines :: "string \<Rightarrow> viewInput \<Rightarrow> string list" where
  "arrivedLines sid (Arrive c) = (if lcStreamID c = sid then lcLines c else [])"
| "arrivedLines sid (Pick e) = []"

text \<open>The browser keeps up: no chunk of its stream meets a full channel.\<close>

fun keepsUp :: "'f hubEnv \<Rightarrow> viewInput list \<Rightarrow> logView \<times> 'f hub \<Rightarrow> bool" where
  "keepsUp env [] s \<longleftrightarrow> True"
| "keepsUp env (e # es) s \<longleftrightarrow>
     (case e of
        Arrive c \<Rightarrow> lcStreamID c = lwStream (fst s) \<and> lwOpen (fst s) \<longrightarrow>
          (\<exists>q. huLogs (snd s) (lcStreamID c) = Some q \<and> length q < 32)
      | Pick _ \<Rightarrow> True)
     \<and> keepsUp env es (viewInputStep env e s)"

definition viewOK :: "string list \<Rightarrow> logView \<times> 'f hub \<Rightarrow> bool" where
  "viewOK ls s \<longleftrightarrow>
     (case s of (v, h) \<Rightarrow>
       if lwOpen v then huLogs h (lwStream v) \<noteq> None \<and> shown v @ waiting v h = ls
       else huLogs h (lwStream v) = None \<and> prefix (shown v) ls)"

lemma connSend_logs [simp]: "huLogs (snd (connSend env c f h)) = huLogs h"
  by (simp add: connSend_def)

lemma endView_view: "endView env v h = (v', h') \<Longrightarrow>
    \<not> lwOpen v' \<and> shown v' = shown v \<and> lwStream v' = lwStream v \<and> huLogs h' = (huLogs h)(lwStream v := None)"
  by (auto simp: endView_def closeStream_def shown_def)

lemma shown_emit: "shown (emit ws v) = shown v @ concat (map shownLines ws)"
  by (simp add: shown_def emit_def)

lemma emit_fields [simp]: "lwStream (emit ws v) = lwStream v" "lwOpen (emit ws v) = lwOpen v" "lwConn (emit ws v) = lwConn v"
  by (simp_all add: emit_def)

lemma chunk_lines: "concat (map shownLines (chunkWrites m)) = fst m"
  by (simp add: chunkWrites_def)

lemma prefix_waiting: "shown v @ waiting v h = ls \<Longrightarrow> prefix (shown v) ls"
  by auto

lemma viewOK_end:
  assumes "viewOK ls (v, h)" "lwOpen v" "concat (map shownLines ws) = []"
  shows "viewOK ls (endView env (emit ws v) h)"
proof -
  obtain v' h' where e: "endView env (emit ws v) h = (v', h')" by (cases "endView env (emit ws v) h")
  from endView_view [OF e] have "\<not> lwOpen v'" "shown v' = shown v" "lwStream v' = lwStream v" "huLogs h' (lwStream v) = None"
    unfolding shown_emit assms(3) by simp_all
  moreover have "prefix (shown v) ls"
    using assms(1,2) by (auto simp: viewOK_def)
  ultimately show ?thesis by (simp add: e viewOK_def)
qed

lemma emit_nil: "emit [] v = v"
  by (simp add: emit_def)

lemma viewStep_OK:
  assumes "viewOK ls (v, h)"
  shows "viewOK ls (viewStep env e (v, h)) \<and> lwStream (fst (viewStep env e (v, h))) = lwStream v"
proof (cases "lwOpen v")
  case False
  with assms show ?thesis by (cases e) simp_all
next
  case open_view: True
  have stream: "lwStream (fst (endView env w g)) = lwStream w" for w and g :: "'a hub" by (simp add: endView_def)
  show ?thesis
  proof (cases e)
    case ClientGone
    with open_view viewOK_end [OF assms open_view, of "[]" env] show ?thesis by (simp add: emit_nil stream)
  next
    case AgentGone
    with open_view viewOK_end [OF assms open_view, of "[WEnd ''agent disconnected'']" env] assms show ?thesis
      by (simp add: stream)
  next
    case Heartbeat
    with open_view assms show ?thesis by (simp add: viewOK_def shown_emit waiting_def)
  next
    case TakeChunk
    from assms open_view obtain q where q: "huLogs h (lwStream v) = Some q" "shown v @ concat (map fst q) = ls"
      by (auto simp: viewOK_def waiting_def)
    show ?thesis
    proof (cases q)
      case Nil
      with TakeChunk open_view q(1) assms show ?thesis by simp
    next
      case (Cons m q')
      let ?h = "h\<lparr>huLogs := (huLogs h)(lwStream v \<mapsto> q')\<rparr>" and ?v = "emit (chunkWrites m) v"
      have ok: "viewOK ls (?v, ?h)"
        using open_view q(2) Cons by (simp add: viewOK_def shown_emit chunk_lines waiting_def)
      have s: "viewStep env e (v, h) = (if snd m then endView env ?v ?h else (?v, ?h))"
        using TakeChunk open_view q(1) Cons by (simp add: Let_def)
      show ?thesis
      proof (cases "snd m")
        case True
        with s viewOK_end [OF ok, of "[]" env] open_view show ?thesis by (simp add: emit_nil stream)
      next
        case False
        with s ok show ?thesis by simp
      qed
    qed
  qed
qed

lemma viewInput_OK:
  assumes "viewOK ls (v, h)" "keepsUp env [e] (v, h)"
  shows "viewOK (ls @ arrivedLines (lwStream v) e) (viewInputStep env e (v, h))
    \<and> lwStream (fst (viewInputStep env e (v, h))) = lwStream v"
proof (cases e)
  case (Pick x)
  with viewStep_OK [OF assms(1), of env x] show ?thesis by simp
next
  case (Arrive c)
  show ?thesis
  proof (cases "lwOpen v \<and> lcStreamID c = lwStream v")
    case True
    with assms(2) Arrive obtain q where "huLogs h (lwStream v) = Some q" "length q < 32" by auto
    with assms(1) Arrive True show ?thesis by (auto simp: viewOK_def waiting_def deliverLog_def)
  next
    case False
    then have "huLogs (deliverLog c h) (lwStream v) = huLogs h (lwStream v) \<or> \<not> lwOpen v"
      by (auto simp: deliverLog_def split: option.split)
    moreover have "huLogs (deliverLog c h) (lwStream v) = None" if "huLogs h (lwStream v) = None"
      using that by (auto simp: deliverLog_def split: option.split)
    ultimately show ?thesis
      using assms(1) Arrive False by (auto simp: viewOK_def waiting_def split: if_splits)
  qed
qed

lemma viewRun_OK:
  assumes "viewOK ls s" "keepsUp env es s"
  shows "viewOK (ls @ concat (map (arrivedLines (lwStream (fst s))) es)) (viewRun env es s)
    \<and> lwStream (fst (viewRun env es s)) = lwStream (fst s)"
  using assms
proof (induction es arbitrary: s ls)
  case Nil
  then show ?case by (simp add: viewRun_def)
next
  case (Cons e es)
  obtain v h where s: "s = (v, h)" by (cases s)
  from Cons.prems(2) s have k: "keepsUp env [e] (v, h)" "keepsUp env es (viewInputStep env e (v, h))" by simp_all
  note step = viewInput_OK [OF Cons.prems(1) [unfolded s] k(1)]
  from Cons.IH [OF conjunct1 [OF step] k(2)] step s show ?case by (simp add: viewRun_def)
qed

text \<open>A browser reads back from a data line exactly the lines written (they came in a JSON frame, so they
  are valid UTF-8).\<close>

lemma wfElems_strings: "(\<forall>l \<in> set ls. validUtf8 l) \<Longrightarrow> wfElems d (map JStr ls)"
  by (induction ls) simp_all

lemma sse_data_reads_back:
  "\<forall>l \<in> set ls. validUtf8 l \<Longrightarrow> readJson (writeJson (JArr (map JStr ls))) = Some (JArr (map JStr ls))"
  by (rule readJson_writeJson) (simp add: maxDepth_def wfElems_strings)

text \<open>
  The channel has no reserve for the end marker: an end-of-stream chunk that meets a full channel is
  dropped like any other, and the view then waits for a stream that has ended.
\<close>

lemma end_marker_dropped:
  assumes "huLogs h sid = Some q" "32 \<le> length q"
  shows "deliverLog \<lparr>lcStreamID = sid, lcLines = ls, lcEOF = True\<rparr> h = h"
  using assms by (simp add: deliverLog_def)

text \<open>C29: The live log is shown exactly. From a request that opens a stream, whatever is picked in the
  event loop and whatever chunks arrive, as long as the browser keeps up: while the view is open, the
  lines written to the browser followed by those still waiting are all the lines the agent sent for the
  stream, in order; once it has ended, the lines written are a prefix of them and the channel is gone.\<close>

theorem log_view_exact:
  assumes "openLog env validToken sid q h = (Inr v, h1)" "keepsUp env es (v, h1)"
  shows "(case viewRun env es (v, h1) of (v', h') \<Rightarrow>
    let sent = concat (map (arrivedLines sid) es) in
      if lwOpen v' then shown v' @ waiting v' h' = sent else prefix (shown v') sent \<and> huLogs h' sid = None)"
proof -
  have "viewOK [] (v, h1) \<and> lwStream v = sid"
    using assms(1)
    by (auto simp: openLog_def openStream_def viewOK_def shown_def waiting_def connSend_def Let_def
        split: option.splits prod.splits if_splits)
  with viewRun_OK [of "[]" "(v, h1)" env es] assms(2) show ?thesis
    by (auto simp: viewOK_def Let_def split: prod.splits if_splits)
qed

definition sampleLogRequest :: logRequest where
  "sampleLogRequest = \<lparr>lqAuth = False, lqToken = ''t'', lqHeader = [], lqApp = ''a1'', lqTail = ''50''\<rparr>"

theorem log_view_exact_witness:
  "\<exists>v h1. openLog (sampleEnv 5 ''x'') (\<lambda>t. t = ''t'') ''st'' sampleLogRequest webHub = (Inr v, h1)
    \<and> (case viewRun (sampleEnv 5 ''x'') [Arrive \<lparr>lcStreamID = ''st'', lcLines = [''one'', ''two''], lcEOF = False\<rparr>, Pick TakeChunk,
          Arrive \<lparr>lcStreamID = ''st'', lcLines = [''three''], lcEOF = False\<rparr>] (v, h1) of
        (v', h') \<Rightarrow> shown v' @ waiting v' h' = [''one'', ''two'', ''three''])"
proof -
  let ?env = "sampleEnv 5 ''x''"
  let ?es = "[Arrive \<lparr>lcStreamID = ''st'', lcLines = [''one'', ''two''], lcEOF = False\<rparr>, Pick TakeChunk,
    Arrive \<lparr>lcStreamID = ''st'', lcLines = [''three''], lcEOF = False\<rparr>]"
  let ?o = "openLog ?env (\<lambda>t. t = ''t'') ''st'' sampleLogRequest webHub"
  let ?v = "projr (fst ?o)"
  have "\<not> isl (fst ?o)" by code_simp
  then have o: "?o = (Inr ?v, snd ?o)" by (metis sum.collapse(2) prod.collapse)
  have open_end: "lwOpen (fst (viewRun ?env ?es (?v, snd ?o)))" by code_simp
  have q: "huLogs (snd ?o) ''st'' = Some []" "lwStream ?v = ''st''" "lwOpen ?v" by code_simp+
  then have k: "keepsUp ?env ?es (?v, snd ?o)"
    by (simp add: deliverLog_def Let_def chunkWrites_def)
  from log_view_exact [OF o k] open_end
  have "case viewRun ?env ?es (?v, snd ?o) of (v', h') \<Rightarrow> shown v' @ waiting v' h' = [''one'', ''two'', ''three'']"
    by (simp add: Let_def split: prod.splits)
  with o show ?thesis by (intro exI conjI)
qed

end
