(* ===== verification/WireTyped.thy ===== *)
theory WireTyped
  imports WireFrames
begin

text \<open>
  What comes in is well typed. The bytes on the socket are the peer's; whatever they are, a frame that
  is decoded holds 64-bit integers, valid UTF-8, the canonical value of every enumeration and no name
  twice in a map. A decoder that keeps such a type is a \<open>typed_decoder\<close>; lists, pointers, maps and
  structs of one are again such.
\<close>

subsection \<open>Typed decoders\<close>

locale typed_decoder =
  fixes dec :: "'a decoder" and typed :: "'a \<Rightarrow> bool"
  assumes keeps: "wfJson d v \<Longrightarrow> typed cur \<Longrightarrow> typed (fst (dec v cur))"
begin

lemma pointer_typed: "typed zero \<Longrightarrow> typed_decoder (ptrDec zero dec) (pred_option typed)"
  by unfold_locales (auto simp: ptrDec_def intro: keeps split: option.splits)

lemma elems_typed: "typed zero \<Longrightarrow> wfElems d vs \<Longrightarrow> list_all typed old \<Longrightarrow> list_all typed (fst (elemsDec zero dec vs old))"
proof (induction vs arbitrary: old)
  case (Cons v vs)
  let ?o = "case old of [] \<Rightarrow> zero | o1 # _ \<Rightarrow> o1"
  have "typed ?o" "list_all typed (tl old)" using Cons.prems by (cases old; simp)+
  moreover have "fst (elemsDec zero dec (v # vs) old) = fst (dec v ?o) # fst (elemsDec zero dec vs (tl old))"
    by (simp add: Let_def split: prod.split)
  ultimately show ?case using Cons keeps [of d v ?o] by simp
qed simp

lemma list_typed: "typed zero \<Longrightarrow> typed_decoder (listDec zero dec) (list_all typed)"
proof
  fix d v cur
  assume "typed zero" "wfJson d v" "list_all typed cur"
  then show "list_all typed (fst (listDec zero dec v cur))"
    by (cases v) (auto simp: listDec_def intro: elems_typed)
qed

definition goodEntries :: "(string \<times> 'a) list \<Rightarrow> bool" where
  "goodEntries m \<longleftrightarrow> distinct (map fst m) \<and> list_all (\<lambda>e. validUtf8 (fst e) \<and> typed (snd e)) m"

lemma put_good: "goodEntries m \<Longrightarrow> validUtf8 k \<Longrightarrow> typed x \<Longrightarrow> goodEntries (putEntry k x m)"
  by (auto simp: goodEntries_def distinct_putEntry list_all_iff dest: entry_putEntry)

lemma map_typed:
  assumes "typed zero"
  shows "typed_decoder (mapDec zero dec) (\<lambda>m. distinct (map fst m) \<and> list_all (\<lambda>e. validUtf8 (fst e) \<and> typed (snd e)) m)"
proof -
  let ?f = "\<lambda>(k, w) (m, ok). case dec w zero of (x, ok') \<Rightarrow> (putEntry k x m, ok \<and> ok')"
  have "goodEntries (fst (fold ?f ms acc))" if "wfMembers d ms" "goodEntries (fst acc)" for d ms acc
    using that
  proof (induction ms arbitrary: acc)
    case (Cons m ms)
    obtain k w where m: "m = (k, w)" by (cases m)
    obtain x ok' where x: "dec w zero = (x, ok')" by (cases "dec w zero")
    obtain e ok where acc: "acc = (e, ok)" by (cases acc)
    from Cons.prems m x keeps [of d w zero] assms have "validUtf8 k" "typed x" by simp_all
    with Cons.prems m x acc Cons.IH [of "(putEntry k x e, ok \<and> ok')"] put_good [of e k x] show ?case by simp
  qed simp
  then show ?thesis
    unfolding goodEntries_def by unfold_locales (auto simp: mapDec_def split: Json.split)
qed

lemma payload_typed:
  "typed zero \<Longrightarrow> pred_option (wfJson d) p \<Longrightarrow> readPayload zero dec p = Some x \<Longrightarrow> typed x"
  using keeps [of d _ zero] by (fastforce simp: readPayload_def Let_def split: option.splits prod.splits if_splits)

end

text \<open>A field of a struct decodes the whole struct, and a struct keeps what each of its fields keeps.\<close>

lemma fld_typed:
  assumes "typed_decoder dec Q" "\<And>s. P s \<Longrightarrow> Q (get s)" "\<And>s x. P s \<Longrightarrow> Q x \<Longrightarrow> P (upd (\<lambda>_. x) s)"
  shows "typed_decoder (snd (fld n get upd dec)) P"
proof
  fix d v s
  assume wf: "wfJson d v" and p: "P s"
  from typed_decoder.keeps [OF assms(1) wf, of "get s"] assms(2,3) p
  show "P (fst (snd (fld n get upd dec) v s))" by (simp add: fld_def split_beta)
qed

lemma struct_typed:
  assumes "\<forall>f \<in> set fs. typed_decoder (snd f) P"
  shows "typed_decoder (structDec fs) P"
proof
  fix d v s
  assume wf: "wfJson d v" and p: "P s"
  have one: "P (fst (storeMember fs m acc))" if "P (fst acc)" "wfJson d' (snd m)" for d' m acc
  proof (cases "map_of fs (normKey (fst m))")
    case (Some f)
    then have "typed_decoder f P" using assms map_of_SomeD [OF Some] by fastforce
    from typed_decoder.keeps [OF this that(2,1)] Some show ?thesis by (simp add: storeMember_def split_beta)
  qed (simp add: storeMember_def that)
  have "P (fst (fold (storeMember fs) ms acc))" if "P (fst acc)" "wfMembers d' ms" for d' ms acc
    using that
  proof (induction ms arbitrary: acc)
    case (Cons m ms)
    then show ?case using one [of acc d' m] by (cases m) simp
  qed simp
  from this [of "(s, True)"] wf p show "P (fst (structDec fs v s))" by (cases v) (auto simp: structDec_def)
qed

subsection \<open>The types of the protocol\<close>

lemma str_typed: "typed_decoder strDec validUtf8"
  by unfold_locales (auto simp: strDec_def split: Json.split)

lemma bool_typed: "typed_decoder boolDec (\<lambda>_. True)"
  by unfold_locales simp

lemma int_typed: "typed_decoder intDec in64"
  by unfold_locales (auto simp: intDec_def atoi_def Let_def split: Json.split option.splits if_splits)

text \<open>An enumeration is read as its canonical constructor when reading and showing are inverse.\<close>

lemma enum_typed:
  assumes "\<And>s. sh (rd s) = s"
  shows "typed_decoder (enumDec rd sh) (okEnum rd sh)"
proof
  fix d v cur
  assume "wfJson d v" "okEnum rd sh cur"
  then have "validUtf8 (fst (strDec v (sh cur)))"
    using typed_decoder.keeps [OF str_typed] by (simp add: okEnum_def)
  then show "okEnum rd sh (fst (enumDec rd sh v cur))"
    by (simp add: enumDec_def okEnum_def assms split_beta)
qed

lemma enums_show:
  "kindStr (kindOf s) = s" "statusStr (statusOf s) = s" "desiredStr (desiredOf s) = s"
  "approvalStr (approvalOf s) = s" "verbStr (verbOf s) = s"
  by (simp_all add: kindOf_def statusOf_def desiredOf_def approvalOf_def verbOf_def)

lemma enums_typed:
  "typed_decoder (enumDec kindOf kindStr) (okEnum kindOf kindStr)"
  "typed_decoder (enumDec statusOf statusStr) (okEnum statusOf statusStr)"
  "typed_decoder (enumDec desiredOf desiredStr) (okEnum desiredOf desiredStr)"
  "typed_decoder (enumDec approvalOf approvalStr) (okEnum approvalOf approvalStr)"
  "typed_decoder (enumDec verbOf verbStr) (okEnum verbOf verbStr)"
  by (rule enum_typed, rule enums_show)+

lemma nil_valid [simp]: "validUtf8 []"
  by (simp add: validUtf8_def utf8Fix.simps)

lemmas basic_typed = str_typed bool_typed int_typed enums_typed
  typed_decoder.list_typed [OF str_typed nil_valid] typed_decoder.list_typed [OF int_typed in64_0]
  typed_decoder.map_typed [OF str_typed nil_valid] typed_decoder.pointer_typed [OF int_typed in64_0]

lemmas fld_basic = basic_typed [THEN fld_typed]

interpretation health_typed: typed_decoder "structDec healthFields" okHealth
  by (rule struct_typed) (simp add: healthFields_def, intro conjI fld_basic; simp add: okHealth_def)

interpretation stop_typed: typed_decoder "structDec stopFields" okStop
  by (rule struct_typed) (simp add: stopFields_def, intro conjI fld_basic; simp add: okStop_def)

interpretation policy_typed: typed_decoder "structDec policyFields" okPolicy
  by (rule struct_typed) (simp add: policyFields_def, intro conjI fld_basic; simp add: okPolicy_def)

interpretation cmd_typed: typed_decoder "structDec cmdFields" okCmd
  by (rule struct_typed) (simp add: cmdFields_def, intro conjI fld_basic; simp add: okCmd_def)

subsection \<open>Definitions\<close>

text \<open>
  A map has no order: the entries of \<^verbatim>\<open>env\<close> are written in the order of their names whatever order they
  are listed in, and a definition is well typed when the definition so ordered is.
\<close>

definition canonDefinition :: "AppDefinition \<Rightarrow> AppDefinition" where
  "canonDefinition d = d\<lparr>defEnv := sort_key fst (defEnv d)\<rparr>"

lemma distinct_sort_key: "distinct (map f (sort_key f xs)) \<longleftrightarrow> distinct (map f xs)"
  by (simp add: distinct_map)

lemma list_all_sort_key: "list_all P (sort_key f xs) \<longleftrightarrow> list_all P xs"
  by (simp add: list_all_iff)

lemma sort_key_nil: "sort_key f xs = [] \<longleftrightarrow> xs = []"
  using length_sort [of f xs] by (metis length_0_conv)

lemmas canon_simps = canonDefinition_def distinct_sort_key list_all_sort_key

lemma canon_encoded: "encDefinition (canonDefinition d) = encDefinition d"
  by (simp add: encDefinition_def canonDefinition_def sort_key_id_if_sorted sort_key_nil)

lemma zero_parts: "okHealth zeroHealth" "okStop zeroStop" "okPolicy zeroPolicy" "okPort zeroPort" "okDigest zeroDigest"
  "okRow zeroRow" "okCmd zeroCmd" "okResult zeroResult" "okApproval zeroApproval" "okChunk zeroChunk"
  by code_simp+

lemma zero_event: "okEvent zeroEvent"
  by (simp add: okEvent_def zeroEvent_def okEnum_def statusOf_def)

lemmas fld_parts = fld_basic
  health_typed.pointer_typed [OF zero_parts(1), THEN fld_typed] stop_typed.pointer_typed [OF zero_parts(2), THEN fld_typed]
  policy_typed.pointer_typed [OF zero_parts(3), THEN fld_typed]

interpretation definition_typed: typed_decoder "structDec definitionFields" "\<lambda>d. okDefinition (canonDefinition d)"
  by (rule struct_typed) (simp add: definitionFields_def, intro conjI fld_parts; simp add: okDefinition_def canon_simps)

lemma zero_definition: "okDefinition (canonDefinition zeroDefinition)"
  by (simp add: canonDefinition_def zeroDefinition_def okDefinition_def okEnum_def kindOf_def)

definition canonSpec :: "AppSpec \<Rightarrow> AppSpec" where
  "canonSpec sp = sp\<lparr>spDefinition := canonDefinition (spDefinition sp)\<rparr>"

lemmas fld_definition = fld_basic definition_typed.typed_decoder_axioms [THEN fld_typed]

interpretation spec_typed: typed_decoder "structDec specFields" "\<lambda>sp. okSpec (canonSpec sp)"
  by (rule struct_typed) (simp add: specFields_def, intro conjI fld_definition; simp add: okSpec_def canonSpec_def)

interpretation register_typed: typed_decoder "structDec registerFields" "\<lambda>d. okDefinition (canonDefinition d)"
  by (rule struct_typed) (simp add: registerFields_def, intro conjI fld_definition; simp)

lemma zero_spec: "okSpec (canonSpec zeroSpec)"
  by (simp add: okSpec_def canonSpec_def zeroSpec_def zero_definition okEnum_def desiredOf_def)

interpretation sync_typed: typed_decoder "structDec syncFields" "list_all (\<lambda>sp. okSpec (canonSpec sp))"
  by (rule struct_typed) (simp add: syncFields_def, rule spec_typed.list_typed [OF zero_spec, THEN fld_typed]; simp)

subsection \<open>Messages\<close>

interpretation follow_typed: typed_decoder "structDec followFields" okFollow
  by (rule struct_typed) (simp add: followFields_def, intro conjI fld_basic; simp add: okFollow_def)

interpretation cancel_typed: typed_decoder "structDec (oneFields k)" validUtf8 for k
  by (rule struct_typed) (simp add: oneFields_def, intro conjI fld_basic; simp)

interpretation result_typed: typed_decoder "structDec resultFields" okResult
  by (rule struct_typed) (simp add: resultFields_def, intro conjI fld_basic; simp add: okResult_def)

interpretation port_typed: typed_decoder "structDec portFields" okPort
  by (rule struct_typed) (simp add: portFields_def, intro conjI fld_basic; simp add: okPort_def)

lemmas fld_ports = fld_basic port_typed.list_typed [OF zero_parts(4), THEN fld_typed]

interpretation event_typed: typed_decoder "structDec eventFields" okEvent
  by (rule struct_typed) (simp add: eventFields_def, intro conjI fld_ports; simp add: okEvent_def)

interpretation approval_typed: typed_decoder "structDec approvalFields" okApproval
  by (rule struct_typed) (simp add: approvalFields_def, intro conjI fld_basic; simp add: okApproval_def)

interpretation digest_typed: typed_decoder "structDec digestFields" okDigest
  by (rule struct_typed) (simp add: digestFields_def, intro conjI fld_basic; simp add: okDigest_def)

definition canonHello :: "Hello \<Rightarrow> Hello" where
  "canonHello he = he\<lparr>heApps := sort_key fst (heApps he)\<rparr>"

lemmas fld_digests = fld_basic digest_typed.map_typed [OF zero_parts(5), THEN fld_typed]

interpretation hello_typed: typed_decoder "structDec helloFields" "\<lambda>he. okHello (canonHello he)"
  by (rule struct_typed) (simp add: helloFields_def, intro conjI fld_digests;
      simp add: okHello_def canonHello_def canon_simps)

interpretation chunk_typed: typed_decoder "structDec chunkFields" okChunk
  by (rule struct_typed) (simp add: chunkFields_def, intro conjI fld_basic; simp add: okChunk_def)

interpretation row_typed: typed_decoder "structDec rowFields" okRow
  by (rule struct_typed) (simp add: rowFields_def, intro conjI fld_basic; simp add: okRow_def)

interpretation batch_typed: typed_decoder "structDec batchFields" "list_all okRow"
  by (rule struct_typed) (simp add: batchFields_def, rule row_typed.list_typed [OF zero_parts(6), THEN fld_typed]; simp)

text \<open>The payload of an envelope is a document of any depth.\<close>

definition rawOk :: "Json option \<Rightarrow> bool" where
  "rawOk p \<longleftrightarrow> pred_option (\<lambda>v. \<exists>d. wfJson d v) p"

lemma raw_typed: "typed_decoder rawDec rawOk"
  by unfold_locales (auto simp: rawDec_def rawOk_def)

definition typedEnvelope :: "Envelope \<Rightarrow> bool" where
  "typedEnvelope e \<longleftrightarrow> in64 (envV e) \<and> validUtf8 (envT e) \<and> validUtf8 (envID e) \<and> in64 (envTS e) \<and> rawOk (envD e)"

lemmas fld_raw = fld_basic raw_typed [THEN fld_typed]

interpretation envelope_typed: typed_decoder "structDec envelopeFields" typedEnvelope
  by (rule struct_typed) (simp add: envelopeFields_def, intro conjI fld_raw; simp add: typedEnvelope_def)

lemma readEnvelope_typed: "readEnvelope b = Some e \<Longrightarrow> typedEnvelope e"
proof -
  assume r: "readEnvelope b = Some e"
  then obtain v where v: "readJson b = Some v" "e = fst (structDec envelopeFields v zeroEnvelope)"
    by (auto simp: readEnvelope_def unmarshal_def split: option.splits prod.splits if_splits)
  have "typedEnvelope zeroEnvelope" by (simp add: typedEnvelope_def zeroEnvelope_def rawOk_def)
  with v readJson_wf [OF v(1)] show ?thesis by (simp add: envelope_typed.keeps)
qed

context typed_decoder
begin

lemma raw_payload: "rawOk p \<Longrightarrow> typed zero \<Longrightarrow> pred_option typed (readPayload zero dec p)"
  by (cases p; cases "readPayload zero dec p") (auto simp: rawOk_def intro: payload_typed [where p = p])

lemma raw_read: "rawOk p \<Longrightarrow> typed zero \<Longrightarrow> readPayload zero dec p = Some x \<Longrightarrow> typed x"
  using raw_payload [of p zero] by simp

end

fun canonHub :: "HubFrame \<Rightarrow> HubFrame" where
  "canonHub (HAppSync (Some specs)) = HAppSync (Some (map canonSpec specs))"
| "canonHub f = f"

text \<open>A frame whose payload did not decode carries nothing.\<close>

fun typedHub :: "HubFrame \<Rightarrow> bool" where
  "typedHub (HAppSync None) \<longleftrightarrow> True"
| "typedHub (HCmd None) \<longleftrightarrow> True"
| "typedHub (HLogFollow None) \<longleftrightarrow> True"
| "typedHub (HLogCancel None) \<longleftrightarrow> True"
| "typedHub HPing \<longleftrightarrow> True"
| "typedHub (HUnknown t) \<longleftrightarrow> validUtf8 t"
| "typedHub f \<longleftrightarrow> okHubFrame (canonHub f)"

fun canonAgent :: "AgentFrame \<Rightarrow> AgentFrame" where
  "canonAgent (FHello digest caps) = FHello (sort_key fst digest) caps"
| "canonAgent (FAppRegister d) = FAppRegister (canonDefinition d)"
| "canonAgent f = f"

lemma typedHub_payload [simp]:
  "typedHub (HAppSync p) = pred_option (list_all (\<lambda>sp. okSpec (canonSpec sp))) p"
  "typedHub (HCmd c) = pred_option okCmd c" "typedHub (HLogFollow r) = pred_option okFollow r"
  "typedHub (HLogCancel s) = pred_option validUtf8 s"
  by (cases p; cases c; cases r; cases s; simp add: list_all_iff)+

lemma hub_frame_typed:
  assumes "readHubFrame b = Some f"
  shows "typedHub f"
proof -
  obtain e where e: "readEnvelope b = Some e" "f = hubFrameOf e"
    using assms by (auto simp: readHubFrame_def)
  from readEnvelope_typed [OF e(1)] have t: "validUtf8 (envT e)" "rawOk (envD e)" by (simp_all add: typedEnvelope_def)
  have z: "okFollow ('''', '''', 0)" by (simp add: okFollow_def)
  note raw = sync_typed.raw_payload [OF t(2)] cmd_typed.raw_payload [OF t(2) zero_parts(7)]
    follow_typed.raw_payload [OF t(2) z] cancel_typed.raw_payload [OF t(2) nil_valid]
  show ?thesis unfolding e(2) hubFrameOf_def using t(1) by (simp add: raw)
qed

lemma msgOf_frame: "msgOf g p = AFrame f \<Longrightarrow> \<exists>x. p = Some x \<and> g x = AFrame f"
  by (cases p) (simp_all add: msgOf_def)

lemma hello_digest:
  "okHello (canonHello he) \<Longrightarrow> okHello (zeroHello\<lparr>heCapabilities := heCapabilities he, heApps := sort_key fst (heApps he)\<rparr>)"
  by (simp add: okHello_def canonHello_def zeroHello_def)

lemma agent_frame_typed:
  assumes "readAgentMsg zeroMetrics metricsDec b = Some (AFrame f)"
  shows "okAgentFrame zeroHello (canonAgent f)"
proof -
  obtain e where e: "readEnvelope b = Some e" "agentMsgOf zeroMetrics metricsDec e = AFrame f"
    using assms by (auto simp: readAgentMsg_def)
  from readEnvelope_typed [OF e(1)] have t: "rawOk (envD e)" by (simp add: typedEnvelope_def)
  have hello: "okHello (canonHello zeroHello)" by (simp add: okHello_def canonHello_def zeroHello_def)
  note raw = hello_typed.raw_read [OF t hello] event_typed.raw_read [OF t zero_event]
    cancel_typed.raw_read [OF t nil_valid] result_typed.raw_read [OF t zero_parts(8)]
    register_typed.raw_read [OF t zero_definition] batch_typed.raw_read [OF t list.pred_inject(1)]
    chunk_typed.raw_read [OF t zero_parts(10)] approval_typed.raw_read [OF t zero_parts(9)]
  show ?thesis
    using e(2) unfolding agentMsgOf_def
    by (auto dest!: msgOf_frame split: if_splits) (erule raw | rule hello_digest)+
qed


end
