(* ===== verification/CommandLedger.thy ===== *)
theory CommandLedger
  imports HubClients
begin

text \<open>
  The contract of the command records. Abstractly a hub keeps a ledger: a command is queued by a client,
  sent or refused, acknowledged, answered, or given up; what was asked for never changes, and an answer is
  the host's. The hub's operations refine this ledger, and what holds of every ledger holds of the records.
\<close>

subsection \<open>The ledger\<close>

datatype cmdPhase = Queued | Sent | Acknowledged | Succeeded | Broken | Expired | Stray string

record ledgerEntry =
  leApp :: string
  leSystem :: string
  leVerb :: Verb
  leBy :: string
  lePhase :: cmdPhase
  leAnswer :: "CmdResult option"

type_synonym ledger = "string \<rightharpoonup> ledgerEntry"

definition queued :: "string \<Rightarrow> string \<Rightarrow> Verb \<Rightarrow> string option \<Rightarrow> ledgerEntry" where
  "queued app sys verb user =
     \<lparr>leApp = app, leSystem = sys, leVerb = verb, leBy = (case user of None \<Rightarrow> [] | Some u \<Rightarrow> u),
      lePhase = Queued, leAnswer = None\<rparr>"

definition answered :: "CmdResult \<Rightarrow> ledgerEntry \<Rightarrow> ledgerEntry" where
  "answered res x = x\<lparr>lePhase := (if crOK res then Succeeded else Broken), leAnswer := Some res\<rparr>"

text \<open>The moves an event allows.\<close>

inductive ledgerMove :: "'f hubEvent \<Rightarrow> ledger \<Rightarrow> ledger \<Rightarrow> bool" for e where
  queue: "e = HCommand user app text \<Longrightarrow> ValidVerb (verbOf text) \<Longrightarrow> L cid = None \<Longrightarrow>
    ledgerMove e L (L(cid \<mapsto> queued app sys (verbOf text) user))"
| sent: "e = HCommand user app text \<Longrightarrow> L cid = Some x \<Longrightarrow> lePhase x = Queued \<Longrightarrow> ph \<in> {Sent, Broken} \<Longrightarrow>
    ledgerMove e L (L(cid \<mapsto> x\<lparr>lePhase := ph\<rparr>))"
| ack: "e = HFrame c (AFrame (FCmdAck cid)) \<Longrightarrow> L cid = Some x \<Longrightarrow>
    ledgerMove e L (L(cid \<mapsto> x\<lparr>lePhase := Acknowledged\<rparr>))"
| answer: "e = HFrame c (AFrame (FCmdResult res)) \<Longrightarrow> L (crCmdID res) = Some x \<Longrightarrow>
    ledgerMove e L (L(crCmdID res \<mapsto> answered res x))"
| expire: "e = HSweep \<Longrightarrow> L cid = Some x \<Longrightarrow> lePhase x \<in> {Sent, Acknowledged} \<Longrightarrow>
    ledgerMove e L (L(cid \<mapsto> x\<lparr>lePhase := Expired\<rparr>))"

inductive ledgerRun :: "'f hubEvent list \<Rightarrow> ledger \<Rightarrow> ledger \<Rightarrow> bool" where
  done_run: "ledgerRun [] L L"
| step_run: "(ledgerMove e)\<^sup>*\<^sup>* L L1 \<Longrightarrow> ledgerRun es L1 L2 \<Longrightarrow> ledgerRun (e # es) L L2"

inductive_cases ledgerRun_Nil: "ledgerRun [] L L'"
inductive_cases ledgerRun_Cons: "ledgerRun (e # es) L L'"

subsection \<open>What holds of every ledger\<close>

text \<open>
  An entry keeps what was asked for, it succeeded only by a good answer, and the answer in it has arrived
  in a frame.
\<close>

definition asked :: "ledgerEntry \<Rightarrow> string \<times> string \<times> Verb \<times> string" where
  "asked x = (leApp x, leSystem x, leVerb x, leBy x)"

definition honest :: "ledgerEntry \<Rightarrow> bool" where
  "honest x \<longleftrightarrow> (lePhase x = Succeeded \<longrightarrow> pred_option crOK (leAnswer x) \<and> leAnswer x \<noteq> None)"

lemma move_keeps:
  assumes "ledgerMove e L L'" "L cid = Some x"
  shows "\<exists>x'. L' cid = Some x' \<and> asked x' = asked x"
  using assms by (cases rule: ledgerMove.cases) (auto simp: asked_def answered_def)

lemma moves_keep:
  assumes "(ledgerMove e)\<^sup>*\<^sup>* L L'" "L cid = Some x"
  shows "\<exists>x'. L' cid = Some x' \<and> asked x' = asked x"
  using assms
proof (induction rule: rtranclp_induct)
  case (step L1 L2)
  then show ?case using move_keeps [of e L1 L2 cid] by metis
qed simp

lemma run_keeps:
  "ledgerRun es L L' \<Longrightarrow> L cid = Some x \<Longrightarrow> \<exists>x'. L' cid = Some x' \<and> asked x' = asked x"
proof (induction arbitrary: x rule: ledgerRun.induct)
  case (step_run e L L1 es L2)
  then show ?case using moves_keep [OF step_run.hyps(1)] by metis
qed simp

lemma move_honest:
  assumes "ledgerMove e L L'" "\<forall>x \<in> ran L. honest x"
  shows "\<forall>x \<in> ran L'. honest x"
  using assms
  by (cases rule: ledgerMove.cases) (auto simp: ran_def honest_def answered_def queued_def split: if_splits)

lemma moves_honest: "(ledgerMove e)\<^sup>*\<^sup>* L L' \<Longrightarrow> \<forall>x \<in> ran L. honest x \<Longrightarrow> \<forall>x \<in> ran L'. honest x"
  by (induction rule: rtranclp_induct) (auto dest: move_honest)

lemma run_honest: "ledgerRun es L L' \<Longrightarrow> \<forall>x \<in> ran L. honest x \<Longrightarrow> \<forall>x \<in> ran L'. honest x"
  by (induction rule: ledgerRun.induct) (auto dest: moves_honest)

subsection \<open>The records of the hub\<close>

definition phaseOf :: "string \<Rightarrow> cmdPhase" where
  "phaseOf s =
     (if s = ''pending'' then Queued else if s = ''dispatched'' then Sent else if s = ''acked'' then Acknowledged
      else if s = ''done'' then Succeeded else if s = ''failed'' then Broken
      else if s = ''timeout'' then Expired else Stray s)"

definition entryOf :: "CommandRec \<Rightarrow> ledgerEntry" where
  "entryOf r = \<lparr>leApp = coApp r, leSystem = coSystem r, leVerb = coVerb r, leBy = coRequestedBy r,
     lePhase = phaseOf (coStatus r), leAnswer = coResult r\<rparr>"

definition ledgerOf :: "'f hub \<Rightarrow> ledger" where
  "ledgerOf h = (\<lambda>cid. map_option entryOf (findRecord cid (huCommands h)))"

lemma ledgerOf_cong: "huCommands h = huCommands h' \<Longrightarrow> ledgerOf h = ledgerOf h'"
  by (simp add: ledgerOf_def)

lemma ledgerOf_update:
  "ledgerOf (snd (updateCommand env cid r h)) = (if enSave env cid then (ledgerOf h)(cid \<mapsto> entryOf r) else ledgerOf h)"
  by (rule ext) (simp add: ledgerOf_def updateCommand_find entryOf_def)

lemma ledgerOf_find: "findRecord cid (huCommands h) = Some r \<Longrightarrow> ledgerOf h cid = Some (entryOf r)"
  by (simp add: ledgerOf_def)

lemma entry_status: "entryOf (r\<lparr>coStatus := s\<rparr>) = (entryOf r)\<lparr>lePhase := phaseOf s\<rparr>"
  by (simp add: entryOf_def)

lemma entry_answer:
  "entryOf ((if crOK res then r\<lparr>coStatus := ''done''\<rparr>
      else r\<lparr>coStatus := ''failed'', coError := crError res\<rparr>)\<lparr>coResult := Some res\<rparr>) = answered res (entryOf r)"
  by (simp add: entryOf_def phaseOf_def answered_def)

text \<open>A record that was loaded and saved with nothing in between is what the caller saved.\<close>

definition plainSave :: "'f hubEnv \<Rightarrow> bool" where
  "plainSave env \<longleftrightarrow> (\<forall>l c. enMergeCommand env l c l = c)"

subsection \<open>What leaves the commands alone\<close>

lemma keep_if_none: "(\<And>g. huCommands (snd (k g)) = huCommands g) \<Longrightarrow>
    huCommands (snd (case res of (None, g) \<Rightarrow> k g | (Some e, g) \<Rightarrow> (Some e, g))) = huCommands (snd res)"
  by (cases res; cases "fst res") auto

lemma commands_onHello: "huCommands (snd (onHello env c caps h)) = huCommands h"
  by (simp add: onHello_def Let_def keep_if_none split: option.split)

lemma commands_onAppRegister: "huCommands (snd (onAppRegister env c i def h)) = huCommands h"
  by (simp add: onAppRegister_def keep_if_none) (simp add: createApp_def)

lemma commands_ingest [simp]:
  "huCommands (snd (ingestMetrics env i b h)) = huCommands h"
  "huCommands (snd (ingestTokens env i rows h)) = huCommands h"
  "huCommands (deliverLog chunk h) = huCommands h"
  by (simp_all add: ingestMetrics_def ingestTokens_def deliverLog_def Let_def split: option.split prod.split)

lemma commands_saveApp: "huCommands (snd (saveApp env a i k d h)) = huCommands h"
proof -
  have "huCommands (snd (afterSave env i k res)) = huCommands (snd res)" for k res
    by (simp add: afterSave_def split: option.split)
  then show ?thesis by (simp add: saveApp_def Let_def createApp_def split: option.split)
qed

subsection \<open>The refinement\<close>

lemma other_frame:
  assumes "\<nexists>cid. m = AFrame (FCmdAck cid)" "\<nexists>res. m = AFrame (FCmdResult res)"
  shows "huCommands (snd (handleAgentFrame env c i m h)) = huCommands h"
proof (cases m)
  case (AFrame f)
  with assms show ?thesis
    by (cases f) (simp_all add: commands_onHello commands_onAppRegister onAppEvent_def onApprovalEvent_def
        split: option.split)
qed simp_all

lemma frame_moves: "(ledgerMove (HFrame c m))\<^sup>*\<^sup>* (ledgerOf h) (ledgerOf (serveFrame env c m h))"
proof -
  have "(ledgerMove (HFrame c m))\<^sup>*\<^sup>* (ledgerOf h) (ledgerOf (snd (handleAgentFrame env c i m h)))" for i
  proof (cases "(\<exists>cid. m = AFrame (FCmdAck cid)) \<or> (\<exists>res. m = AFrame (FCmdResult res))")
    case True
    then consider cid where "m = AFrame (FCmdAck cid)" | res where "m = AFrame (FCmdResult res)" by blast
    then show ?thesis
    proof cases
      case (1 cid)
      show ?thesis
      proof (cases "findRecord cid (huCommands h)")
        case (Some r)
        from ledgerMove.ack [of "HFrame c m" c cid "ledgerOf h"] ledgerOf_find [OF Some] 1 Some show ?thesis
          by (simp add: onCmdAck_def ledgerOf_update entry_status phaseOf_def r_into_rtranclp)
      qed (simp add: 1 onCmdAck_def)
    next
      case (2 res)
      show ?thesis
      proof (cases "findRecord (crCmdID res) (huCommands h)")
        case (Some r)
        from ledgerMove.answer [of "HFrame c m" c res "ledgerOf h"] ledgerOf_find [OF Some] 2 Some show ?thesis
          by (simp add: onCmdResult_def ledgerOf_update entry_answer r_into_rtranclp)
      qed (simp add: 2 onCmdResult_def)
    qed
  next
    case False
    then have "huCommands (snd (handleAgentFrame env c i m h)) = huCommands h" by (simp add: other_frame)
    then have "ledgerOf (snd (handleAgentFrame env c i m h)) = ledgerOf h" by (rule ledgerOf_cong)
    then show ?thesis by simp
  qed
  then show ?thesis by (simp add: serveFrame_def split: option.split)
qed

lemma sweep_moves:
  assumes "distinct (map fst xs)" "list_all (\<lambda>(i, r). findRecord i (huCommands h) = Some r \<and> isStale cutoff (i, r)) xs"
  shows "(ledgerMove (HSweep :: 'f hubEvent))\<^sup>*\<^sup>* (ledgerOf h) (ledgerOf (fold (sweepOne env) xs (h :: 'f hub)))"
  using assms
proof (induction xs arbitrary: h)
  case (Cons x xs)
  obtain i r where x: "x = (i, r)" by (cases x)
  let ?h1 = "sweepOne env x h"
  from Cons.prems(2) x have r: "findRecord i (huCommands h) = Some r" "isStale cutoff (i, r)" by simp_all
  have one: "(ledgerMove (HSweep :: 'f hubEvent))\<^sup>*\<^sup>* (ledgerOf h) (ledgerOf ?h1)"
  proof -
    have "lePhase (entryOf r) \<in> {Sent, Acknowledged}"
      using r(2) by (auto simp: isStale_def entryOf_def phaseOf_def)
    with ledgerOf_find [OF r(1)]
    have "ledgerMove (HSweep :: 'f hubEvent) (ledgerOf h) ((ledgerOf h)(i \<mapsto> (entryOf r)\<lparr>lePhase := Expired\<rparr>))"
      by (rule ledgerMove.expire [OF refl])
    then have "(ledgerMove (HSweep :: 'f hubEvent))\<^sup>*\<^sup>* (ledgerOf h) ((ledgerOf h)(i \<mapsto> (entryOf r)\<lparr>lePhase := Expired\<rparr>))"
      by simp
    moreover have "entryOf (r\<lparr>coStatus := ''timeout'', coError := m\<rparr>) = (entryOf r)\<lparr>lePhase := Expired\<rparr>" for m
      by (simp add: entryOf_def phaseOf_def)
    ultimately show ?thesis by (simp add: sweepOne_def x ledgerOf_update)
  qed
  have "list_all (\<lambda>(i, r). findRecord i (huCommands ?h1) = Some r \<and> isStale cutoff (i, r)) xs"
    unfolding list_all_iff
  proof clarify
    fix k q
    assume k: "(k, q) \<in> set xs"
    with Cons.prems(1) x have "k \<noteq> i" by force
    then have "findRecord k (huCommands ?h1) = findRecord k (huCommands h)"
      by (simp add: sweepOne_def x updateCommand_find)
    with k Cons.prems(2) show "findRecord k (huCommands ?h1) = Some q \<and> isStale cutoff (k, q)"
      by (auto simp: list_all_iff)
  qed
  with Cons.IH [of ?h1] Cons.prems(1) one show ?case by simp
qed simp

lemma createCommand_commands:
  "isl (fst (createCommand env u a t h)) \<Longrightarrow> huCommands (snd (createCommand env u a t h)) = huCommands h"
  by (auto simp: createCommand_def Let_def split: option.split_asm if_split_asm)

lemma createCommand_fresh:
  "fst (createCommand env u a t h) = Inr cid \<Longrightarrow> findRecord cid (huCommands h) = None"
  by (auto simp: createCommand_def Let_def split: option.split_asm if_split_asm)

lemma request_moves:
  assumes "plainSave env"
  shows "(ledgerMove (HCommand user app text))\<^sup>*\<^sup>* (ledgerOf h) (ledgerOf (snd (requestCommand env user app text h)))"
proof -
  obtain res h1 where c: "createCommand env user app text h = (res, h1)" by (cases "createCommand env user app text h")
  show ?thesis
  proof (cases res)
    case (Inl e)
    with c createCommand_commands [of env user app "text" h] have "huCommands h1 = huCommands h" by simp
    then have "ledgerOf h1 = ledgerOf h" by (rule ledgerOf_cong)
    with Inl c show ?thesis by (simp add: requestCommand_def)
  next
    case (Inr cid)
    with c obtain r where r: "ValidVerb (verbOf text)" "cid = enNewID env"
      and h1: "h1 = (withDesired env app (verbOf text) r h)\<lparr>huCommands :=
         saveRecord cid (newCommand env app (verbOf text) user r) (huCommands h)\<rparr>"
      using createCommand_Inr by metis
    from c Inr createCommand_fresh [of env user app "text" h cid] have fresh: "findRecord cid (huCommands h) = None" by simp
    let ?r = "newCommand env app (verbOf text) user r"
    let ?q = "queued app (arSystem r) (verbOf text) user"
    have entry: "entryOf ?r = ?q" by (simp add: entryOf_def newCommand_def queued_def phaseOf_def)
    have L1: "ledgerOf h1 = (ledgerOf h)(cid \<mapsto> ?q)"
      by (rule ext) (simp add: ledgerOf_def h1 coll.find_save entry)
    have queue: "ledgerMove (HCommand user app text) (ledgerOf h) (ledgerOf h1)"
      unfolding L1 by (rule ledgerMove.queue [OF refl r(1)]) (simp add: ledgerOf_def fresh)
    have find1: "findRecord cid (huCommands h1) = Some ?r" by (simp add: h1 coll.find_saved)
    obtain e h2 where d: "dispatchCommand env cid ?r h1 = (e, h2)" by (cases "dispatchCommand env cid ?r h1")
    have "huCommands (snd (dispatchCommand env cid ?r h1)) = huCommands h1"
      by (simp add: dispatchCommand_def Dispatch_def split: option.split)
    with d have h2: "huCommands h2 = huCommands h1" by simp
    have h3: "snd (requestCommand env user app text h) = snd (updateCommand env cid (dispatched e ?r) h2)"
      using c Inr find1 d h2 assms by (simp add: requestCommand_def afterCreate_def saveDispatched_def plainSave_def)
    have "(ledgerMove (HCommand user app text))\<^sup>*\<^sup>* (ledgerOf h1) (ledgerOf (snd (updateCommand env cid (dispatched e ?r) h2)))"
      using ledgerMove.sent [of "HCommand user app text" user app "text" "ledgerOf h1" cid ?q Sent]
        ledgerMove.sent [of "HCommand user app text" user app "text" "ledgerOf h1" cid ?q Broken] L1
      by (cases e) (auto simp: ledgerOf_update ledgerOf_cong [OF h2] dispatched_def entryOf_def newCommand_def queued_def phaseOf_def)
    with queue show ?thesis unfolding h3 by (rule converse_rtranclp_into_rtranclp)
  qed
qed

abbreviation ids :: "'f hub \<Rightarrow> string list" where
  "ids h \<equiv> map fst (huCommands h)"

lemma ids_update: "distinct (ids h) \<Longrightarrow> distinct (ids (snd (updateCommand env i r h)))"
  by (simp add: updateCommand_def coll.ids_distinct)

lemma ids_frame: "distinct (ids h) \<Longrightarrow> distinct (ids (serveFrame env c m h))"
proof -
  assume d: "distinct (ids h)"
  have "distinct (ids (snd (handleAgentFrame env c i m h)))" for i
  proof (cases "(\<exists>cid. m = AFrame (FCmdAck cid)) \<or> (\<exists>res. m = AFrame (FCmdResult res))")
    case True
    with d show ?thesis by (auto simp: onCmdAck_def onCmdResult_def ids_update split: option.split)
  next
    case False
    with d show ?thesis by (simp add: other_frame)
  qed
  with d show ?thesis by (simp add: serveFrame_def split: option.split)
qed

lemma ids_request: "distinct (ids h) \<Longrightarrow> distinct (ids (snd (requestCommand env user app t h)))"
proof -
  assume d: "distinct (ids h)"
  obtain res h1 where c: "createCommand env user app t h = (res, h1)" by (cases "createCommand env user app t h")
  have d1: "distinct (ids h1)"
  proof (cases res)
    case (Inl e)
    with c d createCommand_commands [of env user app t h] show ?thesis by simp
  next
    case (Inr cid)
    with c obtain q where "huCommands h1 = saveRecord cid q (huCommands h)"
      by (auto elim!: createCommand_Inr)
    with d show ?thesis by (simp add: coll.ids_distinct)
  qed
  have "distinct (ids (saveDispatched env cid r e g))" if "distinct (ids g)" for cid r e g
    using that by (simp add: saveDispatched_def ids_update split: option.split)
  moreover have "huCommands (snd (dispatchCommand env cid r h1)) = huCommands h1" for cid r
    by (simp add: dispatchCommand_def Dispatch_def split: option.split)
  ultimately have "distinct (ids (afterCreate env cid h1))" for cid
    using d1 by (simp add: afterCreate_def Let_def split: option.split)
  with c d1 show ?thesis by (simp add: requestCommand_def split: sum.split)
qed

lemma ids_sweep: "distinct (ids h) \<Longrightarrow> distinct (ids (fold (sweepOne env) xs h))"
  by (induction xs arbitrary: h) (simp_all add: sweepOne_def ids_update)

lemma step_ids: "distinct (ids h) \<Longrightarrow> distinct (ids (hubStep env e h))"
  by (cases e) (simp_all add: ids_frame ids_request ids_sweep sweep_def commands_saveApp split: sum.split)

lemma step_moves:
  assumes "plainSave env" "distinct (map fst (huCommands h))"
  shows "(ledgerMove e)\<^sup>*\<^sup>* (ledgerOf h) (ledgerOf (hubStep env e h))"
proof -
  have same: "(ledgerMove e)\<^sup>*\<^sup>* (ledgerOf h) (ledgerOf g)" if "huCommands g = huCommands h" for g
    using ledgerOf_cong [OF that] by simp
  show ?thesis
  proof (cases e)
    case (HConnect verify c i ts sig)
    then have "huCommands (hubStep env e h) = huCommands h" by (simp split: sum.split)
    then show ?thesis by (rule same)
  next
    case (HClose c)
    then have "huCommands (hubStep env e h) = huCommands h" by simp
    then show ?thesis by (rule same)
  next
    case (HFrame c m)
    then show ?thesis using frame_moves [of c m h env] by simp
  next
    case (HCommand user app t)
    then show ?thesis using request_moves [OF assms(1), of user app t h] by simp
  next
    case HSweep
    let ?P = "isStale (enNow env - dispatchTimeout)"
    have "distinct (map fst (take 200 (filter ?P (huCommands h))))"
      using assms(2) by (simp add: distinct_map_filter flip: take_map)
    moreover have "list_all (\<lambda>(i, r). findRecord i (huCommands h) = Some r \<and> ?P (i, r)) (take 200 (filter ?P (huCommands h)))"
      using findRecord_iff [OF assms(2)] by (auto simp: list_all_iff dest!: in_set_takeD)
    ultimately show ?thesis using sweep_moves [of "take 200 (filter ?P (huCommands h))" h] HSweep
      by (simp add: sweep_def)
  next
    case (HSaveApp a i k d)
    then have "huCommands (hubStep env e h) = huCommands h" by (simp add: commands_saveApp)
    then show ?thesis by (rule same)
  next
    case (HPatchApp u i f)
    then have "huCommands (hubStep env e h) = huCommands h" by simp
    then show ?thesis by (rule same)
  qed
qed

lemma run_moves:
  assumes "list_all (plainSave \<circ> fst) es" "distinct (ids h)"
  shows "ledgerRun (map snd es) (ledgerOf h) (ledgerOf (runHub es h))"
  using assms
proof (induction es arbitrary: h)
  case Nil
  then show ?case by (simp add: runHub_def ledgerRun.done_run)
next
  case (Cons x es)
  obtain env e where x: "x = (env, e)" by (cases x)
  from Cons.prems x have p: "plainSave env" "list_all (plainSave \<circ> fst) es" by (simp_all add: o_def)
  from Cons.IH [OF p(2) step_ids [OF Cons.prems(2), of env e]]
  have "ledgerRun (map snd es) (ledgerOf (hubStep env e h)) (ledgerOf (runHub (x # es) h))"
    by (simp add: runHub_def x)
  with step_moves [OF p(1) Cons.prems(2), of e] show ?case
    unfolding x by (simp add: ledgerRun.step_run)
qed


lemma sample_plain: "plainSave (sampleEnv t new)"
  by (simp add: plainSave_def sampleEnv_def)




end
