(* ===== verification/AgentConn.thy ===== *)
theory AgentConn
  imports Transport Wire
begin

text \<open>
  One live connection of the agent (\<^verbatim>\<open>agent/internal/transport/transport.go\<close>): the queue that \<^verbatim>\<open>Send\<close>
  fills and the write loop empties, and the read loop that decodes incoming messages into the channel the
  daemon consumes. The goroutines interleave freely: a run is a list of their steps.
\<close>

subsection \<open>The state of a connection\<close>

definition framesCap :: nat where
  "framesCap = 64"

text \<open>
  \<open>cnSent\<close> and \<open>cnTaken\<close> record what was accepted by \<^verbatim>\<open>Send\<close> and what the daemon has taken;
  \<open>cnHeld\<close> is an envelope the read loop waits to put into the full channel.
\<close>

record conn =
  cnQueue :: "string list"
  cnWire :: "string list"
  cnHeld :: "Envelope option"
  cnFrames :: "Envelope list"
  cnClosed :: bool
  cnCancelled :: bool
  cnSent :: "string list"
  cnRead :: "Envelope list"
  cnTaken :: "Envelope list"

definition dialled :: conn where
  "dialled = \<lparr>cnQueue = [], cnWire = [], cnHeld = None, cnFrames = [], cnClosed = False, cnCancelled = False,
     cnSent = [], cnRead = [], cnTaken = []\<rparr>"

text \<open>\<^verbatim>\<open>Send\<close>: the marshalled frame goes into the queue, in place of the oldest when it is full.\<close>

definition sendBytes :: "bool \<Rightarrow> string \<Rightarrow> conn \<Rightarrow> bool \<times> conn" where
  "sendBytes pickDone b c =
     (case sendLoop (cnCancelled c) pickDone (cnQueue c) b of
        (q, ok) \<Rightarrow> (ok, c\<lparr>cnQueue := q, cnSent := (if ok then cnSent c @ [b] else cnSent c)\<rparr>))"

definition closeConn :: "conn \<Rightarrow> conn" where
  "closeConn c = c\<lparr>cnCancelled := True\<rparr>"

text \<open>One turn of the write loop; \<open>ok\<close>: the write succeeds within its ten seconds.\<close>

definition writeTurn :: "bool \<Rightarrow> conn \<Rightarrow> conn" where
  "writeTurn ok c =
     (if cnCancelled c then c
      else case cnQueue c of
          [] \<Rightarrow> c
        | b # q \<Rightarrow> (if ok then c\<lparr>cnQueue := q, cnWire := cnWire c @ [b]\<rparr> else c\<lparr>cnQueue := q, cnCancelled := True\<rparr>))"

text \<open>
  One turn of the read loop. A message that is not text or does not decode is skipped; with the channel
  full the loop waits, and ends when the connection is cancelled meanwhile.
\<close>

datatype incoming = ReadError | Message bool string

definition readTurn :: "incoming \<Rightarrow> conn \<Rightarrow> conn" where
  "readTurn m c =
     (if cnClosed c \<or> cnHeld c \<noteq> None then c
      else if cnCancelled c then c\<lparr>cnClosed := True\<rparr>
      else case m of
          ReadError \<Rightarrow> c\<lparr>cnCancelled := True, cnClosed := True\<rparr>
        | Message text data \<Rightarrow>
            (if \<not> text then c
             else case readEnvelope data of
                 None \<Rightarrow> c
               | Some e \<Rightarrow> c\<lparr>cnHeld := Some e, cnRead := cnRead c @ [e]\<rparr>))"

definition deliverTurn :: "bool \<Rightarrow> conn \<Rightarrow> conn" where
  "deliverTurn pickDone c =
     (case cnHeld c of
        None \<Rightarrow> c
      | Some e \<Rightarrow>
          (if length (cnFrames c) < framesCap \<and> \<not> (cnCancelled c \<and> pickDone)
           then c\<lparr>cnHeld := None, cnFrames := cnFrames c @ [e]\<rparr>
           else if cnCancelled c then c\<lparr>cnHeld := None, cnClosed := True\<rparr> else c))"

text \<open>\<^verbatim>\<open>consume\<close> takes the next frame; a closed channel still gives what is in it.\<close>

definition takeFrameOf :: "conn \<Rightarrow> Envelope option \<times> conn" where
  "takeFrameOf c = (case cnFrames c of [] \<Rightarrow> (None, c) | e # es \<Rightarrow> (Some e, c\<lparr>cnFrames := es, cnTaken := cnTaken c @ [e]\<rparr>))"

datatype connStep = DoSend bool string | DoWrite bool | DoRead incoming | DoDeliver bool | DoTake | DoClose

fun connNext :: "connStep \<Rightarrow> conn \<Rightarrow> conn" where
  "connNext (DoSend p b) c = snd (sendBytes p b c)"
| "connNext (DoWrite ok) c = writeTurn ok c"
| "connNext (DoRead m) c = readTurn m c"
| "connNext (DoDeliver p) c = deliverTurn p c"
| "connNext DoTake c = snd (takeFrameOf c)"
| "connNext DoClose c = closeConn c"

definition connRun :: "connStep list \<Rightarrow> conn \<Rightarrow> conn" where
  "connRun xs c = fold connNext xs c"

subsection \<open>In order, nothing twice\<close>

lemma sendLoop_drops:
  "length q \<le> sendCap \<Longrightarrow> sendLoop closed pick q b = (q', ok) \<Longrightarrow>
     length q' \<le> sendCap \<and> (\<exists>k. q' = drop k q @ (if ok then [b] else []))"
proof (induction closed pick q b rule: sendLoop.induct)
  case (1 closed pick q b)
  note u = sendLoop.simps [of closed pick q b]
  show ?case
  proof (cases "length q < sendCap \<and> \<not> (closed \<and> pick)")
    case True
    with "1.prems" u have "q' = q @ [b]" "ok" by auto
    with True show ?thesis by (auto intro: exI [of _ 0])
  next
    case False
    show ?thesis
    proof (cases closed)
      case True
      with False "1.prems" u have "q' = q" "\<not> ok" by auto
      with "1.prems" show ?thesis by (auto intro: exI [of _ 0])
    next
      case open_conn: False
      with False "1.prems"(2) have "sendLoop closed pick (drop 1 q) b = (q', ok)"
        unfolding u by simp
      from "1.IH" [OF False open_conn _ this] "1.prems"(1)
      have "length q' \<le> sendCap \<and> (\<exists>k. q' = drop k (drop 1 q) @ (if ok then [b] else []))" by simp
      then show ?thesis unfolding drop_drop by blast
    qed
  qed
qed

definition held :: "conn \<Rightarrow> Envelope list" where
  "held c = (case cnHeld c of None \<Rightarrow> [] | Some e \<Rightarrow> [e])"

text \<open>
  What is on the wire and in the queue are accepted sends in their order; what the daemon has taken and
  will take are the messages read, in their order, all of them while the connection lives.
\<close>

definition connOK :: "conn \<Rightarrow> bool" where
  "connOK c \<longleftrightarrow>
     length (cnQueue c) \<le> sendCap \<and> length (cnFrames c) \<le> framesCap
     \<and> subseq (cnWire c @ cnQueue c) (cnSent c)
     \<and> prefix (cnTaken c @ cnFrames c @ held c) (cnRead c)
     \<and> (\<not> cnCancelled c \<longrightarrow> cnTaken c @ cnFrames c @ held c = cnRead c)
     \<and> (cnClosed c \<longrightarrow> cnHeld c = None \<and> cnCancelled c)"

lemma sent_OK:
  assumes "connOK c"
  shows "connOK (snd (sendBytes p b c))"
proof -
  obtain q ok where l: "sendLoop (cnCancelled c) p (cnQueue c) b = (q, ok)"
    by (cases "sendLoop (cnCancelled c) p (cnQueue c) b")
  have "length (cnQueue c) \<le> sendCap" using assms by (simp add: connOK_def)
  from sendLoop_drops [OF this l] obtain k where
    k: "length q \<le> sendCap" "q = drop k (cnQueue c) @ (if ok then [b] else [])" by blast
  have "subseq (cnWire c @ drop k (cnQueue c)) (cnSent c)"
  proof (rule subseq_order.order_trans)
    show "subseq (cnWire c @ drop k (cnQueue c)) (cnWire c @ cnQueue c)"
      unfolding subseq_append' by (rule suffix_imp_subseq) (rule suffix_drop)
    show "subseq (cnWire c @ cnQueue c) (cnSent c)" using assms by (simp add: connOK_def)
  qed
  then have "subseq (cnWire c @ q) (if ok then cnSent c @ [b] else cnSent c)"
    unfolding k(2) by (cases ok) (simp_all flip: append_assoc)
  with assms k(1) l show ?thesis by (simp add: connOK_def sendBytes_def held_def)
qed

lemma subseq_without: "subseq (xs @ y # ys) zs \<Longrightarrow> subseq (xs @ ys) zs"
  by (rule subseq_order.order_trans [of _ "xs @ y # ys"]) (simp_all add: subseq_append' list_emb_Cons)

lemma step_OK: "connOK c \<Longrightarrow> connOK (connNext x c)"
proof (cases x)
  case (DoSend p b)
  then show "connOK c \<Longrightarrow> ?thesis" by (simp add: sent_OK)
next
  case (DoWrite ok)
  then show "connOK c \<Longrightarrow> ?thesis"
    by (cases "cnQueue c") (auto simp: writeTurn_def connOK_def held_def dest: subseq_without)
next
  case (DoRead m)
  then show "connOK c \<Longrightarrow> ?thesis"
    by (auto simp: readTurn_def connOK_def held_def split: incoming.split option.split)
next
  case (DoDeliver p)
  then show "connOK c \<Longrightarrow> ?thesis"
    by (auto simp: deliverTurn_def connOK_def held_def prefix_def split: option.split)
next
  case DoTake
  then show "connOK c \<Longrightarrow> ?thesis"
    by (auto simp: takeFrameOf_def connOK_def held_def split: list.split)
next
  case DoClose
  then show "connOK c \<Longrightarrow> ?thesis" by (auto simp: closeConn_def connOK_def held_def)
qed

lemma run_OK: "connOK c \<Longrightarrow> connOK (connRun xs c)"
  by (induction xs arbitrary: c) (simp_all add: connRun_def step_OK)

text \<open>A run in which every send finds room in the queue.\<close>

fun roomy :: "connStep list \<Rightarrow> conn \<Rightarrow> bool" where
  "roomy [] c \<longleftrightarrow> True"
| "roomy (x # xs) c \<longleftrightarrow> (case x of DoSend p b \<Rightarrow> length (cnQueue c) < sendCap | _ \<Rightarrow> True) \<and> roomy xs (connNext x c)"

lemma cancelled_stays: "cnCancelled c \<Longrightarrow> cnCancelled (connNext x c)"
  by (cases x) (auto simp: sendBytes_def writeTurn_def readTurn_def deliverTurn_def takeFrameOf_def closeConn_def
      split: prod.split option.split list.split incoming.split)

lemma step_exact:
  assumes "cnWire c @ cnQueue c = cnSent c" "\<not> cnCancelled (connNext x c)" "roomy [x] c"
  shows "cnWire (connNext x c) @ cnQueue (connNext x c) = cnSent (connNext x c)"
proof (cases x)
  case (DoSend p b)
  have "\<not> cnCancelled c" using assms(2) cancelled_stays by blast
  with DoSend assms(1,3) have "sendLoop (cnCancelled c) p (cnQueue c) b = (cnQueue c @ [b], True)"
    by (subst sendLoop.simps) simp
  with DoSend assms(1) show ?thesis by (simp add: sendBytes_def)
next
  case (DoWrite ok)
  with assms show ?thesis by (cases "cnQueue c") (auto simp: writeTurn_def split: if_splits)
qed (use assms in \<open>auto simp: readTurn_def deliverTurn_def takeFrameOf_def closeConn_def
      split: option.split list.split incoming.split\<close>)

lemma run_exact:
  "cnWire c @ cnQueue c = cnSent c \<Longrightarrow> \<not> cnCancelled (connRun xs c) \<Longrightarrow> roomy xs c \<Longrightarrow>
     cnWire (connRun xs c) @ cnQueue (connRun xs c) = cnSent (connRun xs c)"
proof (induction xs arbitrary: c)
  case (Cons x xs)
  have "cnCancelled (connNext x c) \<Longrightarrow> cnCancelled (connRun xs (connNext x c))"
    by (induction xs arbitrary: c x) (auto simp: connRun_def cancelled_stays)
  with Cons.prems have "\<not> cnCancelled (connNext x c)" by (auto simp: connRun_def)
  from step_exact [OF Cons.prems(1) this] Cons.prems Cons.IH [of "connNext x c"] show ?case
    by (simp add: connRun_def)
qed (simp add: connRun_def)

text \<open>C17: A connection keeps the order and invents nothing. However sending, writing, reading and consuming
  interleave on a new connection: what has been written and what waits are accepted sends in their
  order, none twice, at most 256 waiting; they are all of them when no send met a full queue and the
  connection lives; and the frames the daemon has taken are those the read messages carry, in order
  and from the first, the rest being at hand while the connection lives.\<close>

theorem connection_keeps_order:
  "let c = connRun xs dialled in
     length (cnQueue c) \<le> 256 \<and> subseq (cnWire c @ cnQueue c) (cnSent c)
     \<and> prefix (cnTaken c) (cnRead c)
     \<and> (\<not> cnCancelled c \<longrightarrow> cnTaken c @ cnFrames c @ held c = cnRead c)
     \<and> (\<not> cnCancelled c \<longrightarrow> roomy xs dialled \<longrightarrow> cnWire c @ cnQueue c = cnSent c)"
proof -
  have "connOK dialled" by (simp add: connOK_def dialled_def held_def framesCap_def sendCap_def)
  from run_OK [OF this, of xs] run_exact [of dialled xs] show ?thesis
    unfolding Let_def by (auto simp: connOK_def sendCap_def dialled_def dest: append_prefixD)
qed

theorem connection_keeps_order_witness:
  "let xs = [DoSend False ''a'', DoSend True ''b'', DoRead (Message True ''{\"t\":\"ping\"}''), DoWrite True, DoDeliver False, DoTake];
       c = connRun xs dialled
   in cnWire c = [''a''] \<and> cnWire c @ cnQueue c = cnSent c \<and> map envT (cnTaken c @ cnFrames c @ held c) = [''ping'']"
proof -
  let ?xs = "[DoSend False ''a'', DoSend True ''b'', DoRead (Message True ''{\"t\":\"ping\"}''), DoWrite True, DoDeliver False, DoTake]"
  let ?c = "connRun ?xs dialled"
  have w: "cnWire ?c = [''a'']" "map envT (cnRead ?c) = [''ping'']" "\<not> cnCancelled ?c" "roomy ?xs dialled" by code_simp+
  note k = connection_keeps_order [of ?xs, unfolded Let_def]
  from k w(3,4) have "cnTaken ?c @ cnFrames ?c @ held ?c = cnRead ?c" "cnWire ?c @ cnQueue ?c = cnSent ?c" by blast+
  with w(1,2) show ?thesis unfolding Let_def by metis
qed

end
