(* ===== verification/Collector.thy ===== *)
theory Collector
  imports Protocol Http
begin

text \<open>
  The metrics collector of the agent (\<^verbatim>\<open>agent/internal/collector/collector.go\<close>): the cache of process
  handles, the walk over a process tree, and the map of listening ports with its slower refresh. What
  the operating system answers while one sample is taken is a parameter; a handle is the process it was
  opened on, known by its pid and start time, with the number of CPU readings taken from it.
\<close>

subsection \<open>The operating system\<close>

record socket =
  soStatus :: string
  soPID :: int
  soType :: int
  soPort :: int

record 'f hostView =
  peStart :: "int \<Rightarrow> int option"
  peRunning :: "int \<Rightarrow> int \<Rightarrow> bool"
  peChildren :: "int \<Rightarrow> int list option"
  peCPU :: "int \<Rightarrow> nat \<Rightarrow> 'f option"
  peRSS :: "int \<Rightarrow> 64 word option"
  peSockets :: "socket list option"
  peNow :: int
  peHostCPU :: "'f list option"
  peMemory :: "('f \<times> int) option"
  peDisk :: "'f option"
  peNet :: "(int \<times> int) list option"

text \<open>A handle: the start time of its process and the number of CPU readings it has given.\<close>

type_synonym procHandle = "int \<times> nat"

record collector =
  coPorts :: "int \<Rightarrow> Port list"
  coPortsAt :: "int option"
  coProcs :: "int \<rightharpoonup> procHandle"

definition newCollector :: collector where
  "newCollector = \<lparr>coPorts = (\<lambda>_. []), coPortsAt = None, coProcs = Map.empty\<rparr>"

definition portCacheTTL :: int where
  "portCacheTTL = 60 * second"

subsection \<open>The host\<close>

definition HostSampleOf :: "'f arith \<Rightarrow> 'f hostView \<Rightarrow> 'f HostSample" where
  "HostSampleOf ar env =
     (let s = \<lparr>hsTS = peNow env div 1000000, hsCPUPct = arZero ar, hsMemPct = arZero ar, hsMemUsed = 0,
               hsDiskPct = arZero ar, hsNetSent = 0, hsNetRecv = 0\<rparr>;
          s = (case peHostCPU env of Some (p # _) \<Rightarrow> s\<lparr>hsCPUPct := p\<rparr> | _ \<Rightarrow> s);
          s = (case peMemory env of Some (pct, used) \<Rightarrow> s\<lparr>hsMemPct := pct, hsMemUsed := used\<rparr> | None \<Rightarrow> s);
          s = (case peDisk env of Some pct \<Rightarrow> s\<lparr>hsDiskPct := pct\<rparr> | None \<Rightarrow> s)
      in (case peNet env of Some ((sent, recv) # _) \<Rightarrow> s\<lparr>hsNetSent := sent, hsNetRecv := recv\<rparr> | _ \<Rightarrow> s))"

subsection \<open>Handles\<close>

text \<open>
  \<^verbatim>\<open>proc\<close>: a cached handle is used as long as its process runs; a handle whose process is gone is dropped
  and the pid opened anew. A new handle gives one reading at once, so that the next one is a difference.
\<close>

definition openProc :: "'f hostView \<Rightarrow> int \<Rightarrow> collector \<Rightarrow> bool \<times> collector" where
  "openProc env pid c =
     (case peStart env pid of
        None \<Rightarrow> (False, c)
      | Some start \<Rightarrow> (True, c\<lparr>coProcs := (coProcs c)(pid \<mapsto> (start, 1))\<rparr>))"

definition proc :: "'f hostView \<Rightarrow> int \<Rightarrow> collector \<Rightarrow> bool \<times> collector" where
  "proc env pid c =
     (case coProcs c pid of
        Some h \<Rightarrow> if peRunning env pid (fst h) then (True, c)
          else openProc env pid (c\<lparr>coProcs := (coProcs c)(pid := None)\<rparr>)
      | None \<Rightarrow> openProc env pid c)"

text \<open>
  \<^verbatim>\<open>tree\<close>: the processes of the tree below a pid, the root first. The recursion is bounded by the depth of
  the tree; \<open>None\<close> is a walk that has not ended within the fuel.
\<close>

fun tree :: "nat \<Rightarrow> 'f hostView \<Rightarrow> int \<Rightarrow> collector \<Rightarrow> (int list \<times> collector) option"
  and trees :: "nat \<Rightarrow> 'f hostView \<Rightarrow> int list \<Rightarrow> collector \<Rightarrow> (int list \<times> collector) option" where
  "tree 0 env pid c = None"
| "tree (Suc n) env pid c =
     (case proc env pid c of
        (False, c1) \<Rightarrow> Some ([], c1)
      | (True, c1) \<Rightarrow>
          (case peChildren env pid of
             None \<Rightarrow> Some ([pid], c1)
           | Some chs \<Rightarrow> map_option (apfst (Cons pid)) (trees n env chs c1)))"
| "trees n env [] c = Some ([], c)"
| "trees n env (ch # chs) c =
     (case tree n env ch c of
        None \<Rightarrow> None
      | Some (ps, c1) \<Rightarrow> map_option (apfst (append ps)) (trees n env chs c1))"

subsection \<open>Ports\<close>

definition portOf :: "socket \<Rightarrow> Port" where
  "portOf s = \<lparr>poProto = (if soType s = 2 then ''udp'' else ''tcp''), poPort = soPort s\<rparr>"

definition refreshPorts :: "'f hostView \<Rightarrow> collector \<Rightarrow> collector" where
  "refreshPorts env c0 =
     (let c = c0\<lparr>coPortsAt := Some (peNow env)\<rparr>
      in case peSockets env of
           None \<Rightarrow> c
         | Some ss \<Rightarrow>
             c\<lparr>coPorts := fold (\<lambda>s m. if soStatus s \<noteq> ''LISTEN'' \<or> soPID s = 0 then m
                                     else m(soPID s := m (soPID s) @ [portOf s])) ss (\<lambda>_. [])\<rparr>)"

text \<open>The zero time is longer ago than any span.\<close>

definition portsStale :: "'f hostView \<Rightarrow> collector \<Rightarrow> bool" where
  "portsStale env c = (case coPortsAt c of None \<Rightarrow> True | Some t \<Rightarrow> portCacheTTL < peNow env - t)"

definition listenPorts :: "nat \<Rightarrow> 'f hostView \<Rightarrow> int \<Rightarrow> collector \<Rightarrow> (Port list \<times> collector) option" where
  "listenPorts n env pid c =
     (let c1 = (if portsStale env c then refreshPorts env c else c)
      in map_option (\<lambda>(ps, c2). (concat (map (coPorts c2) ps), c2)) (tree n env pid c1))"

subsection \<open>Samples of an application\<close>

text \<open>One reading of each process: the CPU share since its last reading, and the resident memory.\<close>

definition readProc :: "'f arith \<Rightarrow> 'f hostView \<Rightarrow> int \<Rightarrow> ('f \<times> 64 word) \<times> collector \<Rightarrow> ('f \<times> 64 word) \<times> collector" where
  "readProc ar env pid acc =
     (case acc of ((cpu, rss), c) \<Rightarrow>
        (let k = (case coProcs c pid of None \<Rightarrow> 0 | Some h \<Rightarrow> snd h);
             c1 = c\<lparr>coProcs := (coProcs c)(pid := map_option (apsnd Suc) (coProcs c pid))\<rparr>
         in ((case peCPU env pid k of None \<Rightarrow> cpu | Some p \<Rightarrow> arAdd ar cpu p,
              case peRSS env pid of None \<Rightarrow> rss | Some m \<Rightarrow> rss + m), c1)))"

definition AppSampleOf :: "'f arith \<Rightarrow> nat \<Rightarrow> 'f hostView \<Rightarrow> string \<Rightarrow> int \<Rightarrow> collector \<Rightarrow> ('f AppSample \<times> collector) option" where
  "AppSampleOf ar n env appID pid c =
     (case tree n env pid c of
        None \<Rightarrow> None
      | Some (ps, c1) \<Rightarrow>
          (case fold (readProc ar env) ps ((arZero ar, 0), c1) of
             ((cpu, rss), c2) \<Rightarrow>
               map_option (\<lambda>(ports, c3).
                 (\<lparr>smTS = peNow env div 1000000, smAppID = appID, smCPUPct = cpu, smMemRSS = uint rss, smPorts = ports\<rparr>, c3))
                 (listenPorts n env pid c2)))"

subsection \<open>The process tree\<close>

inductive inTree :: "'f hostView \<Rightarrow> int \<Rightarrow> int \<Rightarrow> bool" for env r where
  root: "peStart env r \<noteq> None \<Longrightarrow> inTree env r r"
| child: "inTree env r p \<Longrightarrow> peChildren env p = Some chs \<Longrightarrow> q \<in> set chs \<Longrightarrow> peStart env q \<noteq> None \<Longrightarrow> inTree env r q"

text \<open>
  A snapshot of processes: a running process can be opened, a process has one parent, and is listed once
  and less deep than it (\<open>d\<close> is the height of the tree below a process).
\<close>

definition lawful :: "(int \<Rightarrow> int) \<Rightarrow> (int \<Rightarrow> nat) \<Rightarrow> 'f hostView \<Rightarrow> bool" where
  "lawful par d env \<longleftrightarrow>
     (\<forall>p s. peRunning env p s \<longrightarrow> peStart env p \<noteq> None)
     \<and> (\<forall>p chs. peChildren env p = Some chs \<longrightarrow> distinct chs \<and> (\<forall>q \<in> set chs. par q = p \<and> d q < d p))"

lemma lawful_child:
  "lawful par d env \<Longrightarrow> peChildren env p = Some chs \<Longrightarrow> q \<in> set chs \<Longrightarrow> par q = p \<and> d q < d p"
  "lawful par d env \<Longrightarrow> peChildren env p = Some chs \<Longrightarrow> distinct chs"
  by (auto simp: lawful_def)

lemma inTree_depth: "inTree env r q \<Longrightarrow> lawful par d env \<Longrightarrow> d q \<le> d r"
  by (induction rule: inTree.induct) (auto dest: lawful_child(1))

lemma inTree_start: "inTree env r q \<Longrightarrow> peStart env q \<noteq> None \<and> peStart env r \<noteq> None"
  by (induction rule: inTree.induct) auto

lemma siblings_apart:
  assumes l: "lawful par d env" "peChildren env p = Some chs" "a \<in> set chs" "b \<in> set chs" "a \<noteq> b"
  shows "inTree env a x \<Longrightarrow> \<not> inTree env b x"
proof (induction rule: inTree.induct)
  case root
  show ?case
  proof
    assume "inTree env b a"
    then obtain p' chs' where "inTree env b p'" "peChildren env p' = Some chs'" "a \<in> set chs'"
      using l(5) by (cases rule: inTree.cases) auto
    with l have "inTree env b p" using lawful_child(1) by metis
    with inTree_depth [OF this l(1)] lawful_child(1) [OF l(1,2,4)] show False by simp
  qed
next
  case (child q qs x)
  show ?case
  proof
    assume "inTree env b x"
    then consider "x = b" | p' chs' where "inTree env b p'" "peChildren env p' = Some chs'" "x \<in> set chs'"
      by (cases rule: inTree.cases) auto
    then show False
    proof cases
      case 1
      with child.hyps l have "q = p" using lawful_child(1) by metis
      with inTree_depth [OF child.hyps(1) l(1)] lawful_child(1) [OF l(1,2,3)] show False by simp
    next
      case 2
      with child.hyps l(1) have "p' = q" using lawful_child(1) by metis
      with 2 child.IH show False by simp
    qed
  qed
qed

lemma inTree_step:
  "inTree env r x \<longleftrightarrow> peStart env r \<noteq> None \<and>
     (x = r \<or> (\<exists>chs ch. peChildren env r = Some chs \<and> ch \<in> set chs \<and> inTree env ch x))"
proof
  show "inTree env r x \<Longrightarrow> peStart env r \<noteq> None \<and>
     (x = r \<or> (\<exists>chs ch. peChildren env r = Some chs \<and> ch \<in> set chs \<and> inTree env ch x))"
    by (induction rule: inTree.induct) (blast intro: inTree.intros)+
next
  assume r: "peStart env r \<noteq> None \<and>
     (x = r \<or> (\<exists>chs ch. peChildren env r = Some chs \<and> ch \<in> set chs \<and> inTree env ch x))"
  have "inTree env ch x \<Longrightarrow> peChildren env r = Some chs \<Longrightarrow> ch \<in> set chs \<Longrightarrow> inTree env r x" for ch chs
  proof (induction rule: inTree.induct)
    case root
    with r show ?case by (blast intro: inTree.intros)
  next
    case (child p qs q)
    then show ?case by (blast intro: inTree.intros)
  qed
  with r show "inTree env r x" by (blast intro: inTree.root)
qed


lemma proc_opens: "lawful par d env \<Longrightarrow> fst (proc env pid c) \<longleftrightarrow> peStart env pid \<noteq> None"
  by (auto simp: proc_def openProc_def lawful_def split: option.split)

definition walked :: "'f hostView \<Rightarrow> int set \<Rightarrow> (int list \<times> collector) option \<Rightarrow> bool" where
  "walked env S res \<longleftrightarrow> (\<exists>ps c. res = Some (ps, c) \<and> distinct ps \<and> set ps = S)"

lemma trees_whole:
  assumes l: "lawful par d env" "peChildren env up = Some sibs"
    and each: "\<And>ch c. ch \<in> set sibs \<Longrightarrow> walked env {q. inTree env ch q} (tree n env ch c)"
  shows "set chs \<subseteq> set sibs \<Longrightarrow> distinct chs \<Longrightarrow> walked env {q. \<exists>ch \<in> set chs. inTree env ch q} (trees n env chs c)"
proof (induction chs arbitrary: c)
  case (Cons ch chs)
  from each [of ch c] Cons.prems obtain ps c1 where
    t: "tree n env ch c = Some (ps, c1)" "distinct ps" "set ps = {q. inTree env ch q}" by (auto simp: walked_def)
  from Cons.IH [of c1] Cons.prems obtain qs c2 where
    r: "trees n env chs c1 = Some (qs, c2)" "distinct qs" "set qs = {q. \<exists>ch \<in> set chs. inTree env ch q}"
    by (auto simp: walked_def)
  have "set ps \<inter> set qs = {}"
  proof -
    have False if x: "inTree env ch x" "inTree env b x" "b \<in> set chs" for x b
    proof -
      from Cons.prems x(3) have "ch \<in> set sibs" "b \<in> set sibs" "ch \<noteq> b" by auto
      from siblings_apart [OF l this x(1)] x(2) show False by simp
    qed
    with t(3) r(3) show ?thesis by blast
  qed
  with t r have "distinct (ps @ qs) \<and> set (ps @ qs) = {q. \<exists>ch \<in> set (ch # chs). inTree env ch q}" by auto
  with t(1) r(1) show ?case unfolding walked_def by (intro exI [of _ "ps @ qs"] exI [of _ c2]) simp
qed (simp add: walked_def)

text \<open>The walk ends within the height of the tree and meets every process of it exactly once.\<close>

lemma tree_whole:
  assumes l: "lawful par d env"
  shows "d pid < n \<Longrightarrow> walked env {q. inTree env pid q} (tree n env pid c)"
proof (induction n arbitrary: pid c)
  case (Suc n)
  obtain ok c1 where p: "proc env pid c = (ok, c1)" by (cases "proc env pid c")
  with proc_opens [OF l, of pid c] have ok: "ok \<longleftrightarrow> peStart env pid \<noteq> None" by simp
  show ?case
  proof (cases ok)
    case False
    with ok p show ?thesis by (auto simp: walked_def inTree_step [of env pid])
  next
    case started: True
    show ?thesis
    proof (cases "peChildren env pid")
      case None
      with started ok p show ?thesis by (auto simp: walked_def inTree_step [of env pid])
    next
      case (Some chs)
      have "walked env {q. inTree env ch q} (tree n env ch c')" if "ch \<in> set chs" for ch c'
        using Suc.IH lawful_child(1) [OF l Some that] Suc.prems by simp
      from trees_whole [OF l Some this, of chs c1] lawful_child(2) [OF l Some]
      obtain qs c2 where q: "trees n env chs c1 = Some (qs, c2)" "distinct qs"
        "set qs = {q. \<exists>ch \<in> set chs. inTree env ch q}" by (auto simp: walked_def)
      have "pid \<notin> set qs"
        using inTree_depth [OF _ l] lawful_child(1) [OF l Some] by (auto simp: q(3) not_le [symmetric])
      moreover have "insert pid (set qs) = {q. inTree env pid q}"
        using started ok Some by (auto simp: q(3) inTree_step [of env pid])
      ultimately show ?thesis using q(1,2) p started Some by (auto simp: walked_def)
    qed
  qed
qed simp

text \<open>Every handle has been read before it counts, so what it gives is the share since its last reading.\<close>

definition primed :: "collector \<Rightarrow> bool" where
  "primed c \<longleftrightarrow> (\<forall>p h. coProcs c p = Some h \<longrightarrow> 1 \<le> snd h)"

lemma proc_primed: "primed c \<Longrightarrow> primed (snd (proc env pid c))"
  by (auto simp: proc_def openProc_def primed_def split: option.split)

lemma tree_primed:
  "tree n env pid c = Some (ps, c') \<Longrightarrow> primed c \<Longrightarrow> primed c'"
  "trees n env chs c = Some (ps, c') \<Longrightarrow> primed c \<Longrightarrow> primed c'"
proof (induction n env pid c and n env chs c arbitrary: ps c' and ps c' rule: tree_trees.induct)
  case (2 n env pid c)
  then show ?case using proc_primed [of c env pid]
    by (auto split: prod.splits bool.splits option.splits)
next
  case (4 n env ch chs c)
  then show ?case by (auto split: option.splits)
qed simp_all

definition portState :: "collector \<Rightarrow> (int \<Rightarrow> Port list) \<times> int option" where
  "portState c = (coPorts c, coPortsAt c)"

lemma proc_ports: "portState (snd (proc env pid c)) = portState c"
  by (simp add: proc_def openProc_def portState_def split: option.split)

lemma tree_ports:
  "tree n env pid c = Some (ps, c') \<Longrightarrow> portState c' = portState c"
  "trees n env chs c = Some (ps, c') \<Longrightarrow> portState c' = portState c"
proof (induction n env pid c and n env chs c arbitrary: ps c' and ps c' rule: tree_trees.induct)
  case (2 n env pid c)
  then show ?case using proc_ports [of env pid c]
    by (auto split: prod.splits bool.splits option.splits)
next
  case (4 n env ch chs c)
  then show ?case by (auto split: option.splits)
qed simp_all

definition rssOf :: "'f hostView \<Rightarrow> int \<Rightarrow> 64 word" where
  "rssOf env q = (case peRSS env q of None \<Rightarrow> 0 | Some m \<Rightarrow> m)"

lemma read_all:
  "snd (fst (fold (readProc ar env) ps acc)) = snd (fst acc) + sum_list (map (rssOf env) ps)
   \<and> coPorts (snd (fold (readProc ar env) ps acc)) = coPorts (snd acc)
   \<and> coPortsAt (snd (fold (readProc ar env) ps acc)) = coPortsAt (snd acc)
   \<and> (primed (snd acc) \<longrightarrow> primed (snd (fold (readProc ar env) ps acc)))"
proof (induction ps arbitrary: acc)
  case (Cons p ps)
  obtain cpu rss c where acc: "acc = ((cpu, rss), c)" by (metis prod.collapse)
  have "snd (fst (readProc ar env p acc)) = rss + rssOf env p"
    "coPorts (snd (readProc ar env p acc)) = coPorts c" "coPortsAt (snd (readProc ar env p acc)) = coPortsAt c"
    by (simp_all add: readProc_def acc Let_def rssOf_def split: option.split)
  moreover have "primed c \<Longrightarrow> primed (snd (readProc ar env p acc))"
    by (auto simp: readProc_def acc Let_def primed_def)
  ultimately show ?case using Cons.IH [of "readProc ar env p acc"] by (simp add: acc)
qed simp

lemma listenPorts_known:
  assumes "lawful par d env" "d pid < n" "primed c"
  shows "\<exists>ports c'. listenPorts n env pid c = Some (ports, c') \<and> primed c'
    \<and> set ports = (\<Union>q \<in> {q. inTree env pid q}. set (coPorts c' q))
    \<and> (\<exists>t. coPortsAt c' = Some t \<and> peNow env - t \<le> portCacheTTL)"
proof -
  define c1 where "c1 = (if portsStale env c then refreshPorts env c else c)"
  obtain ps c2 where t: "tree n env pid c1 = Some (ps, c2)" "set ps = {q. inTree env pid q}"
    using tree_whole [OF assms(1,2), of c1] by (auto simp: walked_def)
  have "primed c1" using assms(3) by (simp add: c1_def primed_def refreshPorts_def Let_def split: option.split)
  with tree_primed(1) [OF t(1)] have p: "primed c2" by simp
  have "\<exists>t. coPortsAt c1 = Some t \<and> peNow env - t \<le> portCacheTTL"
  proof (cases "portsStale env c")
    case True
    have "coPortsAt (refreshPorts env c) = Some (peNow env)"
      by (simp add: refreshPorts_def Let_def split: option.split)
    with True show ?thesis by (simp add: c1_def portCacheTTL_def second_def)
  next
    case False
    then show ?thesis by (cases "coPortsAt c") (simp_all add: c1_def portsStale_def)
  qed
  with tree_ports(1) [OF t(1)] t p show ?thesis by (simp add: listenPorts_def c1_def [symmetric] portState_def)
qed


text \<open>What the loop over all applications needs of one sample.\<close>

lemma sample_primed:
  assumes "lawful par d env" "d pid < n" "primed c"
  shows "\<exists>s c'. AppSampleOf ar n env appID pid c = Some (s, c') \<and> smAppID s = appID \<and> primed c'"
proof -
  obtain ps c1 where t: "tree n env pid c = Some (ps, c1)"
    using tree_whole [OF assms(1,2), of c] by (auto simp: walked_def)
  obtain cpu rss c2 where f: "fold (readProc ar env) ps ((arZero ar, 0), c1) = ((cpu, rss), c2)"
    by (metis prod.collapse)
  from read_all [of ar env ps "((arZero ar, 0), c1)"] f tree_primed(1) [OF t assms(3)] have "primed c2" by simp
  from listenPorts_known [OF assms(1,2) this] t f show ?thesis by (auto simp: AppSampleOf_def)
qed

text \<open>A shell with two children, one of which listens, beside a stranger.\<close>

definition sampleProcs :: "int hostView" where
  "sampleProcs = \<lparr>peStart = (\<lambda>p. if p \<in> {10, 11, 12, 99} then Some 1 else None), peRunning = (\<lambda>p s. p \<in> {10, 11, 12, 99} \<and> s = 1),
     peChildren = (\<lambda>p. if p = 10 then Some [11, 12] else Some []), peCPU = (\<lambda>p k. Some 3), peRSS = (\<lambda>p. Some 100),
     peSockets = Some [\<lparr>soStatus = ''LISTEN'', soPID = 12, soType = 1, soPort = 8080\<rparr>, \<lparr>soStatus = ''LISTEN'', soPID = 99, soType = 1, soPort = 22\<rparr>],
     peNow = 5, peHostCPU = None, peMemory = None, peDisk = None, peNet = None\<rparr>"

definition intArith :: "int arith" where
  "intArith = \<lparr>arZero = 0, arAdd = (+), arSub = (-), arMul = (*), arDiv = (div), arPos = (\<lambda>x. 0 < x),
     arOfWord = uint, arOfInt = id\<rparr>"


end
