(* ===== verification/AgentLoops.thy ===== *)
theory AgentLoops
  imports Collector Docker AgentBuffers AgentControl AgentStore
begin

text \<open>
  The periodic loops of the daemon (\<^verbatim>\<open>agent/internal/daemon/loops.go\<close>): one turn of the metrics loop and
  one of the spool loop, put together from the collector, the container client, the buffers and the
  spool. \<open>order\<close> and \<open>dorder\<close> are the orders in which Go walks its maps.
\<close>

subsection \<open>The metrics loop\<close>

definition running :: "string list \<Rightarrow> daemon \<Rightarrow> (string \<times> int) list" where
  "running order d =
     List.map_filter (\<lambda>i. if procAlive d i then map_option (\<lambda>p. (i, prPID p)) (dProcs d i) else None) order"

fun sampleApps :: "'f arith \<Rightarrow> nat \<Rightarrow> 'f hostView \<Rightarrow> (string \<times> int) list \<Rightarrow> collector \<Rightarrow> ('f AppSample list \<times> collector) option" where
  "sampleApps ar n env [] c = Some ([], c)"
| "sampleApps ar n env ((i, pid) # rs) c =
     (case AppSampleOf ar n env i pid c of
        None \<Rightarrow> None
      | Some (s, c1) \<Rightarrow> map_option (apfst (Cons s)) (sampleApps ar n env rs c1))"

definition metricsBatchOf :: "'f arith \<Rightarrow> nat \<Rightarrow> 'f hostView \<Rightarrow> dockerEnv \<Rightarrow> string list \<Rightarrow> string list \<Rightarrow> daemon \<Rightarrow> collector
    \<Rightarrow> ('f MetricsBatch \<times> collector) option" where
  "metricsBatchOf ar n env denv order dorder d c =
     (let host = HostSampleOf ar env
      in map_option (\<lambda>(apps, c1).
           (\<lparr>mbHost = [host], mbApps = apps @ dockerAppSamples ar denv (hsTS host) dorder d\<rparr>, c1))
           (sampleApps ar n env (running order d) c))"

definition metricsTick :: "'f arith \<Rightarrow> nat \<Rightarrow> 'f hostView \<Rightarrow> dockerEnv \<Rightarrow> string list \<Rightarrow> string list \<Rightarrow> daemon
    \<Rightarrow> collector \<times> 'f metricsState \<times> proxyState \<Rightarrow> (collector \<times> 'f metricsState \<times> proxyState) option" where
  "metricsTick ar n env denv order dorder d s =
     (case s of (c, ms, px) \<Rightarrow>
       map_option (\<lambda>(batch, c1). (c1, sendMetrics batch ms, flushProxyRows px))
         (metricsBatchOf ar n env denv order dorder d c))"

text \<open>A turn over a lawful snapshot ends, with one sample for each running application.\<close>

lemma sampleApps_each:
  assumes "lawful par d env" "\<forall>x \<in> set rs. d (snd x) < n" "primed c"
  shows "\<exists>ss c'. sampleApps ar n env rs c = Some (ss, c') \<and> map smAppID ss = map fst rs \<and> primed c'"
  using assms(2,3)
proof (induction rs arbitrary: c)
  case (Cons r rs)
  obtain i pid where r: "r = (i, pid)" by (cases r)
  with Cons.prems have "d pid < n" by simp
  from sample_primed [OF assms(1) this Cons.prems(2), of ar i] obtain s c1 where
    s: "AppSampleOf ar n env i pid c = Some (s, c1)" "smAppID s = i" "primed c1" by blast
  from Cons.IH [OF _ s(3)] Cons.prems(1) obtain ss c' where
    "sampleApps ar n env rs c1 = Some (ss, c')" "map smAppID ss = map fst rs" "primed c'" by auto
  with r s show ?case by simp
qed simp

lemma metrics_tick_ends:
  assumes "lawful par dp env" "\<forall>x \<in> set (running order d). dp (snd x) < n" "primed c"
  shows "\<exists>batch c'. metricsBatchOf ar n env denv order dorder d c = Some (batch, c')
    \<and> length (mbHost batch) = 1 \<and> prefix (map fst (running order d)) (map smAppID (mbApps batch))
    \<and> metricsTick ar n env denv order dorder d (c, ms, px) = Some (c', sendMetrics batch ms, flushProxyRows px)"
proof -
  from sampleApps_each [OF assms] obtain ss c' where
    "sampleApps ar n env (running order d) c = Some (ss, c')" "map smAppID ss = map fst (running order d)" by blast
  then show ?thesis by (auto simp: metricsTick_def metricsBatchOf_def Let_def)
qed

subsection \<open>The spool loop\<close>

text \<open>Every operation found is applied, in the order of the files; an unreadable directory is tried again.\<close>

definition spoolTick :: "(AppDefinition \<Rightarrow> string) \<Rightarrow> (string \<Rightarrow> SpoolOp option) \<Rightarrow> bool \<Rightarrow> spool \<times> daemon \<Rightarrow> spool \<times> daemon" where
  "spoolTick hashf dec readable s =
     (if \<not> readable then s
      else case Drain dec (fst s) of (ops, dir) \<Rightarrow> (dir, fold (applySpoolOp hashf) ops (snd s)))"

end
