(* ===== verification/ProcWindows.thy ===== *)
theory ProcWindows
  imports Supervisor
begin

text \<open>
  Process trees on Windows (\<^verbatim>\<open>agent/internal/supervisor/proc_windows.go\<close>): the table of job objects, by
  which a tree is killed and asked whether it lives. The system calls are parameters; the state says
  which handles are open, so that what is closed, kept and leaked can be stated.
\<close>

subsection \<open>The job table\<close>

datatype winCall = TerminateJob nat | TaskKill int

record winState =
  wsJobs :: "int \<rightharpoonup> nat"
  wsOpen :: "nat list"
  wsCalls :: "winCall list"

definition openHandle :: "nat \<Rightarrow> winState \<Rightarrow> winState" where
  "openHandle h s = s\<lparr>wsOpen := wsOpen s @ [h]\<rparr>"

definition CloseHandle :: "nat \<Rightarrow> winState \<Rightarrow> winState" where
  "CloseHandle h s = s\<lparr>wsOpen := remove1 h (wsOpen s)\<rparr>"

text \<open>What the calls of \<^verbatim>\<open>attachTree\<close> answer: the job, the limit set, the process, the assignment.\<close>

record attachReply =
  atJob :: "nat option"
  atLimit :: bool
  atProc :: "nat option"
  atAssign :: bool

definition attachTree :: "attachReply \<Rightarrow> int \<Rightarrow> winState \<Rightarrow> winState" where
  "attachTree r pid s0 =
     (case atJob r of
        None \<Rightarrow> s0
      | Some job \<Rightarrow>
          (let s = openHandle job s0
           in if \<not> atLimit r then CloseHandle job s
              else case atProc r of
                  None \<Rightarrow> CloseHandle job s
                | Some p \<Rightarrow>
                    (let s1 = openHandle p s
                     in CloseHandle p
                          (if \<not> atAssign r then CloseHandle job s1
                           else s1\<lparr>wsJobs := (wsJobs s1)(pid \<mapsto> job)\<rparr>))))"

definition jobFor :: "int \<Rightarrow> winState \<Rightarrow> nat option" where
  "jobFor pid s = wsJobs s pid"

definition killTreeW :: "string option \<Rightarrow> int \<Rightarrow> winState \<Rightarrow> string option \<times> winState" where
  "killTreeW err pid s =
     (case jobFor pid s of
        Some job \<Rightarrow> (err, s\<lparr>wsCalls := wsCalls s @ [TerminateJob job]\<rparr>)
      | None \<Rightarrow> (err, s\<lparr>wsCalls := wsCalls s @ [TaskKill pid]\<rparr>))"

definition signalTreeW :: "string option \<Rightarrow> int \<Rightarrow> string \<Rightarrow> winState \<Rightarrow> string option \<times> winState" where
  "signalTreeW err pid sig s = killTreeW err pid s"

text \<open>
  The answers to one liveness probe: the active processes of a job (\<open>None\<close>: the query fails) and the exit
  code of a process (\<open>None\<close>: it cannot be opened, \<open>Some None\<close>: its code cannot be read).
\<close>

record winProbe =
  wpActive :: "nat \<Rightarrow> nat option"
  wpExit :: "int \<Rightarrow> int option option"

definition STILL_ACTIVE :: int where
  "STILL_ACTIVE = 259"

definition rootAlive :: "winProbe \<Rightarrow> int \<Rightarrow> bool" where
  "rootAlive p pid = (case wpExit p pid of None \<Rightarrow> False | Some None \<Rightarrow> False | Some (Some code) \<Rightarrow> code = STILL_ACTIVE)"

definition treeAliveW :: "winProbe \<Rightarrow> int \<Rightarrow> winState \<Rightarrow> bool" where
  "treeAliveW p pid s =
     (case jobFor pid s of
        None \<Rightarrow> rootAlive p pid
      | Some job \<Rightarrow> (case wpActive p job of Some n \<Rightarrow> n > 0 | None \<Rightarrow> rootAlive p pid))"

definition releaseJob :: "int \<Rightarrow> winState \<Rightarrow> winState" where
  "releaseJob pid s =
     (case wsJobs s pid of
        None \<Rightarrow> s
      | Some h \<Rightarrow> (CloseHandle h s)\<lparr>wsJobs := (wsJobs s)(pid := None)\<rparr>)"

text \<open>The wait polls like the one of the unix build, and releases the job when the tree is gone.\<close>

record winTrace =
  wtProbe :: "nat \<Rightarrow> winProbe"
  wtClock :: "nat \<Rightarrow> int"

definition traceOf :: "winTrace \<Rightarrow> int \<Rightarrow> winState \<Rightarrow> osTrace" where
  "traceOf tr pid s = \<lparr>trProbe = (\<lambda>i. treeAliveW (wtProbe tr i) pid s), trClock = wtClock tr\<rparr>"

definition waitTreeGoneW :: "nat \<Rightarrow> winTrace \<Rightarrow> int \<Rightarrow> int \<Rightarrow> cursor \<Rightarrow> winState \<Rightarrow> (bool \<times> cursor \<times> winState) option" where
  "waitTreeGoneW fuel tr pid timeout c s =
     (case waitTreeGone fuel (traceOf tr pid s) timeout c of
        None \<Rightarrow> None
      | Some (True, c1) \<Rightarrow> Some (True, c1, releaseJob pid s)
      | Some (False, c1) \<Rightarrow> Some (False, c1, s))"

subsection \<open>Stopping\<close>

text \<open>\<^verbatim>\<open>Proc.Stop\<close> on this build; \<open>err1\<close> and \<open>err2\<close> are what the two kills report.\<close>

definition stopTailW :: "nat \<Rightarrow> winTrace \<Rightarrow> int \<Rightarrow> string option \<Rightarrow> cursor \<Rightarrow> winState
    \<Rightarrow> (string option \<times> cursor \<times> winState) option" where
  "stopTailW fuel tr pid err2 c s0 =
     (case killTreeW err2 pid s0 of (e, s) \<Rightarrow>
       (let wait = (\<lambda>c. case waitTreeGoneW fuel tr pid (5 * second) c s of
                None \<Rightarrow> None
              | Some (True, c1, s1) \<Rightarrow> Some (None, c1, s1)
              | Some (False, c1, s1) \<Rightarrow> Some (Some (''process group '' @ showInt pid @ '' survived SIGKILL''), c1, s1))
        in case e of
             None \<Rightarrow> wait c
           | Some msg \<Rightarrow> (case probe (traceOf tr pid s) c of (alive, c1) \<Rightarrow>
               if alive then Some (Some (''SIGKILL escalation failed: '' @ msg), c1, s) else wait c1)))"

definition StopW :: "nat \<Rightarrow> winTrace \<Rightarrow> string option \<Rightarrow> string option \<Rightarrow> Proc \<Rightarrow> cursor \<Rightarrow> winState
    \<Rightarrow> (string option \<times> cursor \<times> winState) option" where
  "StopW fuel tr err1 err2 p c s0 =
     (let (timeout, sigName) = stopParams (prDef p); pid = prPID p
      in case signalTreeW err1 pid (stopSignal sigName) s0 of
           (Some e, s) \<Rightarrow> (case probe (traceOf tr pid s) c of (alive, c1) \<Rightarrow>
               if \<not> alive then Some (None, c1, s) else Some (Some e, c1, s))
         | (None, s) \<Rightarrow> (case waitTreeGoneW fuel tr pid timeout c s of
               None \<Rightarrow> None
             | Some (True, c1, s1) \<Rightarrow> Some (None, c1, s1)
             | Some (False, c1, s1) \<Rightarrow> stopTailW fuel tr pid err2 c1 s1))"

subsection \<open>Handles\<close>

text \<open>The open handles are exactly those of the table, each kept for one tree.\<close>

definition handlesOK :: "winState \<Rightarrow> bool" where
  "handlesOK s \<longleftrightarrow> distinct (wsOpen s) \<and> set (wsOpen s) = ran (wsJobs s) \<and> inj_on (wsJobs s) (dom (wsJobs s))"

lemma attach_keeps:
  assumes "handlesOK s" "wsJobs s pid = None"
    and "\<And>j. atJob r = Some j \<Longrightarrow> j \<notin> set (wsOpen s)" "\<And>h. atProc r = Some h \<Longrightarrow> h \<notin> set (wsOpen s) \<and> atJob r \<noteq> Some h"
  shows "handlesOK (attachTree r pid s)"
proof (cases "atJob r")
  case (Some j)
  with assms(3) have j: "j \<notin> set (wsOpen s)" by simp
  have close: "CloseHandle j (openHandle j s) = s"
    using j by (simp add: CloseHandle_def openHandle_def remove1_append)
  show ?thesis
  proof (cases "atLimit r \<and> atProc r \<noteq> None")
    case False
    with Some close assms(1) show ?thesis by (auto simp: attachTree_def Let_def split: option.split)
  next
    case True
    then obtain h where h: "atProc r = Some h" by auto
    with assms(4) Some have hj: "h \<notin> set (wsOpen s)" "h \<noteq> j" by auto
    show ?thesis
    proof (cases "atAssign r")
      case False
      have "CloseHandle h (CloseHandle j (openHandle h (openHandle j s))) = s"
        using j hj by (simp add: CloseHandle_def openHandle_def remove1_append)
      with Some True h False assms(1) show ?thesis by (simp add: attachTree_def Let_def)
    next
      case assigned: True
      have ran: "ran ((wsJobs s)(pid \<mapsto> j)) = insert j (ran (wsJobs s))"
        using assms(2) by simp
      have "inj_on ((wsJobs s)(pid \<mapsto> j)) (dom ((wsJobs s)(pid \<mapsto> j)))"
        using assms(1) j by (auto simp: handlesOK_def inj_on_def ran_def dom_def)
      moreover have "wsOpen (attachTree r pid s) = wsOpen s @ [j]" "wsJobs (attachTree r pid s) = (wsJobs s)(pid \<mapsto> j)"
        using Some True h assigned hj by (simp_all add: attachTree_def Let_def CloseHandle_def openHandle_def remove1_append)
      ultimately show ?thesis using assms(1) j ran by (simp add: handlesOK_def)
    qed
  qed
qed (simp add: attachTree_def assms(1))

lemma release_keeps:
  assumes "handlesOK s"
  shows "handlesOK (releaseJob pid s)"
proof (cases "wsJobs s pid")
  case (Some h)
  have "ran (wsJobs s) = insert h (ran ((wsJobs s)(pid := None)))"
    using Some by (auto simp: ran_def) (metis option.inject)
  moreover have "h \<notin> ran ((wsJobs s)(pid := None))"
  proof
    assume "h \<in> ran ((wsJobs s)(pid := None))"
    then obtain k where k: "k \<noteq> pid" "wsJobs s k = Some h" by (auto simp: ran_def split: if_splits)
    have "inj_on (wsJobs s) (dom (wsJobs s))" using assms by (simp add: handlesOK_def)
    from inj_onD [OF this, of k pid] k Some show False by auto
  qed
  ultimately have "ran ((wsJobs s)(pid := None)) = ran (wsJobs s) - {h}" by blast
  moreover have "inj_on ((wsJobs s)(pid := None)) (dom ((wsJobs s)(pid := None)))"
    using assms unfolding handlesOK_def inj_on_def by auto
  ultimately show ?thesis using assms Some by (simp add: releaseJob_def CloseHandle_def handlesOK_def)
qed (simp add: releaseJob_def assms)

text \<open>
  A root that exits by itself is never waited for, so its job stays in the table. When its pid is used
  again the new job takes its place, and the old handle is open for good.
\<close>

lemma attach_overwrites_leaks:
  assumes "handlesOK s" "wsJobs s pid = Some old" "j \<notin> set (wsOpen s)" "h \<notin> set (wsOpen s)" "h \<noteq> j"
  defines "s' \<equiv> attachTree \<lparr>atJob = Some j, atLimit = True, atProc = Some h, atAssign = True\<rparr> pid s"
  shows "old \<in> set (wsOpen s') \<and> old \<notin> ran (wsJobs s')"
proof -
  have "wsOpen s' = wsOpen s @ [j]" "wsJobs s' = (wsJobs s)(pid \<mapsto> j)"
    using assms(4,5) by (simp_all add: s'_def attachTree_def Let_def CloseHandle_def openHandle_def remove1_append)
  moreover have "old \<in> set (wsOpen s)" using assms(1,2) by (auto simp: handlesOK_def ran_def)
  moreover have "\<And>k. wsJobs s k = Some old \<Longrightarrow> k = pid"
    using assms(1,2) by (auto simp: handlesOK_def inj_on_def dom_def)
  moreover have "j \<noteq> old" using assms(3) \<open>old \<in> set (wsOpen s)\<close> by blast
  ultimately show ?thesis by (auto simp: ran_def)
qed

subsection \<open>A stop ends\<close>

lemma traceOf_calls: "traceOf tr pid (s\<lparr>wsCalls := x\<rparr>) = traceOf tr pid s"
  by (simp add: traceOf_def treeAliveW_def jobFor_def)

lemma killTreeW_result: "\<exists>x. killTreeW err pid s = (err, s\<lparr>wsCalls := x\<rparr>)"
  by (auto simp: killTreeW_def split: option.split)

lemma handlesOK_calls [simp]: "handlesOK (s\<lparr>wsCalls := x\<rparr>) = handlesOK s"
  by (simp add: handlesOK_def)

lemma release_jobs: "wsJobs (releaseJob pid s) = (wsJobs s)(pid := None)"
  by (auto simp: releaseJob_def CloseHandle_def split: option.split)

text \<open>How a wait or a stop may end; \<open>gone\<close>: it reports the tree gone.\<close>

definition endsWell :: "winTrace \<Rightarrow> int \<Rightarrow> winState \<Rightarrow> bool \<Rightarrow> cursor \<Rightarrow> winState \<Rightarrow> bool" where
  "endsWell tr pid s gone c' s' \<longleftrightarrow>
     handlesOK s' \<and> (gone \<longrightarrow> \<not> treeAliveW (wtProbe tr (cuProbe c' - 1)) pid s)
     \<and> (\<forall>k. k \<noteq> pid \<longrightarrow> wsJobs s' k = wsJobs s k)
     \<and> (wsJobs s' pid = None \<or> wsJobs s' = wsJobs s)"

definition ticksW :: "winTrace \<Rightarrow> bool" where
  "ticksW tr \<longleftrightarrow> (\<forall>i. wtClock tr i \<le> wtClock tr (Suc i))"

lemma ticks_traceOf: "ticksW tr \<Longrightarrow> ticks (traceOf tr pid s)"
  by (simp add: ticksW_def ticks_def traceOf_def)

lemma wait_ends:
  assumes "ticksW tr" "handlesOK s" "timeout \<le> pollInterval * int fuel"
  shows "\<exists>b c' s'. waitTreeGoneW (Suc fuel) tr pid timeout c s = Some (b, c', s') \<and> endsWell tr pid s b c' s'
    \<and> (b \<longrightarrow> wsJobs s' pid = None) \<and> (\<not> b \<longrightarrow> s' = s)"
proof -
  obtain b c1 where w: "waitTreeGone (Suc fuel) (traceOf tr pid s) timeout c = Some (b, c1)"
    using waitTreeGone_returns [OF ticks_traceOf [OF assms(1), of pid s] assms(3), of c] by auto
  from waitTreeGone_last_probe [OF w] have "b = (\<not> treeAliveW (wtProbe tr (cuProbe c1 - 1)) pid s)"
    by (simp add: traceOf_def)
  with w show ?thesis
    using assms(2) release_keeps by (cases b) (auto simp: waitTreeGoneW_def endsWell_def release_jobs)
qed


lemma ends_again:
  assumes "endsWell tr pid (s\<lparr>wsCalls := x\<rparr>) gone c' s'"
  shows "endsWell tr pid s gone c' s'"
  using assms by (simp add: endsWell_def treeAliveW_def jobFor_def)

lemma ends_probe:
  assumes "handlesOK s" "probe (traceOf tr pid s) c = (alive, c1)"
  shows "endsWell tr pid s (\<not> alive) c1 s"
  using assms by (auto simp: endsWell_def probe_def traceOf_def)

lemma stopTailW_ends:
  assumes t: "ticksW tr" "handlesOK s" "5 * second \<le> pollInterval * int fuel"
  shows "\<exists>e c' s'. stopTailW (Suc fuel) tr pid err2 c s = Some (e, c', s') \<and> endsWell tr pid s (e = None) c' s'
    \<and> (e = None \<longrightarrow> wsJobs s' pid = None)"
proof -
  obtain x where k: "killTreeW err2 pid s = (err2, s\<lparr>wsCalls := x\<rparr>)" using killTreeW_result by blast
  let ?s = "s\<lparr>wsCalls := x\<rparr>"
  have h: "handlesOK ?s" using t(2) by simp
  have w: "\<exists>e c' s'. (case waitTreeGoneW (Suc fuel) tr pid (5 * second) c0 ?s of
                None \<Rightarrow> None
              | Some (True, c1, s1) \<Rightarrow> Some (None, c1, s1)
              | Some (False, c1, s1) \<Rightarrow> Some (Some (''process group '' @ showInt pid @ '' survived SIGKILL''), c1, s1))
        = Some (e, c', s') \<and> endsWell tr pid s (e = None) c' s' \<and> (e = None \<longrightarrow> wsJobs s' pid = None)" for c0
    using wait_ends [OF t(1) h t(3), of pid c0] ends_again [of tr pid x s] by (elim exE conjE) (auto split: bool.split)
  show ?thesis
  proof (cases err2)
    case None
    with k w [of c] show ?thesis by (simp add: stopTailW_def Let_def)
  next
    case (Some msg)
    obtain alive c1 where p: "probe (traceOf tr pid ?s) c = (alive, c1)" by (cases "probe (traceOf tr pid ?s) c")
    show ?thesis
    proof (cases alive)
      case True
      from ends_again [OF ends_probe [OF h p]] True have "endsWell tr pid s False c1 ?s" by simp
      with k Some p True show ?thesis by (simp add: stopTailW_def Let_def)
    next
      case False
      with k Some p w [of c1] show ?thesis by (simp add: stopTailW_def Let_def)
    qed
  qed
qed

text \<open>C9: Stopping a tree on Windows ends and keeps the handles. With a clock that never runs backwards a
  stop always answers; a success only after a probe has seen the tree gone; and when the kill was
  accepted a success releases the tree's job and closes its handle, while every other tree keeps its
  job: the open handles stay exactly those of the table.\<close>

theorem windows_stop_ends:
  assumes "ticksW tr" "handlesOK s" "5 * second \<le> pollInterval * int fuel"
    and "fst (stopParams (prDef p)) \<le> pollInterval * int fuel"
  shows "\<exists>e c' s'. StopW (Suc fuel) tr err1 err2 p c s = Some (e, c', s') \<and> handlesOK s'
    \<and> (e = None \<longrightarrow> \<not> treeAliveW (wtProbe tr (cuProbe c' - 1)) (prPID p) s)
    \<and> (e = None \<and> err1 = None \<longrightarrow> wsJobs s' (prPID p) = None)
    \<and> (\<forall>k. k \<noteq> prPID p \<longrightarrow> wsJobs s' k = wsJobs s k)"
proof -
  let ?pid = "prPID p"
  obtain x where k: "killTreeW err1 ?pid s = (err1, s\<lparr>wsCalls := x\<rparr>)" using killTreeW_result by blast
  obtain t sig where ts: "stopParams (prDef p) = (t, sig)" by (cases "stopParams (prDef p)")
  let ?s = "s\<lparr>wsCalls := x\<rparr>"
  have h: "handlesOK ?s" using assms(2) by simp
  have "\<exists>e c' s'. StopW (Suc fuel) tr err1 err2 p c s = Some (e, c', s') \<and> endsWell tr ?pid ?s (e = None) c' s'
    \<and> (e = None \<and> err1 = None \<longrightarrow> wsJobs s' ?pid = None)"
  proof (cases err1)
    case (Some msg)
    obtain alive c1 where p: "probe (traceOf tr ?pid ?s) c = (alive, c1)" by (cases "probe (traceOf tr ?pid ?s) c")
    from ends_probe [OF h p] k Some p ts show ?thesis
      by (cases alive) (simp_all add: StopW_def signalTreeW_def Let_def)
  next
    case None
    have "t \<le> pollInterval * int fuel" using assms(4) ts by simp
    from wait_ends [OF assms(1) h this, of ?pid c] obtain b c1 s1 where
      w: "waitTreeGoneW (Suc fuel) tr ?pid t c ?s = Some (b, c1, s1)" "endsWell tr ?pid ?s b c1 s1"
        "b \<longrightarrow> wsJobs s1 ?pid = None" "\<not> b \<longrightarrow> s1 = ?s" by blast
    show ?thesis
    proof (cases b)
      case True
      with None k ts w show ?thesis by (simp add: StopW_def signalTreeW_def Let_def)
    next
      case False
      with w stopTailW_ends [OF assms(1) h assms(3), of ?pid err2 c1] None k ts show ?thesis
        by (simp add: StopW_def signalTreeW_def Let_def)
    qed
  qed
  then show ?thesis using ends_again by (auto simp: endsWell_def treeAliveW_def jobFor_def)
qed

text \<open>Two trees; one is stopped and empty at the third probe.\<close>

definition winTwo :: winState where
  "winTwo = \<lparr>wsJobs = [42 \<mapsto> 7, 43 \<mapsto> 8], wsOpen = [7, 8], wsCalls = []\<rparr>"

definition winProbes :: winTrace where
  "winProbes = \<lparr>wtProbe = (\<lambda>i. \<lparr>wpActive = (\<lambda>h. Some (if h = 7 \<and> 2 \<le> i then 0 else 2)), wpExit = (\<lambda>_. None)\<rparr>), wtClock = int\<rparr>"

theorem windows_stop_ends_witness:
  "\<exists>e c' s'. StopW (Suc 250) winProbes None None sampleProc \<lparr>cuProbe = 0, cuClock = 0, cuSleeps = 0\<rparr> winTwo = Some (e, c', s')
    \<and> handlesOK s' \<and> (\<forall>k. k \<noteq> prPID sampleProc \<longrightarrow> wsJobs s' k = wsJobs winTwo k) \<and> wsJobs s' 43 = Some 8"
proof -
  have h: "handlesOK winTwo" by (auto simp: handlesOK_def winTwo_def inj_on_def ran_def) (rule exI [of _ 43]; simp)
  have t: "ticksW winProbes" by (simp add: ticksW_def winProbes_def)
  have f: "5 * second \<le> pollInterval * int 250" "fst (stopParams (prDef sampleProc)) \<le> pollInterval * int 250"
    by (simp_all add: second_def pollInterval_def sampleProc_def stopParams_def wrap64_def)
  let ?c = "\<lparr>cuProbe = 0, cuClock = 0, cuSleeps = 0\<rparr>"
  from windows_stop_ends [OF t h f, of None None ?c] obtain e c' s' where
    r: "StopW (Suc 250) winProbes None None sampleProc ?c winTwo = Some (e, c', s')" "handlesOK s'"
      "\<forall>k. k \<noteq> prPID sampleProc \<longrightarrow> wsJobs s' k = wsJobs winTwo k" by blast
  have "prPID sampleProc = 42" "wsJobs winTwo 43 = Some 8" by (simp_all add: sampleProc_def winTwo_def)
  with r(3) have "wsJobs s' 43 = Some 8" by simp
  with r show ?thesis by blast
qed

end
