(* ===== verification/TokenSummary.thy ===== *)
theory TokenSummary
  imports HubTokens "HOL-Library.Multiset"
begin

text \<open>
  The summary of token usage (\<^verbatim>\<open>hub/internal/tokens/summary.go\<close>). The SQL queries are written as the
  grouping and aggregation they denote; the sums of the store are a parameter, and the order of groups
  of equal cost, which SQL leaves open, is that of their first rows.
\<close>

subsection \<open>The period\<close>

definition daysOf :: "string \<Rightarrow> int" where
  "daysOf q = (case atoi q of None \<Rightarrow> 30 | Some d \<Rightarrow> if d \<le> 0 \<or> d > 365 then 30 else d)"

text \<open>Midnight UTC, \<open>days - 1\<close> days ago; times are milliseconds.\<close>

definition sinceOf :: "int \<Rightarrow> int \<Rightarrow> int" where
  "sinceOf now days = (now - (days - 1) * msPerDay) div msPerDay * msPerDay"

definition usageSince :: "int \<Rightarrow> 'f UsageRec table \<Rightarrow> 'f UsageRec list" where
  "usageSince since t = filter (\<lambda>u. since \<le> usOccurred u) (map snd t)"

subsection \<open>The breakdowns\<close>

text \<open>\<^verbatim>\<open>GROUP BY\<close>: one group for each key, of all rows with this key.\<close>

definition groupBy :: "('r \<Rightarrow> 'k) \<Rightarrow> 'r list \<Rightarrow> ('k \<times> 'r list) list" where
  "groupBy key rs = map (\<lambda>k. (k, filter (\<lambda>r. key r = k) rs)) (remdups (map key rs))"

fun insertDesc :: "('f \<Rightarrow> 'f \<Rightarrow> bool) \<Rightarrow> ('a \<Rightarrow> 'f) \<Rightarrow> 'a \<Rightarrow> 'a list \<Rightarrow> 'a list" where
  "insertDesc lt f x [] = [x]"
| "insertDesc lt f x (y # ys) = (if lt (f y) (f x) then x # y # ys else y # insertDesc lt f x ys)"

definition orderDesc :: "('f \<Rightarrow> 'f \<Rightarrow> bool) \<Rightarrow> ('a \<Rightarrow> 'f) \<Rightarrow> 'a list \<Rightarrow> 'a list" where
  "orderDesc lt f xs = fold (insertDesc lt f) xs []"

record 'f dayModelRow =
  dmDay :: int
  dmModel :: string
  dmCost :: 'f

record 'f appUsageRow =
  auAppID :: string
  auName :: string
  auCost :: 'f
  auInput :: 'f
  auOutput :: 'f
  auRows :: nat

record 'f totalsRow =
  ttCost :: 'f
  ttInput :: 'f
  ttOutput :: 'f
  ttRows :: nat

record 'f summary =
  suDays :: int
  suDayModel :: "'f dayModelRow list"
  suByApp :: "'f appUsageRow list"
  suBySource :: "(string \<times> 'f) list"
  suByModel :: "(string \<times> 'f) list"
  suTotals :: "'f totalsRow"

definition sumCost :: "'f floatOps \<Rightarrow> 'f UsageRec list \<Rightarrow> 'f" where
  "sumCost fo us = fSum fo (map usCost us)"

definition sumInput :: "'f floatOps \<Rightarrow> 'f UsageRec list \<Rightarrow> 'f" where
  "sumInput fo us = fSum fo (map (\<lambda>u. fAdd fo (fAdd fo (usInput u) (usCacheCreation u)) (usCacheRead u)) us)"

definition sumOutput :: "'f floatOps \<Rightarrow> 'f UsageRec list \<Rightarrow> 'f" where
  "sumOutput fo us = fSum fo (map usOutput us)"

definition byDayModel :: "'f floatOps \<Rightarrow> 'f UsageRec list \<Rightarrow> 'f dayModelRow list" where
  "byDayModel fo us =
     sort_key dmDay (map (\<lambda>(k, g). \<lparr>dmDay = fst k, dmModel = snd k, dmCost = sumCost fo g\<rparr>)
       (groupBy (\<lambda>u. (usOccurred u div msPerDay, usModel u)) us))"

definition byApp :: "'f floatOps \<Rightarrow> (string \<Rightarrow> string option) \<Rightarrow> 'f UsageRec list \<Rightarrow> 'f appUsageRow list" where
  "byApp fo appName us =
     orderDesc (fLess fo) auCost (map (\<lambda>(k, g).
         \<lparr>auAppID = k, auName = (case appName k of None \<Rightarrow> [] | Some n \<Rightarrow> n), auCost = sumCost fo g,
          auInput = sumInput fo g, auOutput = sumOutput fo g, auRows = length g\<rparr>) (groupBy usApp us))"

definition byKey :: "'f floatOps \<Rightarrow> ('f UsageRec \<Rightarrow> string) \<Rightarrow> 'f UsageRec list \<Rightarrow> (string \<times> 'f) list" where
  "byKey fo key us = orderDesc (fLess fo) snd (map (\<lambda>(k, g). (k, sumCost fo g)) (groupBy key us))"

text \<open>The sum over no rows is null, for which the totals put 0.\<close>

definition totalsOf :: "'f floatOps \<Rightarrow> 'f UsageRec list \<Rightarrow> 'f totalsRow" where
  "totalsOf fo us =
     (if us = [] then \<lparr>ttCost = fZero fo, ttInput = fZero fo, ttOutput = fZero fo, ttRows = 0\<rparr>
      else \<lparr>ttCost = sumCost fo us, ttInput = sumInput fo us, ttOutput = sumOutput fo us, ttRows = length us\<rparr>)"

definition summaryOf :: "'f floatOps \<Rightarrow> (string \<Rightarrow> string option) \<Rightarrow> int \<Rightarrow> string \<Rightarrow> 'f UsageRec table \<Rightarrow> 'f summary" where
  "summaryOf fo appName now q t =
     (let days = daysOf q; us = usageSince (sinceOf now days) t
      in \<lparr>suDays = days, suDayModel = byDayModel fo us, suByApp = byApp fo appName us,
          suBySource = byKey fo usSource us, suByModel = byKey fo usModel us, suTotals = totalsOf fo us\<rparr>)"

subsection \<open>They add up\<close>

lemma insertDesc_mset: "mset (insertDesc lt f x ys) = add_mset x (mset ys)"
  by (induction ys) auto

lemma orderDesc_mset: "mset (orderDesc lt f xs) = mset xs"
proof -
  have "mset (fold (insertDesc lt f) xs acc) = mset xs + mset acc" for acc
    by (induction xs arbitrary: acc) (simp_all add: insertDesc_mset)
  then show ?thesis by (simp add: orderDesc_def)
qed

lemma group_sizes: "sum_list (map (\<lambda>(k, g). length g) (groupBy key rs)) = length rs"
proof -
  have "sum_list (map (\<lambda>k. length (filter (\<lambda>r. key r = k) rs)) (remdups ks)) = length (filter (\<lambda>r. key r \<in> set ks) rs)" for ks
  proof (induction ks)
    case (Cons k ks)
    have "length (filter (\<lambda>r. key r = k \<or> key r \<in> set ks) rs)
        = length (filter (\<lambda>r. key r = k) rs) + length (filter (\<lambda>r. key r \<in> set ks) rs)" if "k \<notin> set ks"
      using that by (induction rs) auto
    moreover have "(\<lambda>r. key r = k \<or> key r \<in> set ks) = (\<lambda>r. key r \<in> set ks)" if "k \<in> set ks"
      using that by auto
    ultimately show ?case using Cons by simp
  qed simp
  from this [of "map key rs"] show ?thesis by (simp add: groupBy_def o_def filter_id_conv)
qed

lemma byKey_exact:
  "set (byKey fo key us) = (\<lambda>k. (k, sumCost fo (filter (\<lambda>u. key u = k) us))) ` key ` set us"
  "distinct (map fst (byKey fo key us))"
proof -
  let ?xs = "map (\<lambda>(k, g). (k, sumCost fo g)) (groupBy key us)"
  have m: "mset (byKey fo key us) = mset ?xs" by (simp add: byKey_def orderDesc_mset)
  from mset_eq_setD [OF m] show "set (byKey fo key us) = (\<lambda>k. (k, sumCost fo (filter (\<lambda>u. key u = k) us))) ` key ` set us"
    by (auto simp: groupBy_def)
  have "mset (map fst (byKey fo key us)) = mset (map fst ?xs)" by (simp only: mset_map m)
  moreover have "map fst ?xs = remdups (map key us)" by (simp add: groupBy_def o_def split_beta)
  ultimately have "mset (map fst (byKey fo key us)) = mset (remdups (map key us))" by (simp only:)
  from mset_eq_imp_distinct_iff [OF this] show "distinct (map fst (byKey fo key us))" by simp
qed

lemma mem_mset: "mset xs = mset ys \<Longrightarrow> sum_list (map f xs) = (sum_list (map f ys) :: nat)"
  by (metis mset_map sum_mset_sum_list)

lemma byApp_exact:
  "sum_list (map auRows (byApp fo appName us)) = length us"
  "r \<in> set (byApp fo appName us) \<Longrightarrow> auInput r = sumInput fo (filter (\<lambda>u. usApp u = auAppID r) us)
     \<and> auCost r = sumCost fo (filter (\<lambda>u. usApp u = auAppID r) us)
     \<and> auOutput r = sumOutput fo (filter (\<lambda>u. usApp u = auAppID r) us)"
proof -
  let ?row = "\<lambda>(k, g). \<lparr>auAppID = k, auName = (case appName k of None \<Rightarrow> [] | Some n \<Rightarrow> n), auCost = sumCost fo g,
    auInput = sumInput fo g, auOutput = sumOutput fo g, auRows = length g\<rparr>"
  have m: "mset (byApp fo appName us) = mset (map ?row (groupBy usApp us))"
    by (simp add: byApp_def orderDesc_mset)
  have "map auRows (map ?row (groupBy usApp us)) = map (\<lambda>(k, g). length g) (groupBy usApp us)" by auto
  with mem_mset [OF m, of auRows] group_sizes [of usApp us]
  show "sum_list (map auRows (byApp fo appName us)) = length us" by (metis (no_types, lifting))
  show "r \<in> set (byApp fo appName us) \<Longrightarrow> auInput r = sumInput fo (filter (\<lambda>u. usApp u = auAppID r) us)
     \<and> auCost r = sumCost fo (filter (\<lambda>u. usApp u = auAppID r) us)
     \<and> auOutput r = sumOutput fo (filter (\<lambda>u. usApp u = auAppID r) us)"
    unfolding mset_eq_setD [OF m] by (auto simp: groupBy_def)
qed

lemma since_is_midnight:
  assumes "1 \<le> days"
  shows "sinceOf now days mod msPerDay = 0 \<and> sinceOf now days \<le> now - (days - 1) * msPerDay
    \<and> now - days * msPerDay < sinceOf now days"
proof -
  let ?x = "now - (days - 1) * msPerDay"
  have "sinceOf now days = ?x - ?x mod msPerDay" by (simp add: sinceOf_def minus_mod_eq_div_mult)
  moreover have "0 \<le> ?x mod msPerDay" "?x mod msPerDay < msPerDay" by (simp_all add: msPerDay_def)
  moreover have "days * msPerDay = (days - 1) * msPerDay + msPerDay" by (simp add: algebra_simps)
  ultimately show ?thesis by (auto simp: sinceOf_def)
qed


end
