(* ===== verification/Spec2Isabelle.thy ===== *)
theory Spec2Isabelle
  imports HubServices HubTracking AgentService AgentPaths AgentProps AgentRestart AgentSync AgentBuffers Supervisor AgentStore LogFollow HubClients WireFrames WatchProps
    DockerProps Enrolment ImportFlow HubLogs WireTyped CommandLedger AgentConn AgentLoops ProcWindows TokenSummary
begin

text \<open>
  Breakerbox: a verification development of the agent and the hub.

  \<^bold>\<open>The program.\<close> A hub (\<^verbatim>\<open>hub/\<close>, Go on PocketBase) keeps systems, applications, commands, metrics and
  token usage for its web and mobile clients. On every supervised host an agent (\<^verbatim>\<open>agent/\<close>, Go) dials the
  hub's WebSocket, runs the host's applications as process trees, containers or compose projects, and
  reports. The hub decides what exists and what should run; the host alone decides what may run: a
  definition is approved on the host, for its hash. The two sides exchange the frames of
  \<^verbatim>\<open>pkg/protocol\<close>.

  \<^bold>\<open>Foundations.\<close>
  \<^item> \<open>BB_Prelude\<close>: 64-bit integers with their wrap-around, Go's string functions, buffers that keep the
    newest items, splitting into lines; the collections of simplification rules the others use.
  \<^item> \<open>Json\<close>, \<open>Unmarshal\<close>: \<^verbatim>\<open>encoding/json\<close> byte for byte, for what the program uses (a value is read
    back from its text; unknown, repeated and ill-typed members). \<open>Http\<close>: the rest of Go's library the
    clients need.
  \<^item> \<open>Protocol\<close>: the types of \<^verbatim>\<open>pkg/protocol\<close> and \<^verbatim>\<open>Validate\<close>. \<open>Wire\<close>: an encoder and a decoder for
    each message under the contract \<open>wire_codec\<close>, the envelope, the definition hash (\<^verbatim>\<open>appdef.go\<close>).
    \<open>WireFrames\<close>: the frames as bytes. \<open>WireTyped\<close>: whatever arrives, what is decoded is well typed
    (contract \<open>typed_decoder\<close>).

  \<^bold>\<open>The agent.\<close>
  \<^item> \<open>Transport\<close>, \<open>AgentConn\<close> (\<^verbatim>\<open>internal/transport\<close>): reconnect delays, the bounded send queue, one
    connection as interleaved steps of its goroutines.
  \<^item> \<open>Supervisor\<close>, \<open>ProcWindows\<close> (\<^verbatim>\<open>internal/supervisor\<close>): starting and stopping a process tree on unix
    and on Windows, reaping orphans.
  \<^item> \<open>AgentStore\<close> (\<^verbatim>\<open>internal/appconfig\<close>): the state file and the spool, with what a crash can leave.
  \<^item> \<open>AgentDaemon\<close>, \<open>AgentControl\<close> (\<^verbatim>\<open>internal/daemon\<close>): the daemon's state as the record \<open>daemon\<close>, its
    operations, and the step function \<open>agentStep\<close> over everything that can happen to it.
    \<open>AgentSecurity\<close>, \<open>AgentProps\<close>, \<open>AgentSync\<close>, \<open>AgentRestart\<close> hold the invariants and properties: what
    runs was approved, commands are answered, a sync is followed, crash loops end, reconciliation
    converges.
  \<^item> \<open>AgentBuffers\<close>, \<open>Collector\<close>, \<open>AgentLoops\<close>: metrics sampling, buffering over an outage, the
    periodic loops. \<open>LogFollow\<close>: log streams. \<open>Docker\<close>, \<open>DockerProps\<close> (\<^verbatim>\<open>internal/dockerapp\<close>): the
    container engine's client, the demultiplexed logs, polling.
  \<^item> \<open>TokenProxy\<close> (\<^verbatim>\<open>internal/tokenproxy\<close>) and \<open>TokenWatch\<close>, \<open>WatchProps\<close> (\<^verbatim>\<open>internal/tokenwatch\<close>):
    metering of API traffic and of transcripts.
  \<^item> \<open>AgentCli\<close> (\<^verbatim>\<open>agent/main.go\<close>, \<^verbatim>\<open>internal/identity\<close>): the command line and the host's key.
    \<open>AgentService\<close>: the reconnect loop, the run command and the Windows service
    (\<^verbatim>\<open>agent/service_windows.go\<close>) as a step relation. \<open>AgentPaths\<close>: Go's path cleaning on unix and the
    files of the agent it names.

  \<^bold>\<open>The hub.\<close>
  \<^item> \<open>RecordStore\<close>, \<open>HubStore\<close>: tables under the contract \<open>record_store\<close>, the collections, the record
    \<open>hub\<close>. \<open>HubPlane\<close> (\<^verbatim>\<open>internal/agenthub\<close>): authentication, the life of a connection, every frame
    handler. \<open>HubApi\<close>: commands, applications, enrollment, first-run setup. \<open>HubLogs\<close>: the live log
    view.
  \<^item> \<open>HubProps\<close> defines \<open>hubStep\<close>, the hub over its events; with \<open>HubControl\<close> and \<open>HubClients\<close> it holds
    who may approve, what is dispatched, and that a system's status follows its connection.
    \<open>CommandLedger\<close>: the command records refine an abstract ledger.
  \<^item> \<open>Notify\<close>, \<open>HubTokens\<close>, \<open>TokenSummary\<close>, \<open>HubMetrics\<close>: alerts, token accounting and its summary,
    downsampling and retention. \<open>HubServices\<close>: the refresh of the prices, the settings record of the
    migrations, the steps of the spend alert, the texts sent to ntfy, the web client's paths.

  \<^bold>\<open>Both.\<close> \<open>Enrolment\<close>: the enroll command against the hub's handler, then the signed handshake.
  \<open>ImportFlow\<close>: an imported definition from the file through spool, registration and sync back to the
  daemon. \<open>HubTracking\<close>: the metering switch from the client's request to the process's environment.

  \<^bold>\<open>How the code is modelled.\<close> A struct is a record, a string-typed constant a datatype whose last
  constructor keeps any other string, an error a value. A handler that runs under one lock is one
  function from state to state; where the code leaves its lock or calls out in between, the parts are
  functions of their own and the theorems say how they may interleave. Pointers are not needed: no
  claim depends on aliasing beyond the tables. Times are integers (nanoseconds or milliseconds as in the
  code), and products that can overflow are wrapped. Go's map order is a list argument.

  \<^bold>\<open>Parameters.\<close> What is not under \<^verbatim>\<open>src/\<close> is an argument: the operating system's answers, PocketBase's
  acceptance of a save, the engine's and the upstream's responses, SHA-256, Ed25519, float64 arithmetic,
  the clock. A theorem that needs a law of one of them (a signature verifies under its key, distinct
  inputs have distinct hashes, the clock never runs backwards) has it as a named hypothesis, and
  its witness an instance.

  \<^bold>\<open>Bounds and fuel.\<close> Recursion over data is structural. The waits of the supervisor take fuel, the number
  of polls, and are shown to answer when as many 20 ms polls as fill the timeout are allowed; the walk
  over a process tree takes the height of the tree; \<open>Conn.Send\<close> ends by the length of its queue. The
  caps of the code are constants of the model: 256 queued and 64 received frames, 240 metrics batches,
  32 log chunks, 200 swept commands, 500 synced applications, 64 MiB of request body, 4 MiB of
  transcript line.

  \<^bold>\<open>Not modelled.\<close> The wiring of the hub's packages in \<^verbatim>\<open>hub/main.go\<close>, the opening of listeners and
  tickers, and the printing of usage hold no logic beyond calls of libraries; the web and mobile
  clients are TypeScript; the test application is not part of the product. PocketBase's queries and
  validation, the WebSocket and the HTTP servers are outside the repository; of its access rules the
  model has those that admit writes. Superusers, who may edit any record by hand, are outside of the hub's events.
  Concurrency is modelled where handlers drop their locks; data races inside a library are not.
\<close>

end
